(* ===== verification/Prelude.thy ===== *)
theory Prelude
  imports Complex_Main "HOL-Library.Word" "HOL-Library.Code_Target_Numeral"
begin

text \<open>
  Shared vocabulary of the development: the collections of simplification rules the component
  theories fill, and the generic lemmas on lists, options and signed machine words that more than
  one component uses.  A Go \<open>time.Duration\<close> is an \<open>int64\<close> number of nanoseconds; its
  arithmetic wraps, so it is a 64-bit word read as a signed number.
\<close>

named_theorems frame_simps \<open>what an operation leaves unchanged in the state it is passed\<close>
named_theorems string_simps \<open>evaluation of the string functions on literals\<close>
named_theorems duration_simps \<open>signed reading of duration arithmetic\<close>

section \<open>Results of Go functions\<close>

text \<open>
  A Go function that returns a value and an \<open>error\<close>, of which the caller uses exactly one, is
  a function into \<open>'e + 'a\<close>: \<open>Inl\<close> is the error branch, \<open>Inr\<close> the value with a nil
  error.
\<close>

definition bind_result :: "'e + 'a \<Rightarrow> ('a \<Rightarrow> 'e + 'b) \<Rightarrow> 'e + 'b" where
  "bind_result m f = (case m of Inl e \<Rightarrow> Inl e | Inr a \<Rightarrow> f a)"

lemma bind_result_simps [simp]:
  "bind_result (Inl e) f = Inl e"
  "bind_result (Inr a) f = f a"
  by (simp_all add: bind_result_def)

lemma bind_result_Inr_iff:
  "bind_result m f = Inr b \<longleftrightarrow> (\<exists>a. m = Inr a \<and> f a = Inr b)"
  by (cases m) simp_all

lemma bind_result_Inl_iff:
  "bind_result m f = Inl e \<longleftrightarrow> m = Inl e \<or> (\<exists>a. m = Inr a \<and> f a = Inl e)"
  by (cases m) auto

text \<open>A loop that maps a fallible function over a slice and returns at the first error.\<close>

fun map_result :: "('a \<Rightarrow> 'e + 'b) \<Rightarrow> 'a list \<Rightarrow> 'e + 'b list" where
  "map_result f [] = Inr []"
| "map_result f (x # xs) =
     (case f x of Inl e \<Rightarrow> Inl e
      | Inr y \<Rightarrow> (case map_result f xs of Inl e \<Rightarrow> Inl e | Inr ys \<Rightarrow> Inr (y # ys)))"

lemma map_result_Inr_iff:
  "map_result f xs = Inr ys \<longleftrightarrow> list_all2 (\<lambda>x y. f x = Inr y) xs ys"
proof (induction xs arbitrary: ys)
  case Nil
  then show ?case by auto
next
  case (Cons x xs)
  show ?case
    by (cases ys; cases "f x"; cases "map_result f xs") (auto simp: Cons.IH [symmetric])
qed

lemma map_result_total:
  "(\<And>x. x \<in> set xs \<Longrightarrow> \<exists>y. f x = Inr y) \<Longrightarrow> \<exists>ys. map_result f xs = Inr ys"
proof (induction xs)
  case Nil
  then show ?case by simp
next
  case (Cons x xs)
  then obtain y ys where "f x = Inr y" and "map_result f xs = Inr ys"
    by fastforce
  then show ?case by simp
qed

section \<open>Lists\<close>

text \<open>Keeping the first occurrence of every element: the \<open>seen\<close> map idiom of Go.\<close>

fun dedup_onto :: "'a list \<Rightarrow> 'a list \<Rightarrow> 'a list" where
  "dedup_onto acc [] = acc"
| "dedup_onto acc (x # xs) = dedup_onto (if x \<in> set acc then acc else acc @ [x]) xs"

lemma set_dedup_onto: "set (dedup_onto acc xs) = set acc \<union> set xs"
  by (induction acc xs rule: dedup_onto.induct) auto

lemma distinct_dedup_onto: "distinct acc \<Longrightarrow> distinct (dedup_onto acc xs)"
  by (induction acc xs rule: dedup_onto.induct) auto

lemma dedup_onto_append: "dedup_onto acc (xs @ ys) = dedup_onto (dedup_onto acc xs) ys"
  by (induction acc xs rule: dedup_onto.induct) auto

section \<open>Signed 64-bit arithmetic\<close>

type_synonym int64 = "64 word"

definition max_int64 :: int where
  "max_int64 = 2 ^ 63 - 1"

definition in_int64 :: "int \<Rightarrow> bool" where
  "in_int64 i \<longleftrightarrow> - (2 ^ 63) \<le> i \<and> i < 2 ^ 63"

lemma sint_int64_bounds: "- (2 ^ 63) \<le> sint (w :: int64)" "sint (w :: int64) < 2 ^ 63"
  using sint_greater_eq [of w] sint_less [of w] by simp_all

lemma sint_of_int_int64 [duration_simps]:
  "in_int64 i \<Longrightarrow> sint (word_of_int i :: int64) = i"
  by (simp add: in_int64_def signed_of_int signed_take_bit_int_eq_self)

lemma word_of_int_sint_int64: "word_of_int (sint (a :: int64)) = a"
  by simp

lemma sint_plus_int64 [duration_simps]:
  assumes "in_int64 (sint a + sint b)"
  shows "sint (a + b :: int64) = sint a + sint b"
proof -
  have "a + b = word_of_int (sint a + sint b)"
    by (simp only: wi_hom_add [symmetric] word_of_int_sint_int64)
  with assms show ?thesis by (simp only: sint_of_int_int64)
qed

lemma sint_minus_int64 [duration_simps]:
  assumes "in_int64 (sint a - sint b)"
  shows "sint (a - b :: int64) = sint a - sint b"
proof -
  have "a - b = word_of_int (sint a - sint b)"
    by (simp only: wi_hom_sub [symmetric] word_of_int_sint_int64)
  with assms show ?thesis by (simp only: sint_of_int_int64)
qed

lemma sint_times_int64 [duration_simps]:
  assumes "in_int64 (sint a * sint b)"
  shows "sint (a * b :: int64) = sint a * sint b"
proof -
  have "a * b = word_of_int (sint a * sint b)"
    by (simp only: wi_hom_mult [symmetric] word_of_int_sint_int64)
  with assms show ?thesis by (simp only: sint_of_int_int64)
qed

text \<open>A random offset \<open>Int63n(b - mn + 1)\<close> added to \<open>mn\<close> stays between \<open>mn\<close> and \<open>b\<close>.\<close>

lemma jitter_bounds:
  fixes mn b :: int64
  assumes "0 < sint mn" "sint mn < sint b"
  shows "0 < sint (b - mn)" "0 < sint (b - mn + 1)"
    and "\<lbrakk>0 \<le> j; j < sint (b - mn + 1)\<rbrakk> \<Longrightarrow> sint mn \<le> sint (mn + word_of_int j) \<and> sint (mn + word_of_int j) \<le> sint b"
proof -
  have bd: "sint b < 2 ^ 63" by (rule sint_int64_bounds)
  have diff: "sint (b - mn) = sint b - sint mn"
    using assms bd by (intro sint_minus_int64) (simp add: in_int64_def)
  have inc: "sint (b - mn + 1) = sint b - sint mn + 1"
    using diff assms bd sint_plus_int64 [of "b - mn" 1] by (simp add: in_int64_def)
  show "0 < sint (b - mn)" "0 < sint (b - mn + 1)" using diff inc assms by simp_all
  assume j: "0 \<le> j" "j < sint (b - mn + 1)"
  then have wj: "sint (word_of_int j :: int64) = j"
    using inc assms bd by (intro sint_of_int_int64) (simp add: in_int64_def)
  then have "sint (mn + word_of_int j) = sint mn + j"
    using j inc assms bd sint_plus_int64 [of mn "word_of_int j"] by (simp add: in_int64_def)
  with j inc show "sint mn \<le> sint (mn + word_of_int j) \<and> sint (mn + word_of_int j) \<le> sint b" by simp
qed

end
