(* ===== verification/GoStrings.thy ===== *)
theory GoStrings
  imports Prelude "HOL-Library.Char_ord" "HOL-Library.List_Lexorder"
begin

text \<open>
  The string functions of Go's standard library the program uses (\<open>strings\<close>,
  \<open>strconv\<close>, the verbs of \<open>fmt\<close>, \<open>os.Expand\<close>).  A Go string is a sequence of
  bytes, and so is a \<^typ>\<open>string\<close> here: a code point beyond ASCII is its UTF-8 bytes.
  White space is the set \<open>unicode.IsSpace\<close>, as byte sequences; since UTF-8 lead bytes are
  never continuation bytes, matching these sequences bytewise finds exactly the runes Go finds.
\<close>

section \<open>Trimming and splitting at white space\<close>

definition space_encodings :: "string list" where
  "space_encodings =
     [[CHR 0x09], [CHR 0x0A], [CHR 0x0B], [CHR 0x0C], [CHR 0x0D], [CHR 0x20],
      [CHR 0xC2, CHR 0x85], [CHR 0xC2, CHR 0xA0], [CHR 0xE1, CHR 0x9A, CHR 0x80],
      [CHR 0xE2, CHR 0x80, CHR 0x80], [CHR 0xE2, CHR 0x80, CHR 0x81],
      [CHR 0xE2, CHR 0x80, CHR 0x82], [CHR 0xE2, CHR 0x80, CHR 0x83],
      [CHR 0xE2, CHR 0x80, CHR 0x84], [CHR 0xE2, CHR 0x80, CHR 0x85],
      [CHR 0xE2, CHR 0x80, CHR 0x86], [CHR 0xE2, CHR 0x80, CHR 0x87],
      [CHR 0xE2, CHR 0x80, CHR 0x88], [CHR 0xE2, CHR 0x80, CHR 0x89],
      [CHR 0xE2, CHR 0x80, CHR 0x8A], [CHR 0xE2, CHR 0x80, CHR 0xA8],
      [CHR 0xE2, CHR 0x80, CHR 0xA9], [CHR 0xE2, CHR 0x80, CHR 0xAF],
      [CHR 0xE2, CHR 0x81, CHR 0x9F], [CHR 0xE3, CHR 0x80, CHR 0x80]]"

text \<open>Length of the first of the given byte sequences that starts the string, 0 for none.\<close>

definition lead_len :: "string list \<Rightarrow> string \<Rightarrow> nat" where
  "lead_len encs s =
     (case find (\<lambda>e. take (length e) s = e) encs of None \<Rightarrow> 0 | Some e \<Rightarrow> length e)"

function trim_front :: "string list \<Rightarrow> string \<Rightarrow> string" where
  "trim_front encs s =
     (if s = [] \<or> lead_len encs s = 0 then s else trim_front encs (drop (lead_len encs s) s))"
  by pat_completeness auto
termination
  by (relation "measure (\<lambda>(encs, s). length s)") auto

declare trim_front.simps [simp del]

definition TrimSpace :: "string \<Rightarrow> string" where
  "TrimSpace s =
     rev (trim_front (map rev space_encodings) (rev (trim_front space_encodings s)))"

text \<open>\<open>strings.Fields\<close>: \<open>cur\<close> is the word being read, reversed.\<close>

function fields_from :: "string \<Rightarrow> string \<Rightarrow> string list" where
  "fields_from cur s =
     (let flush = (if cur = [] then [] else [rev cur]); n = lead_len space_encodings s in
      case s of [] \<Rightarrow> flush
      | c # cs \<Rightarrow> (if n = 0 then fields_from (c # cur) cs
                   else flush @ fields_from [] (drop n s)))"
  by pat_completeness auto
termination
  by (relation "measure (\<lambda>(cur, s). length s)") auto

declare fields_from.simps [simp del]

definition Fields :: "string \<Rightarrow> string list" where
  "Fields s = fields_from [] s"

text \<open>A byte that neither starts nor ends an encoding of white space.\<close>

definition plain_byte :: "char \<Rightarrow> bool" where
  "plain_byte c \<longleftrightarrow> (\<forall>e \<in> set space_encodings. hd e \<noteq> c \<and> last e \<noteq> c)"

lemma lead_len_plain:
  assumes "\<forall>e \<in> set encs. e \<noteq> [] \<and> hd e \<noteq> c"
  shows "lead_len encs (c # cs) = 0"
proof -
  have "find (\<lambda>e. take (length e) (c # cs) = e) encs = None"
    unfolding find_None_iff
  proof
    assume "\<exists>e. e \<in> set encs \<and> take (length e) (c # cs) = e"
    then obtain e where e: "e \<in> set encs" "take (length e) (c # cs) = e" by blast
    with assms have "e \<noteq> []" "hd e \<noteq> c" by auto
    then obtain x xs where "e = x # xs" by (cases e) auto
    with e \<open>hd e \<noteq> c\<close> show False by simp
  qed
  then show ?thesis by (simp add: lead_len_def)
qed

lemma space_encodings_nonempty: "e \<in> set space_encodings \<Longrightarrow> e \<noteq> []"
  by (auto simp: space_encodings_def)

lemma lead_len_space_plain [simp]: "plain_byte c \<Longrightarrow> lead_len space_encodings (c # cs) = 0"
  by (rule lead_len_plain) (auto simp: plain_byte_def dest: space_encodings_nonempty)

lemma lead_len_rev_plain [simp]:
  "plain_byte c \<Longrightarrow> lead_len (map rev space_encodings) (c # cs) = 0"
  by (rule lead_len_plain) (auto simp: plain_byte_def hd_rev dest: space_encodings_nonempty)

lemma trim_front_Nil [simp]: "trim_front encs [] = []"
  by (simp add: trim_front.simps)

lemma trim_front_plain [simp]:
  "lead_len encs (c # cs) = 0 \<Longrightarrow> trim_front encs (c # cs) = c # cs"
  by (simp add: trim_front.simps)

lemma TrimSpace_Nil [simp]: "TrimSpace [] = []"
  by (simp add: TrimSpace_def)

text \<open>A string whose first and last bytes are plain is left alone.\<close>

lemma TrimSpace_plain_ends:
  assumes "s \<noteq> []" "plain_byte (hd s)" "plain_byte (last s)"
  shows "TrimSpace s = s"
proof -
  obtain c cs where s: "s = c # cs" using assms by (cases s) auto
  obtain d ds where r: "rev s = d # ds" using assms by (cases "rev s") auto
  from r have "d = last s" by (metis hd_rev list.sel(1))
  with assms s r have "trim_front space_encodings s = s"
    and "trim_front (map rev space_encodings) (rev s) = rev s" by simp_all
  then show ?thesis by (simp add: TrimSpace_def)
qed

text \<open>A string that starts with a plain byte is not blank.\<close>

lemma lead_len_le:
  assumes "\<forall>e \<in> set encs. e \<noteq> [] \<and> last e \<noteq> c"
  shows "lead_len encs (xs @ [c]) \<le> length xs"
proof (cases "find (\<lambda>e. take (length e) (xs @ [c]) = e) encs")
  case None
  then show ?thesis by (simp add: lead_len_def)
next
  case (Some e)
  then have e: "e \<in> set encs" "take (length e) (xs @ [c]) = e"
    by (auto simp: find_Some_iff)
  have "length e \<le> length xs"
  proof (rule ccontr)
    assume "\<not> ?thesis"
    with e(2) have "e = xs @ [c]" by (metis Suc_leI length_append_singleton not_le take_all)
    with e(1) assms show False by auto
  qed
  with Some show ?thesis by (simp add: lead_len_def)
qed

lemma trim_front_keeps_last:
  "\<forall>e \<in> set encs. e \<noteq> [] \<and> last e \<noteq> c \<Longrightarrow> trim_front encs (xs @ [c]) \<noteq> []"
proof (induction "length xs" arbitrary: xs rule: less_induct)
  case less
  let ?n = "lead_len encs (xs @ [c])"
  have n: "?n \<le> length xs" using less.prems by (rule lead_len_le)
  show ?case
  proof (cases "?n = 0")
    case True
    then show ?thesis by (simp add: trim_front.simps [of encs "xs @ [c]"])
  next
    case False
    then have "length (drop ?n xs) < length xs" using n by simp
    from less.hyps [OF this less.prems] False n show ?thesis
      by (simp add: trim_front.simps [of encs "xs @ [c]"])
  qed
qed

lemma TrimSpace_plain_hd:
  assumes "plain_byte c"
  shows "TrimSpace (c # cs) \<noteq> []"
proof -
  have "\<forall>e \<in> set (map rev space_encodings). e \<noteq> [] \<and> last e \<noteq> c"
    using assms by (auto simp: plain_byte_def last_rev dest: space_encodings_nonempty)
  then have "trim_front (map rev space_encodings) (rev cs @ [c]) \<noteq> []"
    by (rule trim_front_keeps_last)
  with assms show ?thesis by (simp add: TrimSpace_def)
qed

lemma fields_from_Nil [simp]: "fields_from cur [] = (if cur = [] then [] else [rev cur])"
  by (simp add: fields_from.simps [of cur "[]"])

lemma fields_from_plain [simp]: "plain_byte c \<Longrightarrow> fields_from cur (c # cs) = fields_from (c # cur) cs"
  by (simp add: fields_from.simps [of cur "c # cs"])

lemma lead_len_blank [simp]: "lead_len space_encodings (CHR '' '' # cs) = 1"
  by (simp add: lead_len_def space_encodings_def)

lemma fields_from_blank [simp]:
  "fields_from cur (CHR '' '' # cs) = (if cur = [] then [] else [rev cur]) @ fields_from [] cs"
  by (simp add: fields_from.simps [of cur "CHR '' '' # cs"])

lemma fields_from_plain_word:
  "list_all plain_byte w \<Longrightarrow> fields_from cur (w @ s) = fields_from (rev w @ cur) s"
  by (induction w arbitrary: cur) simp_all

section \<open>Single-byte separators\<close>

definition IndexByte :: "string \<Rightarrow> char \<Rightarrow> nat option" where
  "IndexByte s c = (if c \<in> set s then Some (length (takeWhile (\<lambda>x. x \<noteq> c) s)) else None)"

fun Split :: "char \<Rightarrow> string \<Rightarrow> string list" where
  "Split c [] = [[]]"
| "Split c (x # xs) =
     (if x = c then [] # Split c xs
      else (case Split c xs of [] \<Rightarrow> [[x]] | y # ys \<Rightarrow> (x # y) # ys))"

text \<open>\<open>strings.SplitN(s, sep, 2)\<close> of a string that contains the separator.\<close>

definition SplitAt :: "char \<Rightarrow> string \<Rightarrow> string \<times> string" where
  "SplitAt c s = (takeWhile (\<lambda>x. x \<noteq> c) s, drop 1 (dropWhile (\<lambda>x. x \<noteq> c) s))"

fun Join :: "string list \<Rightarrow> string \<Rightarrow> string" where
  "Join [] sep = []"
| "Join [x] sep = x"
| "Join (x # y # ys) sep = x @ sep @ Join (y # ys) sep"

lemma IndexByte_append:
  "c \<notin> set xs \<Longrightarrow> IndexByte (xs @ c # ys) c = Some (length xs)"
proof -
  assume "c \<notin> set xs"
  then have "takeWhile (\<lambda>x. x \<noteq> c) (xs @ c # ys) = xs"
    by (induction xs) auto
  then show ?thesis by (simp add: IndexByte_def)
qed

lemma Split_not_Nil [simp]: "Split c s \<noteq> []"
  by (induction s) (auto split: list.splits)

lemma Split_no_sep: "c \<notin> set s \<Longrightarrow> Split c s = [s]"
  by (induction s) auto

lemma Split_append: "c \<notin> set xs \<Longrightarrow> Split c (xs @ c # ys) = xs # Split c ys"
  by (induction xs) (auto split: list.splits)

lemma Join_Split: "Join (Split c s) [c] = s"
proof (induction s)
  case Nil
  then show ?case by simp
next
  case (Cons x xs)
  then show ?case
    by (cases "Split c xs"; cases "tl (Split c xs)") auto
qed

lemma SplitAt_append: "c \<notin> set xs \<Longrightarrow> SplitAt c (xs @ c # ys) = (xs, ys)"
proof -
  assume c: "c \<notin> set xs"
  then have "takeWhile (\<lambda>x. x \<noteq> c) (xs @ c # ys) = xs"
    and "dropWhile (\<lambda>x. x \<noteq> c) (xs @ c # ys) = c # ys"
    by (induction xs) auto
  then show ?thesis by (simp add: SplitAt_def)
qed

section \<open>Trimming a byte, prefixes\<close>

definition TrimLeftByte :: "char \<Rightarrow> string \<Rightarrow> string" where
  "TrimLeftByte c s = dropWhile (\<lambda>x. x = c) s"

definition TrimRightByte :: "char \<Rightarrow> string \<Rightarrow> string" where
  "TrimRightByte c s = rev (dropWhile (\<lambda>x. x = c) (rev s))"

definition TrimByte :: "char \<Rightarrow> string \<Rightarrow> string" where
  "TrimByte c s = TrimRightByte c (TrimLeftByte c s)"

definition HasPrefix :: "string \<Rightarrow> string \<Rightarrow> bool" where
  "HasPrefix s p \<longleftrightarrow> take (length p) s = p"

definition HasSuffix :: "string \<Rightarrow> string \<Rightarrow> bool" where
  "HasSuffix s p \<longleftrightarrow> HasPrefix (rev s) (rev p)"

definition TrimPrefix :: "string \<Rightarrow> string \<Rightarrow> string" where
  "TrimPrefix s p = (if HasPrefix s p then drop (length p) s else s)"

lemma HasPrefix_append [simp]: "HasPrefix (p @ s) p"
  by (simp add: HasPrefix_def)

lemma TrimPrefix_append [simp]: "TrimPrefix (p @ s) p = s"
  by (simp add: TrimPrefix_def)

section \<open>Letter case\<close>

text \<open>
  \<open>strings.ToLower\<close>, exact on ASCII.  Two letters beyond ASCII have an ASCII lower case
  (U+0130 to \<open>i\<close>, U+212A to \<open>k\<close>); every other byte is kept, which never turns a
  string into or out of ASCII.
\<close>

definition lower_byte :: "char \<Rightarrow> char" where
  "lower_byte c =
     (if 65 \<le> (of_char c :: nat) \<and> (of_char c :: nat) \<le> 90 then char_of (of_char c + (32 :: nat)) else c)"

fun ToLower :: "string \<Rightarrow> string" where
  "ToLower [] = []"
| "ToLower (c # cs) =
     (if c = CHR 0xC4 \<and> take 1 cs = [CHR 0xB0] then CHR ''i'' # ToLower (drop 1 cs)
      else if c = CHR 0xE2 \<and> take 2 cs = [CHR 0x84, CHR 0xAA] then CHR ''k'' # ToLower (drop 2 cs)
      else lower_byte c # ToLower cs)"

section \<open>Decimal numbers\<close>

definition digit_char :: "nat \<Rightarrow> char" where
  "digit_char d = char_of (48 + d)"

definition is_digit :: "char \<Rightarrow> bool" where
  "is_digit c \<longleftrightarrow> 48 \<le> (of_char c :: nat) \<and> (of_char c :: nat) \<le> 57"

definition digit_value :: "char \<Rightarrow> nat" where
  "digit_value c = of_char c - 48"

fun show_nat :: "nat \<Rightarrow> string" where
  "show_nat n = (if n < 10 then [digit_char n] else show_nat (n div 10) @ [digit_char (n mod 10)])"

declare show_nat.simps [simp del]

text \<open>\<open>strconv.Itoa\<close> and the verb \<open>%d\<close>.\<close>

definition Itoa :: "int \<Rightarrow> string" where
  "Itoa i = (if i < 0 then CHR ''-'' # show_nat (nat (- i)) else show_nat (nat i))"

definition digits_value :: "string \<Rightarrow> nat" where
  "digits_value ds = foldl (\<lambda>n d. 10 * n + digit_value d) 0 ds"

text \<open>\<open>strconv.Atoi\<close>, with \<^const>\<open>None\<close> for a syntax or a range error.\<close>

definition Atoi :: "string \<Rightarrow> int option" where
  "Atoi s =
     (let signed = (s \<noteq> [] \<and> (hd s = CHR ''-'' \<or> hd s = CHR ''+''));
          neg = (s \<noteq> [] \<and> hd s = CHR ''-'');
          ds = (if signed then tl s else s) in
      if ds = [] \<or> \<not> list_all is_digit ds then None
      else let n = int (digits_value ds); v = (if neg then - n else n) in
           if in_int64 v then Some v else None)"

definition FormatBool :: "bool \<Rightarrow> string" where
  "FormatBool b = (if b then ''true'' else ''false'')"

lemma of_char_digit_char: "d < 10 \<Longrightarrow> (of_char (digit_char d) :: nat) = 48 + d"
  by (simp add: digit_char_def)

lemma is_digit_digit_char [simp]: "d < 10 \<Longrightarrow> is_digit (digit_char d)"
  by (simp add: is_digit_def of_char_digit_char)

lemma digit_value_digit_char [simp]: "d < 10 \<Longrightarrow> digit_value (digit_char d) = d"
  by (simp add: digit_value_def of_char_digit_char)

lemma show_nat_not_Nil [simp]: "show_nat n \<noteq> []"
  by (subst show_nat.simps) simp

lemma show_nat_digits: "list_all is_digit (show_nat n)"
proof (induction n rule: show_nat.induct)
  case (1 n)
  then show ?case
    by (cases "n < 10") (simp_all add: show_nat.simps [of n])
qed

lemma digits_value_append: "digits_value (ds @ [d]) = 10 * digits_value ds + digit_value d"
  by (simp add: digits_value_def)

lemma digits_value_show_nat [simp]: "digits_value (show_nat n) = n"
proof (induction n rule: show_nat.induct)
  case (1 n)
  show ?case
  proof (cases "n < 10")
    case True
    then show ?thesis by (simp add: show_nat.simps [of n] digits_value_def)
  next
    case False
    with 1 have "digits_value (show_nat (n div 10)) = n div 10" by simp
    with False show ?thesis
      by (simp add: show_nat.simps [of n] digits_value_append)
  qed
qed

lemma sign_not_digit: "is_digit c \<Longrightarrow> c \<noteq> CHR ''-'' \<and> c \<noteq> CHR ''+''"
  by (auto simp: is_digit_def)

lemma hd_show_nat_digit: "is_digit (hd (show_nat n))"
  using show_nat_digits [of n] by (cases "show_nat n") auto

lemma Atoi_digits:
  assumes "ds \<noteq> []" "list_all is_digit ds" "digits_value ds < 2 ^ 63"
  shows "Atoi ds = Some (int (digits_value ds))"
proof -
  from assms have "is_digit (hd ds)" by (cases ds) auto
  then have "hd ds \<noteq> CHR ''-''" "hd ds \<noteq> CHR ''+''" by (auto dest: sign_not_digit)
  with assms show ?thesis by (simp add: Atoi_def in_int64_def Let_def)
qed

text \<open>Printing and reading a 64-bit integer are inverse.\<close>

lemma Atoi_Itoa: "in_int64 i \<Longrightarrow> Atoi (Itoa i) = Some i"
proof (cases "i < 0")
  case True
  assume "in_int64 i"
  with True show ?thesis
    using show_nat_digits [of "nat (- i)"] by (simp add: Itoa_def Atoi_def Let_def)
next
  case False
  assume "in_int64 i"
  with False show ?thesis
    using Atoi_digits [OF show_nat_not_Nil show_nat_digits, of "nat i"]
    by (simp add: Itoa_def in_int64_def nat_less_iff)
qed

section \<open>Quoting\<close>

definition hex_char :: "nat \<Rightarrow> char" where
  "hex_char d = (if d < 10 then char_of (48 + d) else char_of (87 + d))"

text \<open>
  The verb \<open>%q\<close>, exact on ASCII; bytes of printable code points beyond ASCII are kept, as
  Go keeps them.
\<close>

definition quote_byte :: "char \<Rightarrow> string" where
  "quote_byte c =
     (let n = (of_char c :: nat) in
      if c = CHR 0x22 \<or> c = CHR 0x5C then [CHR 0x5C, c]
      else if n = 7 then [CHR 0x5C, CHR ''a''] else if n = 8 then [CHR 0x5C, CHR ''b'']
      else if n = 12 then [CHR 0x5C, CHR ''f''] else if n = 10 then [CHR 0x5C, CHR ''n'']
      else if n = 13 then [CHR 0x5C, CHR ''r''] else if n = 9 then [CHR 0x5C, CHR ''t'']
      else if n = 11 then [CHR 0x5C, CHR ''v'']
      else if n < 32 \<or> n = 127 then [CHR 0x5C, CHR ''x'', hex_char (n div 16), hex_char (n mod 16)]
      else [c])"

definition Quote :: "string \<Rightarrow> string" where
  "Quote s = [CHR 0x22] @ concat (map quote_byte s) @ [CHR 0x22]"

section \<open>Variables in strings\<close>

text \<open>
  \<open>os.Expand\<close>: \<open>$name\<close> and \<open>${name}\<close> are replaced by what the mapping gives for the
  name; a dollar sign that no name follows stays, and malformed braces are dropped.
  \<open>getShellName\<close> returns the name and the number of bytes it takes up.
\<close>

definition isShellSpecialVar :: "char \<Rightarrow> bool" where
  "isShellSpecialVar c \<longleftrightarrow> c \<in> set ''*#$@!?-0123456789''"

definition isAlphaNum :: "char \<Rightarrow> bool" where
  "isAlphaNum c \<longleftrightarrow> c = CHR ''_'' \<or> is_digit c \<or>
     (97 \<le> (of_char c :: nat) \<and> (of_char c :: nat) \<le> 122) \<or>
     (65 \<le> (of_char c :: nat) \<and> (of_char c :: nat) \<le> 90)"

definition getShellName :: "string \<Rightarrow> string \<times> nat" where
  "getShellName s =
     (if hd s = CHR ''{'' then
        (if 2 < length s \<and> isShellSpecialVar (s ! 1) \<and> s ! 2 = CHR ''}'' then ([s ! 1], 3)
         else (case IndexByte (tl s) (CHR ''}'') of
                 None \<Rightarrow> ([], 1)
               | Some 0 \<Rightarrow> ([], 2)
               | Some (Suc i) \<Rightarrow> (take (Suc i) (tl s), i + 3)))
      else if isShellSpecialVar (hd s) then ([hd s], 1)
      else (takeWhile isAlphaNum s, length (takeWhile isAlphaNum s)))"

function Expand :: "(string \<Rightarrow> string) \<Rightarrow> string \<Rightarrow> string" where
  "Expand mapping [] = []"
| "Expand mapping (c # cs) =
     (if c = CHR ''$'' \<and> cs \<noteq> [] then
        (let (name, w) = getShellName cs in
         (if name = [] \<and> 0 < w then [] else if name = [] then [c] else mapping name) @
         Expand mapping (drop w cs))
      else c # Expand mapping cs)"
  by pat_completeness auto
termination
  by (relation "measure (length \<circ> snd)") auto

lemma Expand_no_dollar: "CHR ''$'' \<notin> set s \<Longrightarrow> Expand mapping s = s"
  by (induction s) auto

lemma Expand_append_no_dollar:
  "CHR ''$'' \<notin> set s \<Longrightarrow> Expand mapping (s @ t) = s @ Expand mapping t"
  by (induction s) auto

text \<open>A name in braces: not empty, without a closing brace, and not starting like a special one.\<close>

lemma Expand_braces:
  assumes "k \<noteq> []" "CHR ''}'' \<notin> set k" "\<not> isShellSpecialVar (hd k)"
  shows "Expand mapping (''${'' @ k @ CHR ''}'' # t) = mapping k @ Expand mapping t"
proof -
  from assms(1) obtain c cs where k: "k = c # cs" by (cases k) auto
  have "IndexByte (k @ CHR ''}'' # t) (CHR ''}'') = Some (length k)"
    using assms(2) by (rule IndexByte_append)
  then have "getShellName (CHR ''{'' # k @ CHR ''}'' # t) = (k, length k + 2)"
    using assms(3) by (simp add: getShellName_def k)
  then show ?thesis using assms(1) by simp
qed

end
