(* ===== verification/GoErrors.thy ===== *)
theory GoErrors
  imports GoStrings
begin

text \<open>
  Go error values.  A sentinel is one of the package variables the code compares against with
  \<open>errors.Is\<close>; \<open>Wrapf p e\<close> is \<open>fmt.Errorf("p: %w", e)\<close>, whose text is the prefix, a
  colon, a blank and the text of the wrapped error; \<open>Joined\<close> is \<open>errors.Join\<close>.  Errors
  of libraries the code only passes on are \<open>ErrMsg\<close> with their text.
\<close>

datatype sentinel =
    Canceled | DeadlineExceeded          \<comment> \<open>context\<close>
  | ErrNotAcquired                       \<comment> \<open>pkg/lock\<close>
  | ErrLocked | ErrLockReleased          \<comment> \<open>etcd concurrency\<close>
  | ErrNotExist                          \<comment> \<open>os\<close>
  | ErrServerClosed                      \<comment> \<open>net/http\<close>

datatype go_error =
    Sentinel sentinel
  | ErrMsg string
  | ExitError int
  | ValidationError "string list"
  | EvaluationError "string list"
  | Wrapf string go_error
  | Joined "go_error list"

fun sentinel_text :: "sentinel \<Rightarrow> string" where
  "sentinel_text Canceled = ''context canceled''"
| "sentinel_text DeadlineExceeded = ''context deadline exceeded''"
| "sentinel_text ErrNotAcquired = ''lock: not acquired''"
| "sentinel_text ErrLocked = ''mutex: Locked by another session''"
| "sentinel_text ErrLockReleased = ''mutex: lock has already been released''"
| "sentinel_text ErrNotExist = ''file does not exist''"
| "sentinel_text ErrServerClosed = ''http: Server closed''"

fun error_text :: "go_error \<Rightarrow> string" where
  "error_text (Sentinel s) = sentinel_text s"
| "error_text (ErrMsg m) = m"
| "error_text (ExitError n) = ''exit status '' @ Itoa n"
| "error_text (ValidationError ps) = ''invalid configuration: '' @ Join ps ''; ''"
| "error_text (EvaluationError ps) = ''detector evaluation failed: '' @ Join ps ''; ''"
| "error_text (Wrapf p e) = p @ '': '' @ error_text e"
| "error_text (Joined es) = Join (map error_text es) [CHR 0x0A]"

text \<open>\<open>errors.Is(err, target)\<close> for a sentinel target: a walk of the wrapping tree.\<close>

fun errors_Is :: "go_error \<Rightarrow> sentinel \<Rightarrow> bool" where
  "errors_Is (Sentinel s) t = (s = t)"
| "errors_Is (ErrMsg m) t = False"
| "errors_Is (ExitError n) t = False"
| "errors_Is (ValidationError ps) t = False"
| "errors_Is (EvaluationError ps) t = False"
| "errors_Is (Wrapf p e) t = errors_Is e t"
| "errors_Is (Joined es) t = list_ex (\<lambda>e. errors_Is e t) es"

text \<open>The test the code writes in many places: the context was cancelled or timed out.\<close>

definition is_context_error :: "go_error \<Rightarrow> bool" where
  "is_context_error e \<longleftrightarrow> errors_Is e Canceled \<or> errors_Is e DeadlineExceeded"

lemma is_context_error_simps [simp]:
  "is_context_error (Sentinel s) \<longleftrightarrow> s = Canceled \<or> s = DeadlineExceeded"
  "\<not> is_context_error (ErrMsg m)"
  "is_context_error (Wrapf p e) = is_context_error e"
  "is_context_error (Joined es) = list_ex is_context_error es"
  by (auto simp: is_context_error_def list_ex_iff)

text \<open>Pass a context error through, wrap any other: the error idiom of the etcd clients.\<close>

definition wrap_unless_context :: "string \<Rightarrow> go_error \<Rightarrow> go_error" where
  "wrap_unless_context p e = (if is_context_error e then e else Wrapf p e)"

lemma is_context_error_wrap_unless [simp]:
  "is_context_error (wrap_unless_context p e) = is_context_error e"
  by (simp add: wrap_unless_context_def)

lemma errors_Is_wrap_unless [simp]:
  "errors_Is (wrap_unless_context p e) t = errors_Is e t"
  by (simp add: wrap_unless_context_def)

end
