(* ===== verification/GoTime.thy ===== *)
theory GoTime
  imports GoStrings "HOL-Library.Signed_Division"
begin

text \<open>
  Go's \<open>time.Duration\<close> and \<open>time.Time\<close>.  A duration is a signed 64-bit number of
  nanoseconds whose arithmetic wraps.  A time is its nanoseconds since the zero time (midnight UTC,
  1 January of the year 1) and the offset of its location at that instant, in seconds.
\<close>

section \<open>Durations\<close>

type_synonym duration = int64

definition Nanosecond :: duration where "Nanosecond = 1"
definition Microsecond :: duration where "Microsecond = 1000"
definition Millisecond :: duration where "Millisecond = 1000000"
definition Second :: duration where "Second = 1000000000"
definition Minute :: duration where "Minute = 60000000000"

text \<open>\<open>time.Duration(n) * time.Second\<close>, a product that wraps.\<close>

definition seconds :: "int \<Rightarrow> duration" where
  "seconds n = word_of_int n * Second"

text \<open>\<open>d.Milliseconds()\<close>: integer division, which truncates towards zero.\<close>

definition Milliseconds :: "duration \<Rightarrow> int" where
  "Milliseconds d = sint d sdiv 1000000"

lemma sint_Second [simp]: "sint Second = 1000000000"
  by (simp add: Second_def)

lemma sint_seconds [duration_simps]:
  assumes "in_int64 n" "in_int64 (n * 1000000000)"
  shows "sint (seconds n) = n * 1000000000"
  using assms sint_times_int64 [of "word_of_int n" Second]
  by (simp add: seconds_def sint_of_int_int64)

text \<open>Whole seconds up to 292 years are exact; \<open>9223372036\<close> is the last such number.\<close>

lemma sint_seconds_bounded:
  assumes "0 \<le> n" "n \<le> 9223372036"
  shows "sint (seconds n) = n * 1000000000"
  by (rule sint_seconds) (use assms in \<open>auto simp: in_int64_def\<close>)

subsection \<open>Printing a duration\<close>

fun pad_left :: "nat \<Rightarrow> string \<Rightarrow> string" where
  "pad_left n s = replicate (n - length s) (CHR ''0'') @ s"

text \<open>The fraction of \<open>v / 10 ^ prec\<close> without trailing zeros, and nothing when it is zero.\<close>

definition frac_digits :: "nat \<Rightarrow> nat \<Rightarrow> string" where
  "frac_digits v prec =
     (let ds = TrimRightByte (CHR ''0'') (pad_left prec (show_nat (v mod 10 ^ prec))) in
      if v mod 10 ^ prec = 0 then [] else CHR ''.'' # ds)"

definition DurationString :: "duration \<Rightarrow> string" where
  "DurationString d =
     (let u = nat \<bar>sint d\<bar>; sign = (if sint d < 0 then ''-'' else []) in
      if u = 0 then ''0s''
      else if u < 1000 then sign @ show_nat u @ ''ns''
      else if u < 1000000 then sign @ show_nat (u div 1000) @ frac_digits u 3 @ [CHR 0xC2, CHR 0xB5] @ ''s''
      else if u < 1000000000 then sign @ show_nat (u div 1000000) @ frac_digits u 6 @ ''ms''
      else
        (let s = u div 1000000000; frac = frac_digits u 9; m = s div 60; h = m div 60 in
         if m = 0 then sign @ show_nat s @ frac @ ''s''
         else if h = 0 then sign @ show_nat m @ ''m'' @ show_nat (s mod 60) @ frac @ ''s''
         else sign @ show_nat h @ ''h'' @ show_nat (m mod 60) @ ''m'' @ show_nat (s mod 60) @ frac @ ''s''))"

section \<open>Times\<close>

record gotime =
  t_ns :: int
  t_offset :: int

definition zero_time :: gotime where
  "zero_time = \<lparr>t_ns = 0, t_offset = 0\<rparr>"

definition IsZero :: "gotime \<Rightarrow> bool" where
  "IsZero t \<longleftrightarrow> t_ns t = 0"

definition time_Equal :: "gotime \<Rightarrow> gotime \<Rightarrow> bool" where
  "time_Equal a b \<longleftrightarrow> t_ns a = t_ns b"

text \<open>\<open>a.Sub(b)\<close>: the difference, saturated at the ends of the range.\<close>

definition saturate :: "int \<Rightarrow> duration" where
  "saturate i = word_of_int (max (- (2 ^ 63)) (min max_int64 i))"

definition time_Sub :: "gotime \<Rightarrow> gotime \<Rightarrow> duration" where
  "time_Sub a b = saturate (t_ns a - t_ns b)"

definition time_Add :: "gotime \<Rightarrow> duration \<Rightarrow> gotime" where
  "time_Add t d = t\<lparr>t_ns := t_ns t + sint d\<rparr>"

subsection \<open>Calendar fields\<close>

definition local_seconds :: "gotime \<Rightarrow> int" where
  "local_seconds t = t_ns t div 1000000000 + t_offset t"

text \<open>Weekdays count from Sunday, and 1 January of the year 1 is a Monday.\<close>

definition Weekday :: "gotime \<Rightarrow> int" where
  "Weekday t = (local_seconds t div 86400 + 1) mod 7"

definition time_Hour :: "gotime \<Rightarrow> int" where
  "time_Hour t = local_seconds t mod 86400 div 3600"

definition time_Minute :: "gotime \<Rightarrow> int" where
  "time_Minute t = local_seconds t mod 3600 div 60"

definition time_Second :: "gotime \<Rightarrow> int" where
  "time_Second t = local_seconds t mod 60"

text \<open>
  \<open>t.UTC().Format(time.RFC3339Nano)\<close>.  The date of a day number is computed from years that
  start on 1 March, so that a leap day is the last of its year: cycles of 400 years, then of 100, of 4
  and single years, where the last day of a long cycle would be counted as one more short cycle.
\<close>

definition short_cycles :: "int \<Rightarrow> int \<Rightarrow> int" where
  "short_cycles len d = d div len - d div len div 4"

definition year_of_era :: "int \<Rightarrow> int \<times> int" where
  "year_of_era doe =
     (let c = short_cycles 36524 doe; r1 = doe - 36524 * c;
          q = r1 div 1461; r2 = r1 - 1461 * q;
          e = short_cycles 365 r2
      in (100 * c + 4 * q + e, r2 - 365 * e))"

definition civil_date :: "int \<Rightarrow> int \<times> int \<times> int" where
  "civil_date days =
     (let z = days + 306; era = z div 146097; (yoe, doy) = year_of_era (z mod 146097);
          mp = (5 * doy + 2) div 153;
          d = doy - (153 * mp + 2) div 5 + 1;
          m = (if mp < 10 then mp + 3 else mp - 9);
          y = yoe + era * 400 + (if m \<le> 2 then 1 else 0)
      in (y, m, d))"

definition pad_int :: "nat \<Rightarrow> int \<Rightarrow> string" where
  "pad_int n i = pad_left n (show_nat (nat i))"

definition format_RFC3339Nano :: "gotime \<Rightarrow> string" where
  "format_RFC3339Nano t =
     (let secs = t_ns t div 1000000000; ns = t_ns t mod 1000000000;
          (y, m, d) = civil_date (secs div 86400); s = secs mod 86400 in
      pad_int 4 y @ ''-'' @ pad_int 2 m @ ''-'' @ pad_int 2 d @ ''T'' @
      pad_int 2 (s div 3600) @ '':'' @ pad_int 2 (s mod 3600 div 60) @ '':'' @ pad_int 2 (s mod 60) @
      frac_digits (nat ns) 9 @ ''Z'')"

lemma Weekday_range: "0 \<le> Weekday t" "Weekday t < 7"
  by (simp_all add: Weekday_def)

end
