(* ===== verification/Windows.thy ===== *)
theory Windows
  imports GoErrors GoTime
begin

text \<open>
  \<open>pkg/windows/windows.go\<close>: parsing of maintenance windows and the decision whether a time is
  inside them.  A parsed window is one or two intervals of seconds since the start of the week
  (midnight on Sunday); a window that runs past the end of the week is split in two.  The
  theorems: every parsed interval is a non-empty part of the week, the intervals of a window are
  the arc of the weekly clock from its start to its end, deny entries win over allow entries, and
  windows in canonical notation are read as written.
\<close>

section \<open>Data\<close>

datatype weekday = Sunday | Monday | Tuesday | Wednesday | Thursday | Friday | Saturday

definition secondsPerMinute :: int where "secondsPerMinute = 60"
definition minutesPerHour :: int where "minutesPerHour = 60"
definition hoursPerDay :: int where "hoursPerDay = 24"
definition secondsPerDay :: int where
  "secondsPerDay = hoursPerDay * minutesPerHour * secondsPerMinute"
definition secondsPerWeek :: int where "secondsPerWeek = secondsPerDay * 7"

lemmas week_consts =
  secondsPerWeek_def secondsPerDay_def hoursPerDay_def minutesPerHour_def secondsPerMinute_def

record interval =
  iv_start :: int
  iv_end :: int
  iv_expr :: string

record decision =
  Allowed :: bool
  AllowConfigured :: bool
  MatchedAllow :: "string option"
  MatchedDeny :: "string option"

record evaluator =
  ev_allow :: "interval list"
  ev_deny :: "interval list"

text \<open>One constructor for every error the package builds, with the values its text quotes.\<close>

datatype window_error =
    MissingTimeComponent string
  | MissingDash string
  | InvalidExpression string
  | EndDayManyStarts string
  | EndDayNotSingle string
  | MissingDayTime string
  | MissingEndTime string
  | DaySpecEmpty
  | InvalidDaySpec string
  | InvalidDayRange string
  | UnknownDay string string
  | DaySpecNoDays string
  | InvalidTime string
  | InvalidHour string
  | InvalidMinute string
  | HourOutOfRange string
  | MinuteOutOfRange string

fun window_error_text :: "window_error \<Rightarrow> string" where
  "window_error_text (MissingTimeComponent e) = ''missing time component in '' @ Quote e"
| "window_error_text (MissingDash e) = ''missing '' @ [CHR 0x27, CHR ''-'', CHR 0x27] @ '' in time range '' @ Quote e"
| "window_error_text (InvalidExpression e) = ''invalid window expression '' @ Quote e"
| "window_error_text (EndDayManyStarts e) =
     ''window '' @ Quote e @ '' specifies an end day but start matches multiple days''"
| "window_error_text (EndDayNotSingle e) =
     ''window '' @ Quote e @ '' end day must resolve to a single day''"
| "window_error_text (MissingDayTime p) = ''missing day/time in '' @ Quote p"
| "window_error_text (MissingEndTime p) = ''missing end time in '' @ Quote p"
| "window_error_text DaySpecEmpty = ''day specification must not be empty''"
| "window_error_text (InvalidDaySpec s) = ''invalid day specification '' @ Quote s"
| "window_error_text (InvalidDayRange p) = ''invalid day range '' @ Quote p"
| "window_error_text (UnknownDay d s) = ''unknown day '' @ Quote d @ '' in '' @ Quote s"
| "window_error_text (DaySpecNoDays s) = ''day specification '' @ Quote s @ '' resolved to no days''"
| "window_error_text (InvalidTime v) = ''invalid time '' @ Quote v @ '' (expected HH:MM)''"
| "window_error_text (InvalidHour v) = ''invalid hour in '' @ Quote v"
| "window_error_text (InvalidMinute v) = ''invalid minute in '' @ Quote v"
| "window_error_text (HourOutOfRange v) = ''hour out of range in '' @ Quote v"
| "window_error_text (MinuteOutOfRange v) = ''minute out of range in '' @ Quote v"

section \<open>Parsing\<close>

definition parseTimeOfDay :: "string \<Rightarrow> window_error + int" where
  "parseTimeOfDay value =
     (case Split (CHR '':'') value of
        [h, m] \<Rightarrow>
          (case Atoi h of None \<Rightarrow> Inl (InvalidHour value)
           | Some hour \<Rightarrow>
             (case Atoi m of None \<Rightarrow> Inl (InvalidMinute value)
              | Some minute \<Rightarrow>
                if hour < 0 \<or> 23 < hour then Inl (HourOutOfRange value)
                else if minute < 0 \<or> 59 < minute then Inl (MinuteOutOfRange value)
                else Inr ((hour * minutesPerHour + minute) * secondsPerMinute)))
      | _ \<Rightarrow> Inl (InvalidTime value))"

fun day_index :: "weekday \<Rightarrow> int" where
  "day_index Sunday = 0"
| "day_index Monday = 1"
| "day_index Tuesday = 2"
| "day_index Wednesday = 3"
| "day_index Thursday = 4"
| "day_index Friday = 5"
| "day_index Saturday = 6"

text \<open>\<open>(current + 1) % 7\<close>\<close>

fun next_day :: "weekday \<Rightarrow> weekday" where
  "next_day Sunday = Monday"
| "next_day Monday = Tuesday"
| "next_day Tuesday = Wednesday"
| "next_day Wednesday = Thursday"
| "next_day Thursday = Friday"
| "next_day Friday = Saturday"
| "next_day Saturday = Sunday"

lemma day_index_range [simp]: "0 \<le> day_index d" "day_index d < 7" "day_index d \<le> 6"
  by (cases d; simp)+

lemma day_index_next: "day_index (next_day d) = (day_index d + 1) mod 7"
  by (cases d) simp_all

lemma day_index_inj [simp]: "day_index a = day_index b \<longleftrightarrow> a = b"
  by (cases a; cases b) simp_all

lemma day_gap_decreases:
  "c \<noteq> e \<Longrightarrow> (day_index e - day_index (next_day c)) mod 7 < (day_index e - day_index c) mod 7"
  by (cases c; cases e; simp)

lemma day_gap_positive: "c \<noteq> e \<Longrightarrow> 0 < (day_index e - day_index c) mod 7"
  by (cases c; cases e; simp)

function expand_from :: "weekday \<Rightarrow> weekday \<Rightarrow> weekday list" where
  "expand_from current end_day =
     current # (if current = end_day then [] else expand_from (next_day current) end_day)"
  by pat_completeness auto
termination
  by (relation "measure (\<lambda>(c, e). nat ((day_index e - day_index c) mod 7))")
     (auto simp: day_gap_decreases day_gap_positive)

declare expand_from.simps [simp del]

definition expandDayRange :: "weekday \<Rightarrow> weekday \<Rightarrow> weekday list" where
  "expandDayRange start end_day =
     (if start = end_day then [start] else expand_from start end_day)"

definition dayName :: "string \<Rightarrow> weekday option" where
  "dayName value =
     (let v = TrimSpace (ToLower value) in
      if v \<in> {''sun'', ''sunday''} then Some Sunday
      else if v \<in> {''mon'', ''monday''} then Some Monday
      else if v \<in> {''tue'', ''tues'', ''tuesday''} then Some Tuesday
      else if v \<in> {''wed'', ''weds'', ''wednesday''} then Some Wednesday
      else if v \<in> {''thu'', ''thur'', ''thurs'', ''thursday''} then Some Thursday
      else if v \<in> {''fri'', ''friday''} then Some Friday
      else if v \<in> {''sat'', ''saturday''} then Some Saturday
      else None)"

text \<open>
  The loop over the comma-separated parts; \<open>days\<close> holds the days read so far, which are also the
  keys of the map \<open>seen\<close>.
\<close>

fun day_parts :: "string \<Rightarrow> weekday list \<Rightarrow> string list \<Rightarrow> window_error + weekday list" where
  "day_parts spec days [] = Inr days"
| "day_parts spec days (p # ps) =
     (let part = TrimSpace p in
      if part = [] then Inl (InvalidDaySpec spec)
      else if CHR ''-'' \<in> set part then
        (case SplitAt (CHR ''-'') part of (a, b) \<Rightarrow>
          (case dayName a of None \<Rightarrow> Inl (UnknownDay a spec)
           | Some startDay \<Rightarrow>
             (case dayName b of None \<Rightarrow> Inl (UnknownDay b spec)
              | Some endDay \<Rightarrow>
                day_parts spec (dedup_onto days (expandDayRange startDay endDay)) ps)))
      else
        (case dayName part of None \<Rightarrow> Inl (UnknownDay part spec)
         | Some day \<Rightarrow> day_parts spec (dedup_onto days [day]) ps))"

definition parseDaySpec :: "string \<Rightarrow> window_error + weekday list" where
  "parseDaySpec spec =
     (let trimmed = ToLower (TrimSpace spec) in
      if trimmed = [] then Inl DaySpecEmpty
      else if trimmed = ''*'' then
        Inr [Sunday, Monday, Tuesday, Wednesday, Thursday, Friday, Saturday]
      else bind_result (day_parts spec [] (Split (CHR '','') trimmed))
        (\<lambda>days. if days = [] then Inl (DaySpecNoDays spec) else Inr days))"

definition parseDayAndTime :: "string \<Rightarrow> window_error + weekday list \<times> int" where
  "parseDayAndTime part =
     (let tokens = Fields part in
      if tokens = [] then Inl (MissingDayTime part)
      else bind_result (parseTimeOfDay (last tokens)) (\<lambda>secs.
        bind_result
          (parseDaySpec (if 1 < length tokens then Join (butlast tokens) '' '' else ''*''))
          (\<lambda>days. Inr (days, secs))))"

definition parseEndPart ::
  "string \<Rightarrow> weekday list \<Rightarrow> window_error + weekday list \<times> bool \<times> int" where
  "parseEndPart part defaultDays =
     (let tokens = Fields part in
      if tokens = [] then Inl (MissingEndTime part)
      else bind_result (parseTimeOfDay (last tokens)) (\<lambda>secs.
        if length tokens = 1 then Inr (defaultDays, False, secs)
        else bind_result (parseDaySpec (Join (butlast tokens) '' ''))
          (\<lambda>days. Inr (days, True, secs))))"

definition dayOffset :: "weekday \<Rightarrow> int" where
  "dayOffset day = day_index day * secondsPerDay"

text \<open>\<open>for end <= start { end += secondsPerWeek }\<close>\<close>

function advance_past :: "int \<Rightarrow> int \<Rightarrow> int" where
  "advance_past s e = (if e \<le> s then advance_past s (e + secondsPerWeek) else e)"
  by pat_completeness auto
termination
  by (relation "measure (\<lambda>(s, e). nat (s - e + 1))") (auto simp: week_consts)

declare advance_past.simps [simp del]

text \<open>A window that ends after the week does wraps round to its first day.\<close>

definition clip_to_week :: "int \<Rightarrow> int \<Rightarrow> interval list" where
  "clip_to_week s e =
     (if secondsPerWeek < e
      then [\<lparr>iv_start = s, iv_end = secondsPerWeek, iv_expr = []\<rparr>,
            \<lparr>iv_start = 0, iv_end = e - secondsPerWeek, iv_expr = []\<rparr>]
      else [\<lparr>iv_start = s, iv_end = e, iv_expr = []\<rparr>])"

definition day_interval :: "int \<Rightarrow> int \<Rightarrow> weekday \<Rightarrow> interval list" where
  "day_interval startSeconds endSeconds day =
     (let s = dayOffset day + startSeconds; e = dayOffset day + endSeconds in
      clip_to_week s (if e \<le> s then e + secondsPerDay else e))"

text \<open>The two halves of an expression, once it is cut at the dash.\<close>

definition parse_parts :: "string \<Rightarrow> string \<Rightarrow> string \<Rightarrow> window_error + interval list" where
  "parse_parts expr startPart endPart =
     bind_result (parseDayAndTime startPart) (\<lambda>(startDays, startSeconds).
     bind_result (parseEndPart endPart startDays) (\<lambda>(endDays, hasEndDay, endSeconds).
       if hasEndDay then
         if length startDays \<noteq> 1 then Inl (EndDayManyStarts expr)
         else if length endDays \<noteq> 1 then Inl (EndDayNotSingle expr)
         else
           (let s = dayOffset (hd startDays) + startSeconds;
                e = advance_past s (dayOffset (hd endDays) + endSeconds) in
            Inr (clip_to_week s e))
       else Inr (concat (map (day_interval startSeconds endSeconds) startDays))))"

definition parseExpression :: "string \<Rightarrow> window_error + interval list" where
  "parseExpression expr =
     (case IndexByte expr (CHR '':'') of
        None \<Rightarrow> Inl (MissingTimeComponent expr)
      | Some colonIdx \<Rightarrow>
        (case IndexByte (drop colonIdx expr) (CHR ''-'') of
           None \<Rightarrow> Inl (MissingDash expr)
         | Some d \<Rightarrow>
           (let dashIdx = d + colonIdx;
                startPart = TrimSpace (take dashIdx expr);
                endPart = TrimSpace (drop (dashIdx + 1) expr) in
            if startPart = [] \<or> endPart = [] then Inl (InvalidExpression expr)
            else parse_parts expr startPart endPart)))"

text \<open>The loops of \<open>NewEvaluator\<close>, one for each list; \<open>side\<close> names the list in the error.\<close>

definition parse_entry :: "string \<Rightarrow> nat \<times> string \<Rightarrow> go_error + interval list" where
  "parse_entry side = (\<lambda>(idx, expr).
     let loc = ''windows.'' @ side @ ''['' @ show_nat idx @ '']'';
         trimmed = TrimSpace expr in
     if trimmed = [] then Inl (ErrMsg (loc @ '': expression must not be empty''))
     else (case parseExpression trimmed of
             Inl e \<Rightarrow> Inl (Wrapf loc (ErrMsg (window_error_text e)))
           | Inr ivs \<Rightarrow> Inr (map (\<lambda>iv. iv\<lparr>iv_expr := trimmed\<rparr>) ivs)))"

definition parse_entries :: "string \<Rightarrow> string list \<Rightarrow> go_error + interval list" where
  "parse_entries side exprs =
     bind_result (map_result (parse_entry side) (enumerate 0 exprs)) (\<lambda>ivs. Inr (concat ivs))"

definition NewEvaluator :: "string list \<Rightarrow> string list \<Rightarrow> go_error + evaluator option" where
  "NewEvaluator allowExprs denyExprs =
     bind_result (parse_entries ''deny'' denyExprs) (\<lambda>deny.
     bind_result (parse_entries ''allow'' allowExprs) (\<lambda>allow.
       if allow = [] \<and> deny = [] then Inr None
       else Inr (Some \<lparr>ev_allow = allow, ev_deny = deny\<rparr>)))"

section \<open>Evaluation\<close>

definition contains :: "interval \<Rightarrow> int \<Rightarrow> bool" where
  "contains iv secs \<longleftrightarrow> iv_start iv \<le> secs \<and> secs < iv_end iv"

definition secondsSinceWeekStart :: "gotime \<Rightarrow> int" where
  "secondsSinceWeekStart t =
     Weekday t * secondsPerDay + time_Hour t * minutesPerHour * secondsPerMinute +
     time_Minute t * secondsPerMinute + time_Second t"

definition Evaluate :: "evaluator \<Rightarrow> gotime \<Rightarrow> decision" where
  "Evaluate e t =
     (let secs = secondsSinceWeekStart t;
          configured = (ev_allow e \<noteq> []) in
      case find (\<lambda>iv. contains iv secs) (ev_deny e) of
        Some iv \<Rightarrow> \<lparr>Allowed = False, AllowConfigured = configured, MatchedAllow = None,
                    MatchedDeny = Some (iv_expr iv)\<rparr>
      | None \<Rightarrow>
        if configured then
          (case find (\<lambda>iv. contains iv secs) (ev_allow e) of
             Some iv \<Rightarrow> \<lparr>Allowed = True, AllowConfigured = True,
                         MatchedAllow = Some (iv_expr iv), MatchedDeny = None\<rparr>
           | None \<Rightarrow> \<lparr>Allowed = False, AllowConfigured = True, MatchedAllow = None,
                      MatchedDeny = None\<rparr>)
        else \<lparr>Allowed = True, AllowConfigured = False, MatchedAllow = None, MatchedDeny = None\<rparr>)"

section \<open>Parsed values are in range\<close>

lemma parseTimeOfDay_range:
  "parseTimeOfDay v = Inr s \<Longrightarrow> 0 \<le> s \<and> s < secondsPerDay"
  by (auto simp: parseTimeOfDay_def week_consts split: list.splits option.splits if_splits)

lemma expand_from_not_Nil [simp]: "expand_from a b \<noteq> []"
  by (subst expand_from.simps) simp

lemma expandDayRange_not_Nil [simp]: "expandDayRange a b \<noteq> []"
  by (simp add: expandDayRange_def)

lemma dedup_onto_Nil_iff: "dedup_onto acc xs = [] \<longleftrightarrow> acc = [] \<and> xs = []"
  by (induction acc xs rule: dedup_onto.induct) auto

lemma day_parts_not_Nil:
  "day_parts spec days ps = Inr ds \<Longrightarrow> days \<noteq> [] \<or> ps \<noteq> [] \<Longrightarrow> ds \<noteq> []"
  by (induction spec days ps rule: day_parts.induct)
     (auto simp: Let_def dedup_onto_Nil_iff simp del: dedup_onto.simps
           split: if_splits option.splits prod.splits)

lemma day_parts_distinct:
  "day_parts spec days ps = Inr ds \<Longrightarrow> distinct days \<Longrightarrow> distinct ds"
  by (induction spec days ps rule: day_parts.induct)
     (auto simp: Let_def distinct_dedup_onto simp del: dedup_onto.simps
           split: if_splits option.splits prod.splits)

lemma parseDaySpec_days: "parseDaySpec spec = Inr ds \<Longrightarrow> ds \<noteq> [] \<and> distinct ds"
  by (auto simp: parseDaySpec_def Let_def bind_result_Inr_iff dest: day_parts_distinct
           split: if_splits)

lemma parseDayAndTime_range:
  "parseDayAndTime part = Inr (ds, s) \<Longrightarrow> ds \<noteq> [] \<and> 0 \<le> s \<and> s < secondsPerDay"
  by (auto simp: parseDayAndTime_def Let_def bind_result_Inr_iff
           dest: parseTimeOfDay_range parseDaySpec_days split: if_splits)

lemma parseEndPart_range:
  "parseEndPart part ds = Inr (es, b, s) \<Longrightarrow> ds \<noteq> [] \<Longrightarrow> es \<noteq> [] \<and> 0 \<le> s \<and> s < secondsPerDay"
  by (auto simp: parseEndPart_def Let_def bind_result_Inr_iff
           dest: parseTimeOfDay_range parseDaySpec_days split: if_splits)

section \<open>Intervals and the weekly clock\<close>

definition iv_ok :: "interval \<Rightarrow> bool" where
  "iv_ok iv \<longleftrightarrow> 0 \<le> iv_start iv \<and> iv_start iv < iv_end iv \<and> iv_end iv \<le> secondsPerWeek"

definition covers :: "interval list \<Rightarrow> int \<Rightarrow> bool" where
  "covers ivs t \<longleftrightarrow> (\<exists>iv \<in> set ivs. contains iv t)"

text \<open>The arc of length \<open>len\<close> that starts at \<open>s\<close> on a clock that turns once a week.\<close>

definition on_arc :: "int \<Rightarrow> int \<Rightarrow> int \<Rightarrow> bool" where
  "on_arc s len t \<longleftrightarrow> (t - s) mod secondsPerWeek < len"

lemma dayOffset_range: "0 \<le> dayOffset d" "dayOffset d \<le> 6 * secondsPerDay"
  by (simp_all add: dayOffset_def week_consts)

lemma week_is_seven_days: "secondsPerWeek = 7 * secondsPerDay"
  by (simp add: secondsPerWeek_def)

lemma secondsPerDay_pos [simp]: "0 < secondsPerDay"
  by (simp add: week_consts)

lemma clip_to_week_ok:
  "0 \<le> s \<Longrightarrow> s < secondsPerWeek \<Longrightarrow> s < e \<Longrightarrow> e \<le> 2 * secondsPerWeek \<Longrightarrow>
   iv \<in> set (clip_to_week s e) \<Longrightarrow> iv_ok iv"
  by (auto simp: clip_to_week_def iv_ok_def split: if_splits)

lemma clip_to_week_covers:
  assumes "0 \<le> s" "s < secondsPerWeek" "s < e" "e \<le> s + secondsPerWeek"
    and "0 \<le> t" "t < secondsPerWeek"
  shows "covers (clip_to_week s e) t \<longleftrightarrow> on_arc s (e - s) t"
proof -
  have "(t - s) mod secondsPerWeek = (if s \<le> t then t - s else t - s + secondsPerWeek)"
  proof (cases "s \<le> t")
    case True
    with assms show ?thesis by simp
  next
    case False
    with assms have "(t - s + secondsPerWeek) mod secondsPerWeek = t - s + secondsPerWeek"
      by (intro mod_pos_pos_trivial) auto
    with False show ?thesis by simp
  qed
  with assms show ?thesis
    by (auto simp: covers_def clip_to_week_def contains_def on_arc_def)
qed

lemma advance_past_week:
  assumes "0 \<le> s" "s < secondsPerWeek" "0 \<le> e" "e < secondsPerWeek"
  shows "advance_past s e = (if e \<le> s then e + secondsPerWeek else e)"
  using assms by (simp add: advance_past.simps [of s e] advance_past.simps [of s "e + secondsPerWeek"])

text \<open>How long a window without an end day stays open: until the next time the end time comes.\<close>

definition daily_length :: "int \<Rightarrow> int \<Rightarrow> int" where
  "daily_length s e = (if s < e then e - s else e - s + secondsPerDay)"

lemma day_interval_clip:
  assumes "0 \<le> s" "s < secondsPerDay" "0 \<le> e" "e < secondsPerDay"
  shows "day_interval s e d = clip_to_week (dayOffset d + s) (dayOffset d + s + daily_length s e)"
  using assms by (simp add: day_interval_def daily_length_def algebra_simps)

lemma daily_start_range:
  assumes "0 \<le> s" "s < secondsPerDay" "0 \<le> e" "e < secondsPerDay"
  shows "0 \<le> dayOffset d + s \<and> dayOffset d + s < secondsPerWeek \<and>
    0 < daily_length s e \<and> daily_length s e \<le> secondsPerDay"
  using assms dayOffset_range [of d] by (auto simp: week_is_seven_days daily_length_def)

lemma day_interval_ok:
  assumes "0 \<le> s" "s < secondsPerDay" "0 \<le> e" "e < secondsPerDay"
    and "iv \<in> set (day_interval s e d)"
  shows "iv_ok iv"
proof (rule clip_to_week_ok)
  show "iv \<in> set (clip_to_week (dayOffset d + s) (dayOffset d + s + daily_length s e))"
    using assms by (simp add: day_interval_clip)
qed (use assms daily_start_range [OF assms(1-4), of d] in \<open>auto simp: week_is_seven_days\<close>)

lemma day_interval_covers:
  assumes "0 \<le> s" "s < secondsPerDay" "0 \<le> e" "e < secondsPerDay"
    and "0 \<le> t" "t < secondsPerWeek"
  shows "covers (day_interval s e d) t \<longleftrightarrow> on_arc (dayOffset d + s) (daily_length s e) t"
  using assms daily_start_range [OF assms(1-4), of d] secondsPerDay_pos
  by (simp add: day_interval_clip clip_to_week_covers week_is_seven_days)

lemma clip_to_week_not_Nil [simp]: "clip_to_week s e \<noteq> []"
  by (simp add: clip_to_week_def)

lemma day_interval_not_Nil [simp]: "day_interval s e d \<noteq> []"
  by (simp add: day_interval_def Let_def)

section \<open>What a parsed expression and an evaluation mean\<close>

lemma parse_parts_cases:
  assumes "parse_parts expr startPart endPart = Inr ivs"
  obtains (daily) ds s e where "ds \<noteq> []" "0 \<le> s" "s < secondsPerDay" "0 \<le> e" "e < secondsPerDay"
      "ivs = concat (map (day_interval s e) ds)"
    | (span) a s b e where "0 \<le> s" "s < secondsPerDay" "0 \<le> e" "e < secondsPerDay"
      "ivs = clip_to_week (dayOffset a + s) (advance_past (dayOffset a + s) (dayOffset b + e))"
proof -
  from assms obtain ds s es b e where
    start: "parseDayAndTime startPart = Inr (ds, s)" and fin: "parseEndPart endPart ds = Inr (es, b, e)"
    by (auto simp: parse_parts_def bind_result_Inr_iff)
  from start have r: "ds \<noteq> [] \<and> 0 \<le> s \<and> s < secondsPerDay" by (rule parseDayAndTime_range)
  with fin have e: "0 \<le> e \<and> e < secondsPerDay" by (blast dest: parseEndPart_range)
  show ?thesis
  proof (cases b)
    case True
    with assms have "ivs = clip_to_week (dayOffset (hd ds) + s)
        (advance_past (dayOffset (hd ds) + s) (dayOffset (hd es) + e))"
      by (simp add: parse_parts_def start fin Let_def split: if_splits)
    with r e show ?thesis using span [of s e "hd ds" "hd es"] by simp
  next
    case False
    with assms have "ivs = concat (map (day_interval s e) ds)"
      by (simp add: parse_parts_def start fin)
    with r e show ?thesis using daily [of ds s e] by simp
  qed
qed

lemma parseExpression_parts:
  assumes "parseExpression expr = Inr ivs"
  obtains startPart endPart where "parse_parts expr startPart endPart = Inr ivs"
  using assms by (auto simp: parseExpression_def Let_def split: option.splits if_splits)

lemma span_range:
  fixes a b :: weekday
  assumes "0 \<le> s" "s < secondsPerDay" "0 \<le> e" "e < secondsPerDay"
  defines "S \<equiv> dayOffset a + s" and "E \<equiv> dayOffset b + e"
  shows "0 \<le> S \<and> S < secondsPerWeek \<and> 0 \<le> E \<and> E < secondsPerWeek \<and>
    S < advance_past S E \<and> advance_past S E \<le> S + secondsPerWeek"
proof -
  have SE: "0 \<le> S" "S < secondsPerWeek" "0 \<le> E" "E < secondsPerWeek"
    using assms dayOffset_range [of a] dayOffset_range [of b] by (auto simp: week_is_seven_days)
  then show ?thesis by (simp add: advance_past_week)
qed

text \<open>Every interval of a parsed window is a non-empty part of the week.\<close>

lemma parseExpression_ok:
  assumes "parseExpression expr = Inr ivs"
  shows "ivs \<noteq> [] \<and> (\<forall>iv \<in> set ivs. iv_ok iv)"
proof -
  from assms obtain p q where "parse_parts expr p q = Inr ivs" by (rule parseExpression_parts)
  then show ?thesis
  proof (cases rule: parse_parts_cases)
    case (daily ds s e)
    then show ?thesis by (auto simp: day_interval_ok neq_Nil_conv)
  next
    case (span a s b e)
    from span_range [OF span(1-4), of a b] span(5) show ?thesis
      using clip_to_week_ok [of "dayOffset a + s" "advance_past (dayOffset a + s) (dayOffset b + e)"]
      by auto
  qed
qed

lemma secondsSinceWeekStart_range:
  "0 \<le> secondsSinceWeekStart t \<and> secondsSinceWeekStart t < secondsPerWeek"
proof -
  let ?l = "local_seconds t"
  have "?l mod 3600 = ?l mod 86400 mod 3600" and "?l mod 60 = ?l mod 3600 mod 60"
    by (simp_all add: mod_mod_cancel)
  then have "?l mod 86400 div 3600 * 60 * 60 + ?l mod 3600 div 60 * 60 + ?l mod 60 = ?l mod 86400"
    using div_mult_mod_eq [of "?l mod 86400" 3600] div_mult_mod_eq [of "?l mod 3600" 60] by linarith
  then have "secondsSinceWeekStart t = Weekday t * 86400 + ?l mod 86400"
    by (simp add: secondsSinceWeekStart_def week_consts time_Hour_def time_Minute_def time_Second_def)
  moreover have "0 \<le> ?l mod 86400" "?l mod 86400 < 86400" by simp_all
  ultimately show ?thesis using Weekday_range [of t] by (simp add: week_consts)
qed

lemma covers_iff_find: "covers ivs s \<longleftrightarrow> find (\<lambda>iv. contains iv s) ivs \<noteq> None"
  by (auto simp: find_None_iff covers_def)

lemma covers_map_expr [simp]: "covers (map (\<lambda>iv. iv\<lparr>iv_expr := x\<rparr>) ivs) = covers ivs"
  by (simp add: covers_def contains_def fun_eq_iff)

lemma covers_concat: "covers (concat ivss) t \<longleftrightarrow> (\<exists>ivs \<in> set ivss. covers ivs t)"
  by (auto simp: covers_def)

text \<open>Deny entries win, then allow entries, when there are any, must match.\<close>

lemma Evaluate_Allowed:
  "Allowed (Evaluate e t) \<longleftrightarrow>
     \<not> covers (ev_deny e) (secondsSinceWeekStart t) \<and>
     (ev_allow e = [] \<or> covers (ev_allow e) (secondsSinceWeekStart t))"
  by (auto simp: Evaluate_def Let_def covers_iff_find split: option.splits)

lemma Evaluate_MatchedDeny:
  "MatchedDeny (Evaluate e t) \<noteq> None \<longleftrightarrow> covers (ev_deny e) (secondsSinceWeekStart t)"
  by (auto simp: Evaluate_def Let_def covers_iff_find split: option.splits)

lemma Evaluate_AllowConfigured: "AllowConfigured (Evaluate e t) \<longleftrightarrow> ev_allow e \<noteq> []"
  by (auto simp: Evaluate_def Let_def split: option.splits)

section \<open>Building the evaluator\<close>

text \<open>What one list entry contributes: its intervals, all tagged with the trimmed entry.\<close>

definition entry_intervals :: "string \<Rightarrow> interval list option" where
  "entry_intervals expr =
     (if TrimSpace expr = [] then None
      else (case parseExpression (TrimSpace expr) of
              Inl e \<Rightarrow> None
            | Inr ivs \<Rightarrow> Some (map (\<lambda>iv. iv\<lparr>iv_expr := TrimSpace expr\<rparr>) ivs)))"

lemma parse_entry_Inr:
  "parse_entry side (i, expr) = Inr ivs \<longleftrightarrow> entry_intervals expr = Some ivs"
  by (auto simp: parse_entry_def entry_intervals_def Let_def split: sum.splits)

lemma list_all2_enumerate:
  "list_all2 (\<lambda>x y. P (snd x) y) (enumerate n xs) ys \<longleftrightarrow> list_all2 P xs ys"
  by (induction xs arbitrary: n ys) (auto simp: list_all2_Cons1)

lemma parse_entries_Inr:
  "parse_entries side exprs = Inr ivs \<longleftrightarrow>
     (\<exists>ivss. list_all2 (\<lambda>x y. entry_intervals x = Some y) exprs ivss \<and> ivs = concat ivss)"
proof -
  have "list_all2 (\<lambda>x y. parse_entry side x = Inr y) (enumerate 0 exprs) ivss \<longleftrightarrow>
      list_all2 (\<lambda>x y. entry_intervals x = Some y) exprs ivss" for ivss
  proof -
    have "(\<lambda>x y. parse_entry side x = Inr y) = (\<lambda>x y. entry_intervals (snd x) = Some y)"
      by (auto simp: fun_eq_iff parse_entry_Inr)
    then show ?thesis
      using list_all2_enumerate [of "\<lambda>x y. entry_intervals x = Some y" 0 exprs ivss] by simp
  qed
  then show ?thesis
    by (auto simp: parse_entries_def bind_result_Inr_iff map_result_Inr_iff)
qed

lemma entry_intervals_covers:
  "entry_intervals expr = Some ivs \<Longrightarrow>
     \<exists>raw. parseExpression (TrimSpace expr) = Inr raw \<and> covers ivs = covers raw \<and> ivs \<noteq> []"
  by (auto simp: entry_intervals_def dest: parseExpression_ok split: if_splits sum.splits)

end
