(* ===== verification/WindowNotation.thy ===== *)
theory WindowNotation
  imports Windows
begin

text \<open>
  An abstract description of maintenance windows, its canonical notation, and the proof that
  \<open>parseExpression\<close> reads the notation as it is meant: the intervals it returns cover exactly
  the seconds of the week the description names.
\<close>

section \<open>Windows, abstractly\<close>

datatype day_set = EveryDay | Days "weekday list" | DayRange weekday weekday

datatype window =
    Daily day_set "nat \<times> nat" "nat \<times> nat"
  | Span weekday "nat \<times> nat" weekday "nat \<times> nat"

fun days_of :: "day_set \<Rightarrow> weekday set" where
  "days_of EveryDay = UNIV"
| "days_of (Days ds) = set ds"
| "days_of (DayRange a b) =
     {d. (day_index d - day_index a) mod 7 \<le> (day_index b - day_index a) mod 7}"

fun clock_seconds :: "nat \<times> nat \<Rightarrow> int" where
  "clock_seconds (h, m) = int h * 3600 + int m * 60"

fun clock_ok :: "nat \<times> nat \<Rightarrow> bool" where
  "clock_ok (h, m) \<longleftrightarrow> h < 24 \<and> m < 60"

definition week_second :: "weekday \<Rightarrow> nat \<times> nat \<Rightarrow> int" where
  "week_second d hm = dayOffset d + clock_seconds hm"

text \<open>
  A daily window is open from its start time until the end time next comes, a window with an end
  day from one point of the week until the other next comes; equal points make it a whole day or a
  whole week.
\<close>

fun window_open :: "window \<Rightarrow> int \<Rightarrow> bool" where
  "window_open (Daily ds s e) t \<longleftrightarrow>
     (\<exists>d \<in> days_of ds. on_arc (week_second d s) (daily_length (clock_seconds s) (clock_seconds e)) t)"
| "window_open (Span a s b e) t \<longleftrightarrow>
     (let len = (week_second b e - week_second a s) mod secondsPerWeek in
      on_arc (week_second a s) (if len = 0 then secondsPerWeek else len) t)"

fun window_ok :: "window \<Rightarrow> bool" where
  "window_ok (Daily ds s e) \<longleftrightarrow> clock_ok s \<and> clock_ok e \<and> ds \<noteq> Days []"
| "window_ok (Span a s b e) \<longleftrightarrow> clock_ok s \<and> clock_ok e"

section \<open>Canonical notation\<close>

fun day_abbrev :: "weekday \<Rightarrow> string" where
  "day_abbrev Sunday = ''Sun''"
| "day_abbrev Monday = ''Mon''"
| "day_abbrev Tuesday = ''Tue''"
| "day_abbrev Wednesday = ''Wed''"
| "day_abbrev Thursday = ''Thu''"
| "day_abbrev Friday = ''Fri''"
| "day_abbrev Saturday = ''Sat''"

definition two_digits :: "nat \<Rightarrow> string" where
  "two_digits n = [digit_char (n div 10), digit_char (n mod 10)]"

fun show_clock :: "nat \<times> nat \<Rightarrow> string" where
  "show_clock (h, m) = two_digits h @ CHR '':'' # two_digits m"

fun show_days :: "day_set \<Rightarrow> string" where
  "show_days EveryDay = []"
| "show_days (Days ds) = Join (map day_abbrev ds) [CHR '','']"
| "show_days (DayRange a b) = day_abbrev a @ CHR ''-'' # day_abbrev b"

definition prefix_days :: "string \<Rightarrow> string" where
  "prefix_days ds = (if ds = [] then [] else ds @ '' '')"

fun show_window :: "window \<Rightarrow> string" where
  "show_window (Daily ds s e) = prefix_days (show_days ds) @ show_clock s @ CHR ''-'' # show_clock e"
| "show_window (Span a s b e) =
     prefix_days (day_abbrev a) @ show_clock s @ CHR ''-'' # prefix_days (day_abbrev b) @ show_clock e"

section \<open>Words of visible ASCII characters\<close>

definition visible :: "char \<Rightarrow> bool" where
  "visible c \<longleftrightarrow> 33 \<le> (of_char c :: nat) \<and> (of_char c :: nat) < 128"

lemma visible_plain: "visible c \<Longrightarrow> plain_byte c"
  by (auto simp: visible_def plain_byte_def space_encodings_def)

lemma is_digit_visible: "is_digit c \<Longrightarrow> visible c"
  by (simp add: is_digit_def visible_def)

lemma digit_not_separator: "is_digit c \<Longrightarrow> c \<notin> {CHR '':'', CHR ''-'', CHR '','', CHR '' ''}"
  by (auto simp: is_digit_def)

lemma visible_TrimSpace: "list_all visible s \<Longrightarrow> TrimSpace s = s"
  by (cases "s = []") (auto intro!: TrimSpace_plain_ends visible_plain simp: list_all_iff)

lemma visible_list_plain: "list_all visible s \<Longrightarrow> list_all plain_byte s"
  by (auto simp: list_all_iff visible_plain)

lemma Fields_word: "list_all visible w \<Longrightarrow> w \<noteq> [] \<Longrightarrow> Fields w = [w]"
  using fields_from_plain_word [of w "[]" "[]"] by (simp add: Fields_def visible_list_plain)

lemma Fields_two_words:
  assumes "list_all visible v" "v \<noteq> []" "list_all visible w" "w \<noteq> []"
  shows "Fields (v @ CHR '' '' # w) = [v, w]"
proof -
  have "fields_from [] (v @ CHR '' '' # w) = fields_from (rev v) (CHR '' '' # w)"
    using assms by (simp add: fields_from_plain_word visible_list_plain)
  also have "\<dots> = v # fields_from [] w" using assms by simp
  also have "fields_from [] w = [w]" using Fields_word [OF assms(3,4)] by (simp add: Fields_def)
  finally show ?thesis by (simp add: Fields_def)
qed

lemma TrimSpace_two_words:
  assumes "list_all visible v" "v \<noteq> []" "list_all visible w" "w \<noteq> []"
  shows "TrimSpace (v @ CHR '' '' # w) = v @ CHR '' '' # w"
  by (rule TrimSpace_plain_ends) (use assms in \<open>auto simp: list_all_iff visible_plain hd_append\<close>)

lemma ToLower_visible: "list_all visible s \<Longrightarrow> ToLower s = map lower_byte s"
proof (induction s)
  case Nil
  then show ?case by simp
next
  case (Cons c cs)
  then have "c \<noteq> CHR 0xC4" "c \<noteq> CHR 0xE2" by (auto simp: visible_def)
  with Cons show ?case by simp
qed

lemma visible_lower: "visible c \<Longrightarrow> visible (lower_byte c)"
  by (auto simp: visible_def lower_byte_def)

section \<open>Clock times and days are read back\<close>

lemma two_digits_facts:
  assumes "n < 100"
  shows "list_all is_digit (two_digits n)" "Atoi (two_digits n) = Some (int n)"
proof -
  have d: "n div 10 < 10" "n mod 10 < 10" using assms by auto
  then show digits: "list_all is_digit (two_digits n)" by (simp add: two_digits_def)
  have "digits_value (two_digits n) = n" using d by (simp add: two_digits_def digits_value_def)
  with digits assms show "Atoi (two_digits n) = Some (int n)"
    using Atoi_digits [of "two_digits n"] by (simp add: two_digits_def)
qed

lemma two_digits_no_sep:
  "n < 100 \<Longrightarrow> CHR '':'' \<notin> set (two_digits n) \<and> CHR ''-'' \<notin> set (two_digits n)"
  using two_digits_facts(1) [of n] by (auto simp: list_all_iff dest: digit_not_separator)

lemma two_digits_visible: "n < 100 \<Longrightarrow> list_all visible (two_digits n)"
  using two_digits_facts(1) [of n] by (auto simp: list_all_iff is_digit_visible)

lemma show_clock_visible: "clock_ok hm \<Longrightarrow> list_all visible (show_clock hm) \<and> show_clock hm \<noteq> []"
  by (cases hm) (auto simp: two_digits_visible visible_def)

lemma parseTimeOfDay_show:
  assumes "clock_ok hm"
  shows "parseTimeOfDay (show_clock hm) = Inr (clock_seconds hm)"
proof -
  obtain h m where hm: "hm = (h, m)" by (cases hm)
  with assms have b: "h < 24" "m < 60" by simp_all
  then have "Split (CHR '':'') (show_clock hm) = [two_digits h, two_digits m]"
    using two_digits_no_sep [of h] two_digits_no_sep [of m]
    by (simp add: hm Split_append Split_no_sep)
  with b show ?thesis
    by (simp add: hm parseTimeOfDay_def two_digits_facts week_consts algebra_simps)
qed

lemma clock_seconds_range: "clock_ok hm \<Longrightarrow> 0 \<le> clock_seconds hm \<and> clock_seconds hm < secondsPerDay"
  by (cases hm) (auto simp: week_consts)

definition lower_abbrev :: "weekday \<Rightarrow> string" where
  "lower_abbrev d = map lower_byte (day_abbrev d)"

lemma lower_abbrev_simps [simp]:
  "lower_abbrev Sunday = ''sun''" "lower_abbrev Monday = ''mon''" "lower_abbrev Tuesday = ''tue''"
  "lower_abbrev Wednesday = ''wed''" "lower_abbrev Thursday = ''thu''"
  "lower_abbrev Friday = ''fri''" "lower_abbrev Saturday = ''sat''"
  by code_simp+

lemma lower_abbrev_facts:
  "list_all visible (lower_abbrev d)" "lower_abbrev d \<noteq> []"
  "CHR '','' \<notin> set (lower_abbrev d)" "CHR ''-'' \<notin> set (lower_abbrev d)"
  by (cases d; simp add: visible_def)+

lemma day_abbrev_facts:
  "list_all visible (day_abbrev d)" "day_abbrev d \<noteq> []" "CHR '':'' \<notin> set (day_abbrev d)"
  by (cases d; simp add: visible_def)+

lemma dayName_lower [simp]: "dayName (lower_abbrev d) = Some d"
  by (cases d; simp only: lower_abbrev_simps; code_simp)

section \<open>Day specifications are read back\<close>

lemma day_gap_zero:
  "(day_index d - day_index b) mod 7 \<le> (day_index b - day_index b) mod 7 \<longleftrightarrow> d = b"
  by (cases d; cases b; simp)

lemma day_gap_step:
  "a \<noteq> b \<Longrightarrow>
     d = a \<or> (day_index d - day_index (next_day a)) mod 7 \<le> (day_index b - day_index (next_day a)) mod 7 \<longleftrightarrow>
     (day_index d - day_index a) mod 7 \<le> (day_index b - day_index a) mod 7"
  by (cases d; cases a; cases b; simp)

lemma set_expand_from:
  "set (expand_from a b) = {d. (day_index d - day_index a) mod 7 \<le> (day_index b - day_index a) mod 7}"
proof (induction a b rule: expand_from.induct)
  case (1 a b)
  show ?case
  proof (cases "a = b")
    case True
    then have "set (expand_from a b) = {b}" by (simp add: expand_from.simps [of b b])
    also have "\<dots> = {d. (day_index d - day_index a) mod 7 \<le> (day_index b - day_index a) mod 7}"
      unfolding True day_gap_zero by simp
    finally show ?thesis .
  next
    case False
    with 1 have "set (expand_from a b) = insert a
        {d. (day_index d - day_index (next_day a)) mod 7 \<le> (day_index b - day_index (next_day a)) mod 7}"
      by (simp add: expand_from.simps [of a b])
    also have "\<dots> = {d. (day_index d - day_index a) mod 7 \<le> (day_index b - day_index a) mod 7}"
      using day_gap_step [OF False] by auto
    finally show ?thesis .
  qed
qed

lemma set_expandDayRange:
  "set (expandDayRange a b) = {d. (day_index d - day_index a) mod 7 \<le> (day_index b - day_index a) mod 7}"
  using set_expand_from [of a b]
  by (auto simp: expandDayRange_def expand_from.simps [of b b])

lemma map_Join: "map f (Join xs sep) = Join (map (map f) xs) (map f sep)"
  by (induction xs sep rule: Join.induct) simp_all

lemma Split_Join:
  "xs \<noteq> [] \<Longrightarrow> \<forall>x \<in> set xs. c \<notin> set x \<Longrightarrow> Split c (Join xs [c]) = xs"
  by (induction xs "[c]" rule: Join.induct) (simp_all add: Split_append Split_no_sep)

lemma visible_Join:
  "\<forall>x \<in> set xs. list_all visible x \<Longrightarrow> list_all visible sep \<Longrightarrow> list_all visible (Join xs sep)"
  by (induction xs sep rule: Join.induct) simp_all

lemma Join_not_Nil: "xs \<noteq> [] \<Longrightarrow> \<forall>x \<in> set xs. x \<noteq> [] \<Longrightarrow> Join xs sep \<noteq> []"
  by (induction xs sep rule: Join.induct) simp_all

lemma day_parts_names:
  "day_parts spec days (map lower_abbrev ds) = Inr (dedup_onto days ds)"
  by (induction ds arbitrary: days)
     (simp_all add: lower_abbrev_facts visible_TrimSpace)

lemma lower_comma [simp]: "lower_byte (CHR '','') = CHR '',''" "lower_byte (CHR ''-'') = CHR ''-''"
  by code_simp+

lemma day_set_visible: "list_all visible (show_days ds)"
proof (cases ds)
  case (Days xs)
  then show ?thesis
    using visible_Join [of "map day_abbrev xs" "[CHR '','']"] by (simp add: day_abbrev_facts visible_def)
qed (simp_all add: day_abbrev_facts visible_def)

lemma day_set_no_colon: "CHR '':'' \<notin> set (show_days ds)"
proof -
  have "CHR '':'' \<notin> set (Join (map day_abbrev xs) [CHR '',''])" for xs
    by (induction xs rule: induct_list012) (simp_all add: day_abbrev_facts)
  then show ?thesis by (cases ds) (simp_all add: day_abbrev_facts)
qed

lemma parseDaySpec_visible:
  assumes "list_all visible s" "s \<noteq> []" "map lower_byte s \<noteq> ''*''"
  shows "parseDaySpec s = bind_result (day_parts s [] (Split (CHR '','') (map lower_byte s)))
           (\<lambda>days. if days = [] then Inl (DaySpecNoDays s) else Inr days)"
  using assms by (simp add: parseDaySpec_def Let_def visible_TrimSpace ToLower_visible)

lemma lower_not_star: "x \<in> set s \<Longrightarrow> lower_byte x \<noteq> CHR ''*'' \<Longrightarrow> map lower_byte s \<noteq> ''*''"
  by (cases s) auto

lemma parseDaySpec_show:
  assumes "show_days ds \<noteq> []"
  obtains days where "parseDaySpec (show_days ds) = Inr days" "set days = days_of ds"
proof (cases ds)
  case EveryDay
  with assms show ?thesis by simp
next
  case (Days xs)
  with assms have xs: "xs \<noteq> []" by auto
  let ?s = "Join (map day_abbrev xs) [CHR '','']"
  have low: "map lower_byte ?s = Join (map lower_abbrev xs) [CHR '','']"
    by (simp add: map_Join lower_abbrev_def [abs_def] comp_def)
  have "Split (CHR '','') (map lower_byte ?s) = map lower_abbrev xs"
    unfolding low by (rule Split_Join) (use xs in \<open>auto simp: lower_abbrev_facts\<close>)
  moreover have "map lower_byte ?s \<noteq> ''*''"
  proof
    assume "map lower_byte ?s = ''*''"
    with calculation have "map lower_abbrev xs = [''*'']" by simp
    then obtain d where "lower_abbrev d = ''*''" by auto
    then show False by (cases d) simp_all
  qed
  moreover have "dedup_onto [] xs \<noteq> []" using xs by (simp add: dedup_onto_Nil_iff)
  ultimately have "parseDaySpec ?s = Inr (dedup_onto [] xs)"
    using assms Days day_set_visible [of ds] by (simp add: parseDaySpec_visible day_parts_names)
  with Days show ?thesis using that [of "dedup_onto [] xs"] by (simp add: set_dedup_onto)
next
  case (DayRange a b)
  let ?s = "day_abbrev a @ CHR ''-'' # day_abbrev b"
  have low: "map lower_byte ?s = lower_abbrev a @ CHR ''-'' # lower_abbrev b"
    by (simp add: lower_abbrev_def)
  have vis: "list_all visible (lower_abbrev a @ CHR ''-'' # lower_abbrev b)"
    by (simp add: lower_abbrev_facts visible_def)
  have "Split (CHR '','') (map lower_byte ?s) = [lower_abbrev a @ CHR ''-'' # lower_abbrev b]"
    unfolding low by (rule Split_no_sep) (simp add: lower_abbrev_facts)
  moreover have "map lower_byte ?s \<noteq> ''*''"
    unfolding low by (cases a) simp_all
  moreover have "day_parts ?s [] [lower_abbrev a @ CHR ''-'' # lower_abbrev b] =
      Inr (dedup_onto [] (expandDayRange a b))"
    using vis by (simp add: visible_TrimSpace SplitAt_append lower_abbrev_facts)
  moreover have "dedup_onto [] (expandDayRange a b) \<noteq> []" by (simp add: dedup_onto_Nil_iff)
  ultimately have "parseDaySpec ?s = Inr (dedup_onto [] (expandDayRange a b))"
    using DayRange day_set_visible [of ds] by (simp add: parseDaySpec_visible)
  with DayRange show ?thesis
    using that [of "dedup_onto [] (expandDayRange a b)"] by (simp add: set_dedup_onto set_expandDayRange)
qed

section \<open>Expressions are read back\<close>

lemma parseExpression_split:
  assumes "CHR '':'' \<notin> set pre" "CHR ''-'' \<notin> set mid"
  shows "parseExpression (pre @ CHR '':'' # mid @ CHR ''-'' # rest) =
    (let p = TrimSpace (pre @ CHR '':'' # mid); q = TrimSpace rest;
         expr = pre @ CHR '':'' # mid @ CHR ''-'' # rest in
     if p = [] \<or> q = [] then Inl (InvalidExpression expr) else parse_parts expr p q)"
proof -
  have "IndexByte (pre @ CHR '':'' # mid @ CHR ''-'' # rest) (CHR '':'') = Some (length pre)"
    using assms(1) by (rule IndexByte_append)
  moreover have "IndexByte ((CHR '':'' # mid) @ CHR ''-'' # rest) (CHR ''-'') =
      Some (length (CHR '':'' # mid))"
    by (rule IndexByte_append) (use assms in simp)
  ultimately show ?thesis
    by (simp add: parseExpression_def Let_def)
qed

lemma show_clock_split:
  assumes "clock_ok hm"
  obtains h m where "show_clock hm = h @ CHR '':'' # m" "CHR '':'' \<notin> set h" "CHR ''-'' \<notin> set m"
proof -
  obtain h m where hm: "hm = (h, m)" by (cases hm)
  with assms show ?thesis
    using that [of "two_digits h" "two_digits m"] two_digits_no_sep [of h] two_digits_no_sep [of m]
    by simp
qed

lemma show_days_Nil: "ds \<noteq> Days [] \<Longrightarrow> show_days ds = [] \<longleftrightarrow> ds = EveryDay"
  using Join_not_Nil [of "map day_abbrev _" "[CHR '','']"]
  by (cases ds) (auto simp: day_abbrev_facts)

text \<open>A day specification, possibly empty, in front of a clock time.\<close>

lemma parse_point:
  assumes "clock_ok hm" and ds: "ds \<noteq> Days []"
  defines "p \<equiv> prefix_days (show_days ds) @ show_clock hm"
  shows "TrimSpace p = p"
    and "p \<noteq> []"
    and "\<exists>days. set days = days_of ds \<and> parseDayAndTime p = Inr (days, clock_seconds hm)"
    and "\<exists>days. (show_days ds \<noteq> [] \<longrightarrow> set days = days_of ds) \<and> (show_days ds = [] \<longrightarrow> days = dflt) \<and>
      parseEndPart p dflt = Inr (days, show_days ds \<noteq> [], clock_seconds hm)"
proof -
  have c: "list_all visible (show_clock hm)" "show_clock hm \<noteq> []"
    using assms(1) by (auto dest: show_clock_visible)
  note time = parseTimeOfDay_show [OF assms(1)]
  show "p \<noteq> []" using c by (simp add: p_def)
  have star: "parseDaySpec ''*'' = Inr [Sunday, Monday, Tuesday, Wednesday, Thursday, Friday, Saturday]"
    by code_simp
  have univ: "set [Sunday, Monday, Tuesday, Wednesday, Thursday, Friday, Saturday] = UNIV"
    by (auto intro: weekday.exhaust)
  have "TrimSpace p = p \<and>
    (\<exists>days. set days = days_of ds \<and> parseDayAndTime p = Inr (days, clock_seconds hm)) \<and>
    (\<exists>days. (show_days ds \<noteq> [] \<longrightarrow> set days = days_of ds) \<and> (show_days ds = [] \<longrightarrow> days = dflt) \<and>
      parseEndPart p dflt = Inr (days, show_days ds \<noteq> [], clock_seconds hm))"
  proof (cases "show_days ds = []")
    case True
    then have p: "p = show_clock hm" by (simp add: p_def prefix_days_def)
    from True ds have "days_of ds = UNIV" by (simp add: show_days_Nil)
    show ?thesis
      using c time True star univ \<open>days_of ds = UNIV\<close>
      by (simp add: p visible_TrimSpace parseDayAndTime_def parseEndPart_def Fields_word)
  next
    case False
    then obtain days where days: "parseDaySpec (show_days ds) = Inr days" "set days = days_of ds"
      by (rule parseDaySpec_show)
    have p: "p = show_days ds @ CHR '' '' # show_clock hm"
      using False by (simp add: p_def prefix_days_def)
    show ?thesis
      using c time False days day_set_visible [of ds]
      by (auto simp: p TrimSpace_two_words parseDayAndTime_def parseEndPart_def Fields_two_words)
  qed
  then show "TrimSpace p = p"
    and "\<exists>days. set days = days_of ds \<and> parseDayAndTime p = Inr (days, clock_seconds hm)"
    and "\<exists>days. (show_days ds \<noteq> [] \<longrightarrow> set days = days_of ds) \<and> (show_days ds = [] \<longrightarrow> days = dflt) \<and>
      parseEndPart p dflt = Inr (days, show_days ds \<noteq> [], clock_seconds hm)"
    by blast+
qed

lemma prefix_days_no_colon: "CHR '':'' \<notin> set (prefix_days (show_days ds))"
  using day_set_no_colon [of ds] by (simp add: prefix_days_def)

text \<open>Cutting a canonical expression at its dash.\<close>

lemma parseExpression_points:
  assumes "clock_ok s" "clock_ok e" "ds \<noteq> Days []" "es \<noteq> Days []"
  defines "p \<equiv> prefix_days (show_days ds) @ show_clock s"
    and "q \<equiv> prefix_days (show_days es) @ show_clock e"
  shows "parseExpression (p @ CHR ''-'' # q) = parse_parts (p @ CHR ''-'' # q) p q"
proof -
  obtain h m where hm: "show_clock s = h @ CHR '':'' # m" "CHR '':'' \<notin> set h" "CHR ''-'' \<notin> set m"
    using assms(1) by (rule show_clock_split)
  then have split: "p = (prefix_days (show_days ds) @ h) @ CHR '':'' # m" by (simp add: p_def)
  have "CHR '':'' \<notin> set (prefix_days (show_days ds) @ h)"
    using hm(2) prefix_days_no_colon by simp
  from parseExpression_split [OF this hm(3), of q]
  show ?thesis
    using parse_point(1,2) [OF assms(1,3)] parse_point(1,2) [OF assms(2,4)]
    by (simp add: split [symmetric] Let_def p_def [symmetric] q_def [symmetric])
      (simp add: split Let_def)
qed

lemma parse_daily:
  assumes "clock_ok s" "clock_ok e" "ds \<noteq> Days []"
  obtains days where "set days = days_of ds"
    "parseExpression (show_window (Daily ds s e)) =
       Inr (concat (map (day_interval (clock_seconds s) (clock_seconds e)) days))"
proof -
  obtain days where days: "set days = days_of ds"
    "parseDayAndTime (prefix_days (show_days ds) @ show_clock s) = Inr (days, clock_seconds s)"
    using parse_point(3) [OF assms(1,3)] by blast
  have "parseEndPart (prefix_days (show_days EveryDay) @ show_clock e) days = Inr (days, False, clock_seconds e)"
    using parse_point(4) [OF assms(2), of EveryDay days] by simp
  with days parseExpression_points [OF assms(1,2,3), of EveryDay]
  show ?thesis by (intro that [OF days(1)]) (simp add: parse_parts_def prefix_days_def)
qed

lemma singleton_days: "set days = {d} \<Longrightarrow> distinct days \<Longrightarrow> days = [d]"
  by (cases days rule: list.exhaust; cases "tl days") auto

lemma parse_span:
  assumes "clock_ok s" "clock_ok e"
  shows "parseExpression (show_window (Span a s b e)) =
    Inr (clip_to_week (week_second a s) (advance_past (week_second a s) (week_second b e)))"
proof -
  have one: "show_days (Days [d]) = day_abbrev d" "Days [d] \<noteq> Days []" "show_days (Days [d]) \<noteq> []" for d
    by (simp_all add: day_abbrev_facts)
  obtain ds where ds: "set ds = {a}"
    "parseDayAndTime (prefix_days (day_abbrev a) @ show_clock s) = Inr (ds, clock_seconds s)"
    using parse_point(3) [OF assms(1) one(2), of a] one by auto
  obtain es where es: "set es = {b}"
    "parseEndPart (prefix_days (day_abbrev b) @ show_clock e) ds = Inr (es, True, clock_seconds e)"
    using parse_point(4) [OF assms(2) one(2), of b ds] one by auto
  have "distinct ds"
    using ds(2) by (auto simp: parseDayAndTime_def Let_def bind_result_Inr_iff dest: parseDaySpec_days split: if_splits)
  with ds(1) have ds1: "ds = [a]" by (rule singleton_days)
  have "distinct es"
    using es(2) by (auto simp: parseEndPart_def Let_def bind_result_Inr_iff dest: parseDaySpec_days split: if_splits)
  with es(1) have es1: "es = [b]" by (rule singleton_days)
  show ?thesis
    using parseExpression_points [OF assms one(2) one(2), of a b] ds(2) es(2)
    by (simp add: one ds1 es1 parse_parts_def week_second_def Let_def)
qed

lemma span_covers:
  fixes a b :: weekday
  assumes "clock_ok s" "clock_ok e" "0 \<le> t" "t < secondsPerWeek"
  defines "S \<equiv> week_second a s" and "E \<equiv> week_second b e"
  shows "covers (clip_to_week S (advance_past S E)) t \<longleftrightarrow> window_open (Span a s b e) t"
proof -
  have r: "0 \<le> S \<and> S < secondsPerWeek \<and> 0 \<le> E \<and> E < secondsPerWeek \<and>
      S < advance_past S E \<and> advance_past S E \<le> S + secondsPerWeek"
    using span_range [of "clock_seconds s" "clock_seconds e" a b] clock_seconds_range assms(1,2)
    by (simp add: S_def E_def week_second_def)
  have len: "advance_past S E - S =
      (if (E - S) mod secondsPerWeek = 0 then secondsPerWeek else (E - S) mod secondsPerWeek)"
  proof (cases "S < E")
    case True
    with r show ?thesis by (simp add: advance_past_week)
  next
    case False
    with r have "(E - S) mod secondsPerWeek = (if S = E then 0 else E - S + secondsPerWeek)"
      using mod_pos_pos_trivial [of "E - S + secondsPerWeek" secondsPerWeek] by auto
    with False r show ?thesis by (simp add: advance_past_week)
  qed
  have "covers (clip_to_week S (advance_past S E)) t \<longleftrightarrow> on_arc S (advance_past S E - S) t"
    by (rule clip_to_week_covers) (use r assms in auto)
  then show ?thesis unfolding len by (simp add: S_def E_def Let_def)
qed

lemma parse_show_covers:
  assumes "window_ok w"
  shows "\<exists>ivs. parseExpression (show_window w) = Inr ivs \<and>
    (\<forall>t. 0 \<le> t \<and> t < secondsPerWeek \<longrightarrow> covers ivs t = window_open w t)"
proof (cases w)
  case (Daily ds s e)
  with assms have ok: "clock_ok s" "clock_ok e" "ds \<noteq> Days []" by auto
  then obtain days where days: "set days = days_of ds"
    "parseExpression (show_window w) = Inr (concat (map (day_interval (clock_seconds s) (clock_seconds e)) days))"
    unfolding Daily by (rule parse_daily)
  have "covers (concat (map (day_interval (clock_seconds s) (clock_seconds e)) days)) t = window_open w t"
    if "0 \<le> t" "t < secondsPerWeek" for t
    using that days(1) ok clock_seconds_range
    by (simp add: Daily covers_concat day_interval_covers week_second_def)
  with days(2) show ?thesis by blast
next
  case (Span a s b e)
  with assms have ok: "clock_ok s" "clock_ok e" by auto
  from parse_span [OF ok, of a b] show ?thesis
    unfolding Span using span_covers [OF ok] by blast
qed

section \<open>Evaluators built from canonical windows\<close>

lemma show_clock_visible_ends:
  "clock_ok hm \<Longrightarrow> plain_byte (hd (show_clock hm)) \<and> plain_byte (last (show_clock hm))"
  using show_clock_visible [of hm] by (auto simp: list_all_iff visible_plain)

lemma prefix_days_hd:
  "clock_ok hm \<Longrightarrow> plain_byte (hd (prefix_days (show_days ds) @ show_clock hm @ rest))"
  using day_set_visible [of ds] show_clock_visible [of hm]
  by (cases "show_days ds") (auto simp: prefix_days_def list_all_iff visible_plain hd_append)

lemma TrimSpace_show_window: "window_ok w \<Longrightarrow> TrimSpace (show_window w) = show_window w"
proof (cases w)
  case (Daily ds s e)
  assume "window_ok w"
  with Daily show ?thesis
    using prefix_days_hd [of s ds "CHR ''-'' # show_clock e"] show_clock_visible_ends [of e]
      show_clock_visible [of e]
    by (intro TrimSpace_plain_ends) auto
next
  case (Span a s b e)
  assume "window_ok w"
  with Span show ?thesis
    using prefix_days_hd [of s "Days [a]" "CHR ''-'' # prefix_days (day_abbrev b) @ show_clock e"]
      show_clock_visible_ends [of e] show_clock_visible [of e]
    by (intro TrimSpace_plain_ends) auto
qed

lemma entry_intervals_show_window:
  assumes "window_ok w"
  obtains ivs where "entry_intervals (show_window w) = Some ivs" "ivs \<noteq> []"
    "\<And>t. 0 \<le> t \<Longrightarrow> t < secondsPerWeek \<Longrightarrow> covers ivs t = window_open w t"
proof -
  obtain raw where raw: "parseExpression (show_window w) = Inr raw"
    "\<forall>t. 0 \<le> t \<and> t < secondsPerWeek \<longrightarrow> covers raw t = window_open w t"
    using parse_show_covers [OF assms] by blast
  from parseExpression_ok [OF raw(1)] have "raw \<noteq> []" by simp
  moreover have "show_window w \<noteq> []" by (cases w) simp_all
  ultimately show ?thesis
    using raw TrimSpace_show_window [OF assms]
    by (intro that [of "map (\<lambda>iv. iv\<lparr>iv_expr := show_window w\<rparr>) raw"]) (auto simp: entry_intervals_def)
qed

lemma parse_entries_show:
  assumes "\<forall>w \<in> set ws. window_ok w"
  obtains ivs where "parse_entries side (map show_window ws) = Inr ivs" "ivs = [] \<longleftrightarrow> ws = []"
    "\<And>t. 0 \<le> t \<Longrightarrow> t < secondsPerWeek \<Longrightarrow> covers ivs t \<longleftrightarrow> (\<exists>w \<in> set ws. window_open w t)"
proof -
  define f where "f w = the (entry_intervals (show_window w))" for w
  have f: "entry_intervals (show_window w) = Some (f w) \<and> f w \<noteq> [] \<and>
      (\<forall>t. 0 \<le> t \<and> t < secondsPerWeek \<longrightarrow> covers (f w) t = window_open w t)" if "w \<in> set ws" for w
  proof -
    from assms that have "window_ok w" by blast
    then obtain ivs where "entry_intervals (show_window w) = Some ivs" "ivs \<noteq> []"
      "\<And>t. 0 \<le> t \<Longrightarrow> t < secondsPerWeek \<Longrightarrow> covers ivs t = window_open w t"
      by (rule entry_intervals_show_window) blast
    then show ?thesis by (simp add: f_def)
  qed
  have "list_all2 (\<lambda>x y. entry_intervals x = Some y) (map show_window ws) (map f ws)"
    using f by (simp add: list_all2_conv_all_nth)
  then have parsed: "parse_entries side (map show_window ws) = Inr (concat (map f ws))"
    by (auto simp: parse_entries_Inr)
  have empty: "concat (map f ws) = [] \<longleftrightarrow> ws = []"
    using f by (cases ws) auto
  have "covers (concat (map f ws)) t \<longleftrightarrow> (\<exists>w \<in> set ws. window_open w t)"
    if "0 \<le> t" "t < secondsPerWeek" for t
    using f that by (simp add: covers_concat)
  with parsed empty show ?thesis by (rule that)
qed

section \<open>Properties\<close>

text \<open>C17: A maintenance window in canonical notation is read as it is meant.  The evaluator
  \<open>NewEvaluator\<close> builds from the notation of two lists of windows exists whenever one of the lists
  is not empty, and it allows a time exactly when no deny window is open at that second of the week
  and, if there are allow windows, one of them is.\<close>

theorem windows_decision:
  assumes "\<forall>w \<in> set allow. window_ok w" "\<forall>w \<in> set deny. window_ok w"
    and "allow \<noteq> [] \<or> deny \<noteq> []"
  shows "\<exists>ev. NewEvaluator (map show_window allow) (map show_window deny) = Inr (Some ev) \<and>
    (\<forall>t. Allowed (Evaluate ev t) \<longleftrightarrow>
       \<not> (\<exists>w \<in> set deny. window_open w (secondsSinceWeekStart t)) \<and>
       (allow = [] \<or> (\<exists>w \<in> set allow. window_open w (secondsSinceWeekStart t))))"
proof -
  obtain d where d: "parse_entries ''deny'' (map show_window deny) = Inr d" "d = [] \<longleftrightarrow> deny = []"
    "\<And>t. 0 \<le> t \<Longrightarrow> t < secondsPerWeek \<Longrightarrow> covers d t \<longleftrightarrow> (\<exists>w \<in> set deny. window_open w t)"
    using parse_entries_show [OF assms(2)] by blast
  obtain a where a: "parse_entries ''allow'' (map show_window allow) = Inr a" "a = [] \<longleftrightarrow> allow = []"
    "\<And>t. 0 \<le> t \<Longrightarrow> t < secondsPerWeek \<Longrightarrow> covers a t \<longleftrightarrow> (\<exists>w \<in> set allow. window_open w t)"
    using parse_entries_show [OF assms(1)] by blast
  have "NewEvaluator (map show_window allow) (map show_window deny) =
      Inr (Some \<lparr>ev_allow = a, ev_deny = d\<rparr>)"
    using a(1,2) d(1,2) assms(3) by (simp add: NewEvaluator_def)
  then show ?thesis
    using a(2,3) d(3) secondsSinceWeekStart_range by (simp add: Evaluate_Allowed)
qed

theorem windows_decision_witness:
  "\<exists>ev. NewEvaluator [''Tue-Thu 22:00-04:00''] [''Fri 18:00-Mon 08:00''] = Inr (Some ev) \<and>
    Allowed (Evaluate ev \<lparr>t_ns = (62135596800 + 1700000000) * 1000000000, t_offset = 0\<rparr>)"
proof -
  let ?a = "Daily (DayRange Tuesday Thursday) (22, 0) (4, 0)" and ?d = "Span Friday (18, 0) Monday (8, 0)"
  let ?t = "\<lparr>t_ns = (62135596800 + 1700000000) * 1000000000, t_offset = 0\<rparr>"
  have s: "show_window ?a = ''Tue-Thu 22:00-04:00''" "show_window ?d = ''Fri 18:00-Mon 08:00''"
    by code_simp+
  have t: "secondsSinceWeekStart ?t = 252800" by code_simp
  have "window_open ?a 252800"
    by (simp add: on_arc_def week_second_def dayOffset_def daily_length_def week_consts)
       (rule exI [of _ Tuesday], simp)
  moreover have "\<not> window_open ?d 252800"
    by (simp add: on_arc_def week_second_def dayOffset_def week_consts)
  ultimately show ?thesis
    using windows_decision [of "[?a]" "[?d]"] s t by auto
qed

text \<open>C21: Every interval a window expression is parsed into is a non-empty part of the week, and
  there is at least one.\<close>

theorem parseExpression_intervals:
  assumes "parseExpression expr = Inr ivs"
  shows "ivs \<noteq> [] \<and>
    list_all (\<lambda>iv. 0 \<le> iv_start iv \<and> iv_start iv < iv_end iv \<and> iv_end iv \<le> secondsPerWeek) ivs"
  using parseExpression_ok [OF assms] by (simp add: iv_ok_def list_all_iff)

theorem parseExpression_intervals_witness:
  "list_all (\<lambda>iv. 0 \<le> iv_start iv \<and> iv_start iv < iv_end iv \<and> iv_end iv \<le> secondsPerWeek)
     [\<lparr>iv_start = 511200, iv_end = 604800, iv_expr = []\<rparr>, \<lparr>iv_start = 0, iv_end = 9000, iv_expr = []\<rparr>]"
proof -
  have "parseExpression ''Fri 22:00-Sun 02:30'' =
    Inr [\<lparr>iv_start = 511200, iv_end = 604800, iv_expr = []\<rparr>, \<lparr>iv_start = 0, iv_end = 9000, iv_expr = []\<rparr>]"
    by code_simp
  from parseExpression_intervals [OF this] show ?thesis by simp
qed

text \<open>C22: Building an evaluator fails exactly when some entry is blank or does not parse, and it
  returns the nil evaluator exactly when there are no entries at all.\<close>

theorem NewEvaluator_outcome:
  "(\<exists>err. NewEvaluator allow deny = Inl err) =
     (\<exists>x \<in> set allow \<union> set deny. entry_intervals x = None) \<and>
   (NewEvaluator allow deny = Inr None) = (allow = [] \<and> deny = [])"
proof
  have total: "(\<exists>ivss. list_all2 (\<lambda>x y. entry_intervals x = Some y) xs ivss) \<longleftrightarrow>
      (\<forall>x \<in> set xs. entry_intervals x \<noteq> None)" for xs
    by (induction xs) (auto simp: list_all2_Cons1)
  have good: "(\<exists>ivs. parse_entries side xs = Inr ivs) \<longleftrightarrow> (\<forall>x \<in> set xs. entry_intervals x \<noteq> None)" for side xs
    using total [of xs] by (auto simp: parse_entries_Inr)
  have "(\<exists>err. NewEvaluator allow deny = Inl err) \<longleftrightarrow>
      \<not> ((\<exists>d. parse_entries ''deny'' deny = Inr d) \<and> (\<exists>a. parse_entries ''allow'' allow = Inr a))"
    by (cases "parse_entries ''deny'' deny"; cases "parse_entries ''allow'' allow")
       (auto simp: NewEvaluator_def)
  then show "(\<exists>err. NewEvaluator allow deny = Inl err) = (\<exists>x \<in> set allow \<union> set deny. entry_intervals x = None)"
    unfolding good by auto
  have nil: "parse_entries side xs = Inr [] \<longleftrightarrow> xs = []" for side xs
  proof
    assume "parse_entries side xs = Inr []"
    then obtain ivss where "list_all2 (\<lambda>x y. entry_intervals x = Some y) xs ivss" "concat ivss = []"
      by (auto simp: parse_entries_Inr)
    then show "xs = []"
      by (cases xs) (auto simp: list_all2_Cons1 dest: entry_intervals_covers)
  qed (simp add: parse_entries_def)
  show "(NewEvaluator allow deny = Inr None) = (allow = [] \<and> deny = [])"
    using nil [of "''deny''" deny] nil [of "''allow''" allow]
    by (auto simp: NewEvaluator_def bind_result_Inr_iff split: if_splits)
qed

end
