(* ===== verification/GoFloat.thy ===== *)
theory GoFloat
  imports GoTime
begin

text \<open>
  Go's \<open>float64\<close>, as far as the program computes with it: a finite value is the rational number
  it stands for (the two zeros are one), and the result of an operation is the exact result rounded
  to 53 significant bits, ties to even, with the exponent range of IEEE 754 binary64.
\<close>

datatype float64 = NaN | Inf bool | Fin rat

text \<open>Rounding a rational number to an integer, ties to even.\<close>

definition round_even :: "rat \<Rightarrow> int" where
  "round_even q =
     (let f = \<lfloor>q\<rfloor>; r = q - of_int f in
      if r < 1/2 then f else if 1/2 < r then f + 1 else if even f then f else f + 1)"

fun log2_floor :: "nat \<Rightarrow> nat" where
  "log2_floor n = (if n < 2 then 0 else Suc (log2_floor (n div 2)))"

declare log2_floor.simps [simp del]

definition pow2 :: "int \<Rightarrow> rat" where
  "pow2 e = (if 0 \<le> e then 2 ^ nat e else 1 / 2 ^ nat (- e))"

text \<open>The exponent of the leading bit of a positive rational number.\<close>

definition rat_exponent :: "rat \<Rightarrow> int" where
  "rat_exponent q =
     (let (n, d) = quotient_of \<bar>q\<bar>;
          e = int (log2_floor (nat n)) - int (log2_floor (nat d)) in
      if pow2 e \<le> \<bar>q\<bar> then e else e - 1)"

text \<open>The distance of neighbouring floats at \<open>q\<close>: a power of two, never below \<open>2 ^ -1074\<close>.\<close>

definition ulp_exponent :: "rat \<Rightarrow> int" where
  "ulp_exponent q = max (rat_exponent q - 52) (- 1074)"

definition fl :: "rat \<Rightarrow> float64" where
  "fl q =
     (if q = 0 then Fin 0
      else let u = pow2 (ulp_exponent q); r = of_int (round_even (q / u)) * u in
           if \<bar>r\<bar> < pow2 1024 then Fin r else Inf (0 < r))"

text \<open>A finite float is a multiple of \<open>2 ^ -1074\<close> that rounding leaves alone.\<close>

definition is_float :: "rat \<Rightarrow> bool" where
  "is_float q \<longleftrightarrow> fl q = Fin q"

fun float_mult :: "float64 \<Rightarrow> float64 \<Rightarrow> float64" where
  "float_mult (Fin a) (Fin b) = fl (a * b)"
| "float_mult NaN y = NaN"
| "float_mult x NaN = NaN"
| "float_mult (Inf p) (Inf q) = Inf (p = q)"
| "float_mult (Inf p) (Fin b) = (if b = 0 then NaN else Inf (p = (0 < b)))"
| "float_mult (Fin a) (Inf q) = (if a = 0 then NaN else Inf (q = (0 < a)))"

fun float_add :: "float64 \<Rightarrow> float64 \<Rightarrow> float64" where
  "float_add (Fin a) (Fin b) = fl (a + b)"
| "float_add NaN y = NaN"
| "float_add x NaN = NaN"
| "float_add (Inf p) (Inf q) = (if p = q then Inf p else NaN)"
| "float_add (Inf p) (Fin b) = Inf p"
| "float_add (Fin a) (Inf q) = Inf q"

definition float_of_int :: "int \<Rightarrow> float64" where
  "float_of_int i = fl (of_int i)"

text \<open>Comparisons with a constant, false for NaN as IEEE 754 has it.\<close>

fun float_le :: "float64 \<Rightarrow> rat \<Rightarrow> bool" where
  "float_le NaN c = False"
| "float_le (Inf p) c = (\<not> p)"
| "float_le (Fin q) c = (q \<le> c)"

fun float_gt :: "float64 \<Rightarrow> rat \<Rightarrow> bool" where
  "float_gt NaN c = False"
| "float_gt (Inf p) c = p"
| "float_gt (Fin q) c = (c < q)"

fun float_Ceil :: "float64 \<Rightarrow> float64" where
  "float_Ceil (Fin q) = Fin (of_int \<lceil>q\<rceil>)"
| "float_Ceil x = x"

text \<open>
  \<open>int(x)\<close> truncates; for a value the type cannot hold the language leaves the result to the
  implementation, which is the argument \<open>unrepresentable\<close>.
\<close>

fun int_of_float :: "int \<Rightarrow> float64 \<Rightarrow> int" where
  "int_of_float unrepresentable (Fin q) =
     (let t = (if 0 \<le> q then \<lfloor>q\<rfloor> else \<lceil>q\<rceil>) in
      if in_int64 t then t else unrepresentable)"
| "int_of_float unrepresentable x = unrepresentable"

text \<open>The verb \<open>%.2f\<close>.\<close>

fun format_2f :: "float64 \<Rightarrow> string" where
  "format_2f NaN = ''NaN''"
| "format_2f (Inf p) = (if p then ''+Inf'' else ''-Inf'')"
| "format_2f (Fin q) =
     (let n = nat (round_even (\<bar>q\<bar> * 100)) in
      (if q < 0 then ''-'' else []) @ show_nat (n div 100) @ ''.'' @ pad_left 2 (show_nat (n mod 100)))"

text \<open>
  \<open>strconv.FormatFloat(x, 'f', -1, 64)\<close>: the least number of decimals that reads back as the same
  float.  The search is bounded by 1100 decimals; no float has more than 1074.  Exact below
  \<open>2 ^ 53\<close>.
\<close>

fun decimals_from :: "nat \<Rightarrow> nat \<Rightarrow> rat \<Rightarrow> nat" where
  "decimals_from 0 d q = d"
| "decimals_from (Suc fuel) d q =
     (if fl (of_int (round_even (q * 10 ^ d)) / 10 ^ d) = Fin q then d else decimals_from fuel (Suc d) q)"

fun FormatFloat :: "float64 \<Rightarrow> string" where
  "FormatFloat NaN = ''NaN''"
| "FormatFloat (Inf p) = (if p then ''+Inf'' else ''-Inf'')"
| "FormatFloat (Fin q) =
     (let d = decimals_from 1100 0 \<bar>q\<bar>; n = nat (round_even (\<bar>q\<bar> * 10 ^ d)) in
      (if q < 0 then ''-'' else []) @ show_nat (n div 10 ^ d) @
      (if d = 0 then [] else ''.'' @ pad_left d (show_nat (n mod 10 ^ d))))"

text \<open>\<open>d.Seconds()\<close>: whole seconds and the rest, each rounded.\<close>

definition Seconds :: "duration \<Rightarrow> float64" where
  "Seconds d =
     (case float_of_int (sint d smod 1000000000) of
        Fin n \<Rightarrow> float_add (float_of_int (sint d sdiv 1000000000)) (fl (n / 1000000000))
      | x \<Rightarrow> x)"

section \<open>Rounding keeps order relations with integers\<close>

lemma pow2_pos [simp]: "0 < pow2 e"
  by (simp add: pow2_def)

lemma round_even_le: "q \<le> of_int n \<Longrightarrow> round_even q \<le> n"
proof -
  assume q: "q \<le> of_int n"
  then have f: "\<lfloor>q\<rfloor> \<le> n" by (simp add: floor_le_iff)
  show ?thesis
  proof (cases "\<lfloor>q\<rfloor> = n")
    case True
    with q have "q - of_int \<lfloor>q\<rfloor> < 1/2" by simp
    with True show ?thesis by (simp add: round_even_def Let_def)
  next
    case False
    with f show ?thesis by (auto simp: round_even_def Let_def)
  qed
qed

lemma round_even_ge: "of_int n \<le> q \<Longrightarrow> n \<le> round_even q"
proof -
  assume "of_int n \<le> q"
  then have "n \<le> \<lfloor>q\<rfloor>" by (simp add: le_floor_iff)
  then show ?thesis by (auto simp: round_even_def Let_def)
qed

lemma round_even_of_int [simp]: "round_even (of_int n) = n"
  by (simp add: round_even_def)

lemma log2_floor_bounds: "0 < n \<Longrightarrow> 2 ^ log2_floor n \<le> n \<and> n < 2 ^ Suc (log2_floor n)"
proof (induction n rule: log2_floor.induct)
  case (1 n)
  show ?case
  proof (cases "n < 2")
    case True
    with "1.prems" show ?thesis by (simp add: log2_floor.simps [of n])
  next
    case False
    with "1.IH" have "2 ^ log2_floor (n div 2) \<le> n div 2 \<and> n div 2 < 2 ^ Suc (log2_floor (n div 2))"
      by simp
    then have "2 * 2 ^ log2_floor (n div 2) \<le> n \<and> n < 2 * 2 ^ Suc (log2_floor (n div 2))"
      by linarith
    with False show ?thesis by (simp add: log2_floor.simps [of n])
  qed
qed

lemma pow2_diff: "pow2 (int a - int b) = 2 ^ a / 2 ^ b"
proof (cases "b \<le> a")
  case True
  then have "pow2 (int a - int b) = 2 ^ (a - b)" by (simp add: pow2_def nat_diff_distrib)
  with True show ?thesis by (simp add: power_diff)
next
  case False
  then have "nat (- (int a - int b)) = b - a" by simp
  with False have "pow2 (int a - int b) = 1 / 2 ^ (b - a)" by (simp add: pow2_def)
  with False show ?thesis by (simp add: power_diff)
qed

lemma pow2_add1: "pow2 (e + 1) = 2 * pow2 e"
proof -
  obtain a b where e: "e = int a - int b" by (metis int_diff_cases)
  have "e + 1 = int (Suc a) - int b" by (simp add: e)
  then have "pow2 (e + 1) = 2 ^ Suc a / 2 ^ b" by (simp only: pow2_diff)
  then show ?thesis by (simp add: e pow2_diff)
qed

text \<open>The leading bit: \<open>2 ^ e \<le> |q| < 2 ^ (e + 1)\<close>.\<close>

lemma rat_exponent_bounds:
  assumes "q \<noteq> 0"
  shows "pow2 (rat_exponent q) \<le> \<bar>q\<bar> \<and> \<bar>q\<bar> < pow2 (rat_exponent q + 1)"
proof -
  obtain n d where nd: "quotient_of \<bar>q\<bar> = (n, d)" by fastforce
  then have d: "0 < d" by (rule quotient_of_denom_pos)
  from nd have q: "\<bar>q\<bar> = of_int n / of_int d" by (rule quotient_of_div)
  from assms have "0 < \<bar>q\<bar>" by simp
  with q d have n: "0 < n" by (simp add: zero_less_divide_iff)
  let ?a = "log2_floor (nat n)" and ?b = "log2_floor (nat d)"
  let ?e = "int ?a - int ?b"
  have a: "2 ^ ?a \<le> nat n" "nat n < 2 ^ Suc ?a" and b: "2 ^ ?b \<le> nat d" "nat d < 2 ^ Suc ?b"
    using n d log2_floor_bounds [of "nat n"] log2_floor_bounds [of "nat d"] by auto
  have an: "(2 :: rat) ^ ?a \<le> of_int n" "of_int n < (2 :: rat) ^ Suc ?a"
    using a n by (metis of_int_of_nat_eq of_nat_numeral of_nat_power of_nat_le_iff int_nat_eq less_imp_le,
                  metis of_int_of_nat_eq of_nat_numeral of_nat_power of_nat_less_iff int_nat_eq less_imp_le)
  have bd: "(2 :: rat) ^ ?b \<le> of_int d" "of_int d < (2 :: rat) ^ Suc ?b"
    using b d by (metis of_int_of_nat_eq of_nat_numeral of_nat_power of_nat_le_iff int_nat_eq less_imp_le,
                  metis of_int_of_nat_eq of_nat_numeral of_nat_power of_nat_less_iff int_nat_eq less_imp_le)
  have up: "\<bar>q\<bar> < pow2 (?e + 1)"
  proof -
    have "of_int n / of_int d < (2 :: rat) ^ Suc ?a / 2 ^ ?b"
      using an(2) bd(1) d by (intro frac_less) (use n in auto)
    then show ?thesis by (simp add: q pow2_add1 pow2_diff)
  qed
  have lo: "pow2 (?e - 1) < \<bar>q\<bar>"
  proof -
    have "(2 :: rat) ^ ?a / 2 ^ Suc ?b < of_int n / of_int d"
      using an(1) bd(2) d by (intro frac_less2) (use n in auto)
    moreover have "pow2 (?e - 1) = 2 ^ ?a / 2 ^ Suc ?b"
    proof -
      have "?e - 1 = int ?a - int (Suc ?b)" by simp
      then show ?thesis by (simp only: pow2_diff)
    qed
    ultimately show ?thesis by (simp add: q)
  qed
  have e: "rat_exponent q = (if pow2 ?e \<le> \<bar>q\<bar> then ?e else ?e - 1)"
    by (simp add: rat_exponent_def nd)
  show ?thesis
    using up lo by (auto simp: e)
qed

lemma pow2_mono: "a \<le> b \<Longrightarrow> pow2 a \<le> pow2 b"
proof (induction "nat (b - a)" arbitrary: b)
  case 0
  then show ?case by simp
next
  case (Suc k)
  then have "k = nat (b - 1 - a)" "a \<le> b - 1" by simp_all
  then have "pow2 a \<le> pow2 (b - 1)" by (rule Suc.hyps(1))
  also have "\<dots> \<le> pow2 b" using pow2_add1 [of "b - 1"] pow2_pos [of "b - 1"] by simp
  finally show ?case .
qed

text \<open>
  Rounding a positive value that an integer below \<open>2 ^ 53\<close> bounds stays within the bound, and a
  value no smaller than the least positive float does not round to zero.
\<close>

lemma ulp_exponent_small:
  assumes "0 < q" "q < 2 ^ 53"
  shows "ulp_exponent q \<le> 0"
proof (rule ccontr)
  assume "\<not> ?thesis"
  then have "53 \<le> rat_exponent q" by (simp add: ulp_exponent_def)
  then have "pow2 53 \<le> pow2 (rat_exponent q)" by (rule pow2_mono)
  also have "\<dots> \<le> q" using assms rat_exponent_bounds [of q] by auto
  finally show False using assms by (simp add: pow2_def)
qed

lemma fl_bounded_by_int:
  assumes "0 < q" "q \<le> of_int n" "n < 2 ^ 53"
  obtains r where "fl q = Fin r" "0 \<le> r" "r \<le> of_int n"
proof -
  let ?u = "pow2 (ulp_exponent q)"
  let ?m = "round_even (q / ?u)"
  have "(of_int n :: rat) < of_int (2 ^ 53)" using assms(3) by (simp only: of_int_less_iff)
  then have n: "(of_int n :: rat) < 2 ^ 53" by simp
  with assms(2) have "q < 2 ^ 53" by simp
  with assms(1) have ulp: "ulp_exponent q \<le> 0" by (rule ulp_exponent_small)
  define k where "k = nat (- ulp_exponent q)"
  have u: "?u = 1 / 2 ^ k" using ulp by (auto simp: pow2_def k_def)
  have "q / ?u = q * 2 ^ k" by (simp add: u)
  also have "\<dots> \<le> of_int n * 2 ^ k" using assms(2) by simp
  finally have "q / ?u \<le> of_int (n * 2 ^ k)" by simp
  then have "?m \<le> n * 2 ^ k" by (rule round_even_le)
  then have "(of_int ?m :: rat) \<le> of_int (n * 2 ^ k)" by (simp only: of_int_le_iff)
  then have le: "of_int ?m * ?u \<le> of_int n" by (simp add: u field_simps)
  have "of_int 0 \<le> q / ?u" using assms(1) by (simp add: less_imp_le)
  then have "0 \<le> ?m" by (rule round_even_ge)
  then have ge: "0 \<le> of_int ?m * ?u" by (simp add: less_imp_le)
  have "(2 :: rat) ^ 53 < 2 ^ 1024" by (rule power_strict_increasing) simp_all
  then have "\<bar>of_int ?m * ?u\<bar> < pow2 1024" using le ge n by (simp add: pow2_def)
  then have "fl q = Fin (of_int ?m * ?u)" using assms(1) by (simp add: fl_def Let_def)
  with le ge show ?thesis using that by blast
qed

lemma fl_positive:
  assumes "0 < q" "pow2 (- 1074) \<le> q" "fl q = Fin r"
  shows "0 < r"
proof -
  let ?u = "pow2 (ulp_exponent q)"
  have "pow2 (rat_exponent q - 52) \<le> pow2 (rat_exponent q)" by (rule pow2_mono) simp
  also have "\<dots> \<le> q" using assms(1) rat_exponent_bounds [of q] by auto
  finally have "?u \<le> q" using assms(2) by (simp add: ulp_exponent_def max_def)
  then have "of_int 1 \<le> q / ?u" by simp
  then have "1 \<le> round_even (q / ?u)" by (rule round_even_ge)
  moreover have "r = of_int (round_even (q / ?u)) * ?u"
    using assms by (auto simp: fl_def Let_def split: if_splits)
  ultimately show ?thesis by simp
qed

lemma float_of_int_exact:
  assumes "0 \<le> n" "n < 2 ^ 53"
  shows "float_of_int n = Fin (of_int n)"
proof (cases "n = 0")
  case True
  then show ?thesis by (simp add: float_of_int_def fl_def)
next
  case False
  let ?q = "of_int n :: rat" and ?u = "pow2 (ulp_exponent (of_int n))"
  have pos: "0 < ?q" using assms(1) False by simp
  have "?q < of_int (2 ^ 53)" using assms(2) by (simp only: of_int_less_iff)
  then have less: "?q < 2 ^ 53" by simp
  define k where "k = nat (- ulp_exponent ?q)"
  have u: "?u = 1 / 2 ^ k"
    using ulp_exponent_small [OF pos less] by (auto simp: pow2_def k_def)
  have "?q / ?u = of_int (n * 2 ^ k)" by (simp add: u)
  then have "round_even (?q / ?u) = n * 2 ^ k" by (simp only: round_even_of_int)
  then have r: "of_int (round_even (?q / ?u)) * ?u = ?q" by (simp add: u)
  have "(2 :: rat) ^ 53 < 2 ^ 1024" by (rule power_strict_increasing) simp_all
  then have "\<bar>?q\<bar> < pow2 1024" using less pos by (simp add: pow2_def)
  then show ?thesis using pos r by (simp add: float_of_int_def fl_def Let_def)
qed

lemma is_float_positive:
  assumes "is_float q" "0 < q"
  shows "pow2 (- 1074) \<le> q"
proof -
  let ?u = "pow2 (ulp_exponent q)"
  have q: "of_int (round_even (q / ?u)) * ?u = q"
    using assms by (auto simp: is_float_def fl_def Let_def split: if_splits)
  have "0 < of_int (round_even (q / ?u)) * ?u" using assms(2) by (simp only: q)
  moreover have "\<not> ?u < 0" using pow2_pos [of "ulp_exponent q"] by (simp only: not_less less_imp_le)
  ultimately have "0 < round_even (q / ?u)" by (simp add: zero_less_mult_iff)
  then have "(1 :: rat) \<le> of_int (round_even (q / ?u))" by simp
  then have "1 * ?u \<le> of_int (round_even (q / ?u)) * ?u"
    by (rule mult_right_mono) (simp add: less_imp_le)
  also have "\<dots> = q" by (rule q)
  finally have "?u \<le> q" by simp
  moreover have "pow2 (- 1074) \<le> ?u" by (rule pow2_mono) (simp add: ulp_exponent_def)
  ultimately show ?thesis by simp
qed

text \<open>The share of a number of nodes that a fraction asks for, rounded up, is between one and all.\<close>

lemma ceil_fraction_bounds:
  assumes "is_float f" "0 < f" "f \<le> 1" "0 < n" "n < 2 ^ 53"
  shows "1 \<le> int_of_float u (float_Ceil (float_mult (Fin f) (float_of_int n))) \<and>
    int_of_float u (float_Ceil (float_mult (Fin f) (float_of_int n))) \<le> n"
proof -
  have n: "(1 :: rat) \<le> of_int n" "0 \<le> n" using assms(4) by simp_all
  have prod: "0 < f * of_int n" "f * of_int n \<le> of_int n"
    using assms(2,3) n by (simp_all add: mult_left_le_one_le)
  then obtain r where r: "fl (f * of_int n) = Fin r" "0 \<le> r" "r \<le> of_int n"
    using fl_bounded_by_int assms(5) by blast
  have "pow2 (- 1074) \<le> f * 1" using is_float_positive [OF assms(1,2)] by simp
  also have "\<dots> \<le> f * of_int n" using assms(2) n(1) by (intro mult_left_mono) simp_all
  finally have "0 < r" using fl_positive [OF prod(1) _ r(1)] by simp
  with r have c: "1 \<le> \<lceil>r\<rceil>" "\<lceil>r\<rceil> \<le> n" by (simp_all add: ceiling_le_iff)
  have "n < 2 ^ 63" using assms(5) by simp
  with c have "in_int64 \<lceil>r\<rceil>" unfolding in_int64_def by linarith
  moreover have "float_of_int n = Fin (of_int n)" by (rule float_of_int_exact [OF n(2) assms(5)])
  ultimately show ?thesis using c \<open>0 < r\<close> r(1) by simp
qed

lemma is_float_half: "is_float (1 / 2)"
proof -
  have u: "ulp_exponent (1 / 2) = - 53" by code_simp
  have r: "round_even (of_int 4503599627370496) = 4503599627370496" by (rule round_even_of_int)
  have "(1 :: rat) < 2 ^ 1024" by (rule one_less_power) simp_all
  then show ?thesis using r by (simp add: is_float_def fl_def u pow2_def Let_def)
qed

end
