(* ===== verification/Config.thy ===== *)
theory Config
  imports GoErrors GoFloat
begin

text \<open>
  \<open>pkg/config/config.go\<close>: the configuration, its defaults, its validation and what other
  components derive from it.  Go's \<open>int\<close> fields are integers; the conversions to a duration wrap at
  64 bits as they do in the code.  The YAML decoder is an argument of \<open>decode\<close>.
\<close>

section \<open>Data\<close>

record detector_config =
  dc_Name :: string
  dc_Type :: string
  dc_Path :: string
  dc_Cmd :: "string list"
  dc_SuccessExitCodes :: "int list"
  dc_TimeoutSec :: int

record etcd_tls_config =
  tls_Enabled :: bool
  tls_CAFile :: string
  tls_CertFile :: string
  tls_KeyFile :: string
  tls_Insecure :: bool

record cluster_policies =
  MinHealthyFraction :: "float64 option"
  MinHealthyAbsolute :: "int option"
  ForbidIfOnlyFallbackLeft :: bool
  FallbackNodes :: "string list"

record windows_config =
  win_Deny :: "string list"
  win_Allow :: "string list"

record metrics_config =
  metrics_Enabled :: bool
  metrics_Listen :: string

record config =
  NodeName :: string
  RebootRequiredDetectors :: "detector_config list"
  HealthScript :: string
  HealthTimeoutSec :: int
  HealthPublishIntervalSec :: int
  CheckIntervalSec :: int
  BackoffMinSec :: int
  BackoffMaxSec :: int
  MinRebootIntervalSec :: int
  LockKey :: string
  LockTTLSec :: int
  EtcdEndpoints :: "string list"
  EtcdNamespace :: string
  EtcdTLS :: "etcd_tls_config option"
  RebootCommand :: "string list"
  ClusterPolicies :: cluster_policies
  Windows :: windows_config
  KillSwitchFile :: string
  Metrics :: metrics_config
  DryRun :: bool

section \<open>Validation\<close>

text \<open>\<open>if bad { problems = append(problems, text) }\<close>\<close>

definition problem :: "bool \<Rightarrow> string \<Rightarrow> string list" where
  "problem bad text = (if bad then [text] else [])"

definition blank :: "string \<Rightarrow> bool" where
  "blank s \<longleftrightarrow> TrimSpace s = []"

definition detector_validate :: "detector_config \<Rightarrow> string list" where
  "detector_validate d =
     (if blank (dc_Type d) then [''type is required'']
      else
        (if dc_Type d = ''file'' then
           problem (blank (dc_Path d)) ''path is required for file detectors''
         else if dc_Type d = ''command'' then
           problem (dc_Cmd d = []) ''cmd must contain at least one element for command detectors''
         else [''type '' @ Quote (dc_Type d) @ '' is not supported'']) @
        problem (dc_TimeoutSec d < 0) ''timeout_sec must be non-negative'')"

text \<open>The comparisons with a fraction are those of floats: both are false for NaN.\<close>

definition policies_validate :: "cluster_policies \<Rightarrow> string list" where
  "policies_validate p =
     (case MinHealthyFraction p of None \<Rightarrow> []
      | Some f \<Rightarrow> problem (float_le f 0 \<or> float_gt f 1)
          ''cluster_policies.min_healthy_fraction must be within (0,1]'') @
     (case MinHealthyAbsolute p of None \<Rightarrow> []
      | Some n \<Rightarrow> problem (n < 0) ''cluster_policies.min_healthy_absolute must be non-negative'')"

definition detector_problems :: "config \<Rightarrow> string list" where
  "detector_problems c =
     concat (map (\<lambda>(i, d). map (\<lambda>p. ''detector['' @ show_nat i @ '']: '' @ p) (detector_validate d))
       (enumerate 0 (RebootRequiredDetectors c)))"

definition tls_problems :: "config \<Rightarrow> string list" where
  "tls_problems c =
     (case EtcdTLS c of None \<Rightarrow> []
      | Some t \<Rightarrow>
        if tls_Enabled t then
          problem (blank (tls_CAFile t)) ''etcd_tls.ca_file is required when TLS is enabled'' @
          problem (blank (tls_CertFile t)) ''etcd_tls.cert_file is required when TLS is enabled'' @
          problem (blank (tls_KeyFile t)) ''etcd_tls.key_file is required when TLS is enabled''
        else [])"

definition config_problems :: "config \<Rightarrow> string list" where
  "config_problems c =
     problem (blank (NodeName c)) ''node_name is required'' @
     problem (RebootRequiredDetectors c = [])
       ''at least one reboot_required_detector must be configured'' @
     detector_problems c @
     problem (blank (HealthScript c)) ''health_script is required'' @
     problem (HealthTimeoutSec c \<le> 0) ''health_timeout_sec must be greater than zero'' @
     problem (HealthPublishIntervalSec c \<le> 0)
       ''health_publish_interval_sec must be greater than zero'' @
     problem (CheckIntervalSec c \<le> 0) ''check_interval_sec must be greater than zero'' @
     problem (BackoffMinSec c \<le> 0) ''backoff_min_sec must be greater than zero'' @
     problem (BackoffMaxSec c \<le> 0) ''backoff_max_sec must be greater than zero'' @
     problem (BackoffMaxSec c < BackoffMinSec c)
       ''backoff_max_sec must be greater than or equal to backoff_min_sec'' @
     problem (MinRebootIntervalSec c < 0) ''min_reboot_interval_sec must be non-negative'' @
     problem (LockTTLSec c \<le> 0) ''lock_ttl_sec must be greater than zero'' @
     problem (LockTTLSec c \<le> HealthTimeoutSec c)
       ''lock_ttl_sec must be greater than health_timeout_sec to avoid premature lease expiry'' @
     problem (blank (LockKey c)) ''lock_key is required'' @
     problem (EtcdEndpoints c = []) ''etcd_endpoints must contain at least one endpoint'' @
     tls_problems c @
     problem (RebootCommand c = []) ''reboot_command must specify the command to execute'' @
     policies_validate (ClusterPolicies c) @
     problem (metrics_Enabled (Metrics c) \<and> blank (metrics_Listen (Metrics c)))
       ''metrics.listen must be set when metrics.enabled is true''"

definition Validate :: "config \<Rightarrow> go_error option" where
  "Validate c =
     (if config_problems c \<noteq> [] then Some (ValidationError (config_problems c)) else None)"

section \<open>Defaults\<close>

definition default_name :: "nat \<Rightarrow> detector_config \<Rightarrow> string" where
  "default_name i d =
     (if dc_Type d = ''file'' then
        (if dc_Path d \<noteq> [] then ''file:'' @ dc_Path d else ''file-detector-'' @ show_nat i)
      else if dc_Type d = ''command'' then
        (case dc_Cmd d of c # cs \<Rightarrow> ''command:'' @ c | [] \<Rightarrow> ''command-detector-'' @ show_nat i)
      else ''detector-'' @ show_nat i)"

definition detector_applyDefaults :: "nat \<Rightarrow> detector_config \<Rightarrow> detector_config" where
  "detector_applyDefaults i d =
     (if \<not> blank (dc_Name d) then d else d\<lparr>dc_Name := default_name i d\<rparr>)"

definition or_default :: "int \<Rightarrow> int \<Rightarrow> int" where
  "or_default n d = (if n = 0 then d else n)"

definition applyDefaults :: "config \<Rightarrow> config" where
  "applyDefaults c = c\<lparr>
     HealthTimeoutSec := or_default (HealthTimeoutSec c) 30,
     HealthPublishIntervalSec := or_default (HealthPublishIntervalSec c) 15,
     CheckIntervalSec := or_default (CheckIntervalSec c) 60,
     BackoffMinSec := or_default (BackoffMinSec c) 5,
     BackoffMaxSec := or_default (BackoffMaxSec c) 60,
     LockKey := (if blank (LockKey c) then ''/cluster/clusterrebootd/lock'' else LockKey c),
     LockTTLSec := or_default (LockTTLSec c) 90,
     RebootCommand := (if RebootCommand c = []
       then [''/sbin/shutdown'', ''-r'', ''now'', ''coordinated kernel reboot''] else RebootCommand c),
     KillSwitchFile := (if KillSwitchFile c = [] then ''/etc/clusterrebootd/disable'' else KillSwitchFile c),
     Metrics := (if metrics_Listen (Metrics c) = []
       then (Metrics c)\<lparr>metrics_Listen := ''127.0.0.1:9090''\<rparr> else Metrics c),
     RebootRequiredDetectors :=
       map (\<lambda>(i, d). detector_applyDefaults i d) (enumerate 0 (RebootRequiredDetectors c))\<rparr>"

text \<open>\<open>yaml\<close> is the decoder of \<open>gopkg.in/yaml.v3\<close> with unknown fields rejected.\<close>

definition decode :: "(string \<Rightarrow> go_error + config) \<Rightarrow> string \<Rightarrow> go_error + config" where
  "decode yaml text =
     (case yaml text of
        Inl e \<Rightarrow> Inl (Wrapf ''parse config'' e)
      | Inr raw \<Rightarrow>
        (let cfg = applyDefaults raw in
         case Validate cfg of Some e \<Rightarrow> Inl e | None \<Rightarrow> Inr cfg))"

definition Load :: "(string \<Rightarrow> go_error + config) \<Rightarrow> (string \<Rightarrow> go_error + string) \<Rightarrow> string \<Rightarrow> go_error + config" where
  "Load yaml open_file path =
     (case open_file path of
        Inl e \<Rightarrow> Inl (Wrapf ''open config'' e)
      | Inr text \<Rightarrow> decode yaml text)"

section \<open>Derived values\<close>

text \<open>\<open>if cond { env[key] = value }\<close>\<close>

definition set_if :: "bool \<Rightarrow> string \<Rightarrow> string \<Rightarrow> (string \<rightharpoonup> string) \<Rightarrow> (string \<rightharpoonup> string)" where
  "set_if b k v m = (if b then m(k \<mapsto> v) else m)"

definition BaseEnvironment :: "config \<Rightarrow> (string \<rightharpoonup> string)" where
  "BaseEnvironment c =
     (let p = ClusterPolicies c; w = Windows c;
          env0 = [''RC_NODE_NAME'' \<mapsto> NodeName c, ''RC_DRY_RUN'' \<mapsto> FormatBool (DryRun c)];
          env1 = set_if (\<not> blank (LockKey c)) ''RC_LOCK_KEY'' (LockKey c) env0;
          env2 = set_if (EtcdEndpoints c \<noteq> []) ''RC_ETCD_ENDPOINTS'' (Join (EtcdEndpoints c) '','') env1;
          env3 = set_if (\<not> blank (KillSwitchFile c)) ''RC_KILL_SWITCH_FILE'' (KillSwitchFile c) env2;
          env4 = (case MinHealthyFraction p of None \<Rightarrow> env3
                  | Some f \<Rightarrow> env3(''RC_CLUSTER_MIN_HEALTHY_FRACTION'' \<mapsto> FormatFloat f));
          env5 = (case MinHealthyAbsolute p of None \<Rightarrow> env4
                  | Some n \<Rightarrow> env4(''RC_CLUSTER_MIN_HEALTHY_ABSOLUTE'' \<mapsto> Itoa n));
          env6 = env5(''RC_CLUSTER_FORBID_IF_ONLY_FALLBACK_LEFT'' \<mapsto>
                   FormatBool (ForbidIfOnlyFallbackLeft p));
          env7 = set_if (FallbackNodes p \<noteq> []) ''RC_CLUSTER_FALLBACK_NODES'' (Join (FallbackNodes p) '','') env6;
          env8 = set_if (win_Allow w \<noteq> []) ''RC_WINDOWS_ALLOW'' (Join (win_Allow w) '','') env7
      in set_if (win_Deny w \<noteq> []) ''RC_WINDOWS_DENY'' (Join (win_Deny w) '','') env8)"

definition HealthTimeout :: "config \<Rightarrow> duration" where
  "HealthTimeout c = seconds (HealthTimeoutSec c)"

definition HealthPublishInterval :: "config \<Rightarrow> duration" where
  "HealthPublishInterval c = seconds (HealthPublishIntervalSec c)"

definition LockTTL :: "config \<Rightarrow> duration" where
  "LockTTL c = seconds (LockTTLSec c)"

definition BackoffBounds :: "config \<Rightarrow> duration \<times> duration" where
  "BackoffBounds c = (seconds (BackoffMinSec c), seconds (BackoffMaxSec c))"

definition CheckInterval :: "config \<Rightarrow> duration" where
  "CheckInterval c = seconds (CheckIntervalSec c)"

definition RebootCooldownInterval :: "config \<Rightarrow> duration" where
  "RebootCooldownInterval c = seconds (MinRebootIntervalSec c)"

section \<open>What a valid configuration is\<close>

definition valid_detector :: "detector_config \<Rightarrow> bool" where
  "valid_detector d \<longleftrightarrow>
     (dc_Type d = ''file'' \<and> \<not> blank (dc_Path d) \<or> dc_Type d = ''command'' \<and> dc_Cmd d \<noteq> []) \<and>
     0 \<le> dc_TimeoutSec d"

definition valid_policies :: "cluster_policies \<Rightarrow> bool" where
  "valid_policies p \<longleftrightarrow>
     (case MinHealthyFraction p of Some (Fin q) \<Rightarrow> 0 < q \<and> q \<le> 1 | Some (Inf b) \<Rightarrow> False | _ \<Rightarrow> True) \<and>
     (case MinHealthyAbsolute p of Some n \<Rightarrow> 0 \<le> n | None \<Rightarrow> True)"

definition valid_tls :: "etcd_tls_config option \<Rightarrow> bool" where
  "valid_tls t \<longleftrightarrow>
     (case t of None \<Rightarrow> True
      | Some t \<Rightarrow> tls_Enabled t \<longrightarrow>
          \<not> blank (tls_CAFile t) \<and> \<not> blank (tls_CertFile t) \<and> \<not> blank (tls_KeyFile t))"

definition valid_config :: "config \<Rightarrow> bool" where
  "valid_config c \<longleftrightarrow>
     \<not> blank (NodeName c) \<and> \<not> blank (HealthScript c) \<and> \<not> blank (LockKey c) \<and>
     RebootRequiredDetectors c \<noteq> [] \<and> list_all valid_detector (RebootRequiredDetectors c) \<and>
     0 < HealthTimeoutSec c \<and> HealthTimeoutSec c < LockTTLSec c \<and>
     0 < HealthPublishIntervalSec c \<and> 0 < CheckIntervalSec c \<and>
     0 < BackoffMinSec c \<and> BackoffMinSec c \<le> BackoffMaxSec c \<and> 0 \<le> MinRebootIntervalSec c \<and>
     EtcdEndpoints c \<noteq> [] \<and> valid_tls (EtcdTLS c) \<and> RebootCommand c \<noteq> [] \<and>
     valid_policies (ClusterPolicies c) \<and>
     (metrics_Enabled (Metrics c) \<longrightarrow> \<not> blank (metrics_Listen (Metrics c)))"

lemma problem_Nil [simp]: "problem b t = [] \<longleftrightarrow> \<not> b"
  by (simp add: problem_def)

lemma not_blank_file_command: "\<not> blank ''file''" "\<not> blank ''command''"
  unfolding blank_def by code_simp+

lemma detector_validate_Nil: "detector_validate d = [] \<longleftrightarrow> valid_detector d"
  using not_blank_file_command
  by (auto simp: detector_validate_def valid_detector_def)

lemma policies_validate_Nil: "policies_validate p = [] \<longleftrightarrow> valid_policies p"
  by (auto simp: policies_validate_def valid_policies_def split: option.splits float64.splits)

lemma detector_problems_Nil:
  "detector_problems c = [] \<longleftrightarrow> list_all valid_detector (RebootRequiredDetectors c)"
proof -
  have "concat (map (\<lambda>(i, d). map (f i) (detector_validate d)) (enumerate n ds)) = [] \<longleftrightarrow>
      list_all valid_detector ds" for f :: "nat \<Rightarrow> string \<Rightarrow> string" and n ds
    by (induction ds arbitrary: n) (auto simp: detector_validate_Nil)
  from this [of "\<lambda>i p. ''detector['' @ show_nat i @ '']: '' @ p"]
  show ?thesis by (simp add: detector_problems_def)
qed

lemma tls_problems_Nil: "tls_problems c = [] \<longleftrightarrow> valid_tls (EtcdTLS c)"
  by (auto simp: tls_problems_def valid_tls_def split: option.splits)

lemma config_problems_Nil: "config_problems c = [] \<longleftrightarrow> valid_config c"
  by (auto simp: config_problems_def valid_config_def detector_problems_Nil tls_problems_Nil
           policies_validate_Nil)

lemma Validate_None: "Validate c = None \<longleftrightarrow> valid_config c"
  by (simp add: Validate_def config_problems_Nil)

lemma decode_Inr:
  "decode yaml text = Inr c \<longleftrightarrow>
     (\<exists>raw. yaml text = Inr raw \<and> c = applyDefaults raw \<and> valid_config c)"
  by (auto simp: decode_def Let_def Validate_None [symmetric] split: sum.splits option.splits)

section \<open>Defaults\<close>

lemma plain_byte_letters: "plain_byte (CHR ''f'')" "plain_byte (CHR ''c'')" "plain_byte (CHR ''d'')"
  by (auto simp: plain_byte_def space_encodings_def)

lemma default_name_not_blank: "\<not> blank (default_name i d)"
  by (auto simp: default_name_def blank_def TrimSpace_plain_hd plain_byte_letters split: list.splits)

lemma detector_applyDefaults_name: "\<not> blank (dc_Name (detector_applyDefaults i d))"
  by (simp add: detector_applyDefaults_def default_name_not_blank)

lemma detector_applyDefaults_idem:
  "detector_applyDefaults j (detector_applyDefaults i d) = detector_applyDefaults i d"
  using detector_applyDefaults_name [of i d] by (simp add: detector_applyDefaults_def)

lemma map_enumerate_idem:
  assumes "\<And>i j d. f j (f i d) = f i d"
  shows "map (\<lambda>(i, d). f i d) (enumerate n (map (\<lambda>(i, d). f i d) (enumerate m ds))) =
    map (\<lambda>(i, d). f i d) (enumerate m ds)"
  by (induction ds arbitrary: n m) (simp_all add: assms)

lemma or_default_idem [simp]: "or_default (or_default n d) d = or_default n d"
  by (simp add: or_default_def)

lemma not_blank_default_lock: "\<not> blank ''/cluster/clusterrebootd/lock''"
  unfolding blank_def by code_simp

lemma applyDefaults_idem: "applyDefaults (applyDefaults c) = applyDefaults c"
  using map_enumerate_idem [of detector_applyDefaults 0 0 "RebootRequiredDetectors c"]
  by (simp add: applyDefaults_def detector_applyDefaults_idem not_blank_default_lock)

lemma applyDefaults_detector_names:
  "d \<in> set (RebootRequiredDetectors (applyDefaults c)) \<Longrightarrow> \<not> blank (dc_Name d)"
  by (auto simp: applyDefaults_def detector_applyDefaults_name)

section \<open>Durations\<close>

text \<open>A configured number of seconds becomes a duration without wrapping as long as it fits in 64
  bits as nanoseconds, which is up to 9223372036 seconds (292 years).\<close>

definition fits_duration :: "int \<Rightarrow> bool" where
  "fits_duration n \<longleftrightarrow> n \<le> 9223372036"

lemma sint_seconds_fits: "0 \<le> n \<Longrightarrow> fits_duration n \<Longrightarrow> sint (seconds n) = n * 1000000000"
  by (rule sint_seconds_bounded) (simp_all add: fits_duration_def)

definition fits_durations :: "config \<Rightarrow> bool" where
  "fits_durations c \<longleftrightarrow> fits_duration (LockTTLSec c) \<and> fits_duration (BackoffMaxSec c) \<and>
     fits_duration (CheckIntervalSec c) \<and> fits_duration (HealthPublishIntervalSec c) \<and>
     fits_duration (MinRebootIntervalSec c)"

lemma valid_durations:
  assumes "valid_config c" "fits_durations c"
  shows "0 < sint (HealthTimeout c) \<and> sint (HealthTimeout c) < sint (LockTTL c) \<and>
    0 < sint (HealthPublishInterval c) \<and> 0 < sint (CheckInterval c) \<and>
    0 < sint (fst (BackoffBounds c)) \<and> sint (fst (BackoffBounds c)) \<le> sint (snd (BackoffBounds c)) \<and>
    sint (RebootCooldownInterval c) = MinRebootIntervalSec c * 1000000000 \<and>
    sint (LockTTL c) = LockTTLSec c * 1000000000"
proof -
  have v: "0 < HealthTimeoutSec c" "HealthTimeoutSec c < LockTTLSec c" "0 < HealthPublishIntervalSec c"
    "0 < CheckIntervalSec c" "0 < BackoffMinSec c" "BackoffMinSec c \<le> BackoffMaxSec c"
    "0 \<le> MinRebootIntervalSec c"
    using assms(1) by (simp_all add: valid_config_def)
  have f: "fits_duration (LockTTLSec c)" "fits_duration (BackoffMaxSec c)"
    "fits_duration (CheckIntervalSec c)" "fits_duration (HealthPublishIntervalSec c)"
    "fits_duration (MinRebootIntervalSec c)"
    using assms(2) by (simp_all add: fits_durations_def)
  moreover have "fits_duration (HealthTimeoutSec c)" "fits_duration (BackoffMinSec c)"
    using v f by (simp_all add: fits_duration_def)
  ultimately show ?thesis
    using v by (simp add: HealthTimeout_def LockTTL_def HealthPublishInterval_def CheckInterval_def
      BackoffBounds_def RebootCooldownInterval_def sint_seconds_fits)
qed

section \<open>Properties\<close>


text \<open>Filling in the defaults is idempotent, leaves every detector with a usable name, and never
  touches what the operator has set: the identity, the endpoints, the policies, the windows and
  every interval that is not zero.\<close>

lemma applyDefaults_conservative:
  "applyDefaults (applyDefaults c) = applyDefaults c \<and>
   list_all (\<lambda>d. \<not> blank (dc_Name d)) (RebootRequiredDetectors (applyDefaults c)) \<and>
   NodeName (applyDefaults c) = NodeName c \<and> EtcdEndpoints (applyDefaults c) = EtcdEndpoints c \<and>
   ClusterPolicies (applyDefaults c) = ClusterPolicies c \<and> Windows (applyDefaults c) = Windows c \<and>
   MinRebootIntervalSec (applyDefaults c) = MinRebootIntervalSec c \<and>
   LockTTLSec (applyDefaults c) = (if LockTTLSec c = 0 then 90 else LockTTLSec c) \<and>
   HealthTimeoutSec (applyDefaults c) = (if HealthTimeoutSec c = 0 then 30 else HealthTimeoutSec c)"
  using applyDefaults_idem [of c] applyDefaults_detector_names [of _ c]
  by (auto simp: list_all_iff) (auto simp: applyDefaults_def or_default_def)

text \<open>C24: In a configuration that loads, and whose numbers of seconds fit in a duration, the derived
  durations are what the constraints mean: the health script times out before the lock's lease
  expires, the back-off bounds are positive and in order, the loop and the heartbeat wait a positive
  time, and the cooldown is the configured number of seconds.\<close>

theorem loaded_durations:
  assumes "Load yaml open_file path = Inr c" "fits_durations c"
  shows "0 < sint (HealthTimeout c) \<and> sint (HealthTimeout c) < sint (LockTTL c) \<and>
    0 < sint (HealthPublishInterval c) \<and> 0 < sint (CheckInterval c) \<and>
    0 < sint (fst (BackoffBounds c)) \<and> sint (fst (BackoffBounds c)) \<le> sint (snd (BackoffBounds c)) \<and>
    sint (RebootCooldownInterval c) = MinRebootIntervalSec c * 1000000000 \<and>
    sint (LockTTL c) = LockTTLSec c * 1000000000"
proof -
  have "valid_config c"
    using assms(1) by (auto simp: Load_def decode_Inr split: sum.splits)
  then show ?thesis
    using assms(2) by (rule valid_durations)
qed

text \<open>A configuration file with only the required entries, as the decoder returns it.\<close>

definition minimal_config :: config where
  "minimal_config = \<lparr>NodeName = ''node-a'',
     RebootRequiredDetectors = [\<lparr>dc_Name = [], dc_Type = ''file'', dc_Path = ''/run/reboot'',
       dc_Cmd = [], dc_SuccessExitCodes = [], dc_TimeoutSec = 0\<rparr>],
     HealthScript = ''/bin/true'', HealthTimeoutSec = 0, HealthPublishIntervalSec = 0,
     CheckIntervalSec = 0, BackoffMinSec = 0, BackoffMaxSec = 0, MinRebootIntervalSec = 300,
     LockKey = [], LockTTLSec = 0, EtcdEndpoints = [''http://10.0.0.1:2379''], EtcdNamespace = [],
     EtcdTLS = None, RebootCommand = [],
     ClusterPolicies = \<lparr>MinHealthyFraction = Some (Fin (1 / 2)), MinHealthyAbsolute = None,
       ForbidIfOnlyFallbackLeft = False, FallbackNodes = []\<rparr>,
     Windows = \<lparr>win_Deny = [], win_Allow = []\<rparr>, KillSwitchFile = [],
     Metrics = \<lparr>metrics_Enabled = False, metrics_Listen = []\<rparr>, DryRun = False\<rparr>"

lemma minimal_config_loads:
  "Load (\<lambda>_. Inr minimal_config) (\<lambda>_. Inr []) p = Inr (applyDefaults minimal_config)"
proof -
  have "decode (\<lambda>_. Inr minimal_config) [] = Inr (applyDefaults minimal_config)"
    by code_simp
  then show ?thesis by (simp add: Load_def)
qed

theorem loaded_durations_witness:
  "sint (HealthTimeout (applyDefaults minimal_config)) < sint (LockTTL (applyDefaults minimal_config)) \<and>
   sint (RebootCooldownInterval (applyDefaults minimal_config)) = 300000000000"
proof -
  have "fits_durations (applyDefaults minimal_config)" by code_simp
  moreover have "MinRebootIntervalSec (applyDefaults minimal_config) = 300" by code_simp
  ultimately show ?thesis
    using loaded_durations [OF minimal_config_loads] by simp
qed

end
