(* ===== verification/GoWorld.thy ===== *)
theory GoWorld
  imports GoErrors GoTime
begin

text \<open>
  The operating system as the components use it: an argument of the model, a record of functions
  that pass the world along.  A context is asked for its error at the points where the code asks,
  and a child process is run to its end with an optional deadline; what it reports is what
  \<open>exec.Cmd.Run\<close> returns together with the error of the context it ran under.
\<close>

record process =
  proc_err :: "go_error option"
  proc_ctx_err :: "go_error option"
  proc_stdout :: string
  proc_stderr :: string

record 'w os =
  os_now :: "'w \<Rightarrow> gotime \<times> 'w"
  os_ctx_err :: "'w \<Rightarrow> go_error option \<times> 'w"
  os_stat :: "string \<Rightarrow> 'w \<Rightarrow> go_error option \<times> 'w"
  os_environ :: "'w \<Rightarrow> string list \<times> 'w"
  os_range :: "(string \<rightharpoonup> string) \<Rightarrow> 'w \<Rightarrow> string list \<times> 'w"
  os_run :: "duration option \<Rightarrow> string list \<Rightarrow> string list option \<Rightarrow> 'w \<Rightarrow> process \<times> 'w"

text \<open>\<open>exec.CommandContext\<close> under \<open>context.WithTimeout\<close> when there is a positive timeout.\<close>

definition deadline :: "duration \<Rightarrow> duration option" where
  "deadline timeout = (if 0 < sint timeout then Some timeout else None)"

text \<open>A loop over a map visits every key once, in an order of the runtime's choice.\<close>

definition visits :: "('k \<rightharpoonup> 'v) \<Rightarrow> 'k list \<Rightarrow> bool" where
  "visits m ks \<longleftrightarrow> distinct ks \<and> set ks = dom m"

lemma visits_get: "visits m ks \<Longrightarrow> k \<in> set ks \<Longrightarrow> \<exists>v. m k = Some v"
  by (auto simp: visits_def)

section \<open>Environments\<close>

text \<open>A variable of a process: the last \<open>key=value\<close> entry of its environment that names it
  counts, as \<open>os/exec\<close> removes earlier ones.\<close>

definition env_entry :: "string \<Rightarrow> string \<Rightarrow> string" where
  "env_entry k v = k @ CHR ''='' # v"

fun env_split :: "string \<Rightarrow> string \<times> string" where
  "env_split e = SplitAt (CHR ''='') e"

definition env_lookup :: "string list \<Rightarrow> string \<rightharpoonup> string" where
  "env_lookup env = map_of (map env_split (rev env))"

definition env_key :: "string \<Rightarrow> bool" where
  "env_key k \<longleftrightarrow> CHR ''='' \<notin> set k"

lemma env_lookup_Nil [simp]: "env_lookup [] = Map.empty"
  by (simp add: env_lookup_def)

lemma env_lookup_append: "env_lookup (xs @ ys) = env_lookup xs ++ env_lookup ys"
  by (simp add: env_lookup_def map_of_append)

lemma env_split_entry: "env_key k \<Longrightarrow> env_split (env_entry k v) = (k, v)"
  using SplitAt_append [of "CHR ''=''" k v] by (simp add: env_key_def env_entry_def)

lemma env_lookup_entries:
  assumes "visits m ks" "\<forall>k \<in> dom m. env_key k"
  shows "env_lookup (map (\<lambda>k. env_entry k (the (m k))) ks) = m"
proof
  fix k
  have keys: "\<forall>k \<in> set ks. env_key k" "distinct ks" "set ks = dom m"
    using assms by (auto simp: visits_def)
  have "map env_split (rev (map (\<lambda>k. env_entry k (the (m k))) ks)) = map (\<lambda>k. (k, the (m k))) (rev ks)"
    using keys(1) by (simp add: rev_map env_split_entry del: env_split.simps)
  then have "env_lookup (map (\<lambda>k. env_entry k (the (m k))) ks) k =
      map_of (map (\<lambda>k. (k, the (m k))) (rev ks)) k"
    by (simp add: env_lookup_def)
  also have "\<dots> = (if k \<in> set ks then Some (the (m k)) else None)"
    by (simp add: map_of_map_restrict)
  also have "\<dots> = m k"
    using keys(3) by (auto simp: dom_def)
  finally show "env_lookup (map (\<lambda>k. env_entry k (the (m k))) ks) k = m k" .
qed

end
