(* ===== verification/Detector.thy ===== *)
theory Detector
  imports GoWorld Config
begin

text \<open>
  \<open>pkg/detector\<close>: the probes that tell whether a reboot is needed, and the engine that runs them
  in order and aggregates their answers.
\<close>

section \<open>Detectors\<close>

record command_output =
  co_ExitCode :: int
  co_Stdout :: string
  co_Stderr :: string

record commandDetector =
  cd_name :: string
  cd_command :: "string list"
  cd_exitCodes :: "int set"
  cd_timeout :: duration

datatype detector = FileDetector string string | CommandDetector commandDetector

fun detector_Name :: "detector \<Rightarrow> string" where
  "detector_Name (FileDetector n p) = n"
| "detector_Name (CommandDetector d) = cd_name d"

definition newCommandDetector :: "detector_config \<Rightarrow> go_error + detector" where
  "newCommandDetector cfg =
     (if dc_Cmd cfg = [] then Inl (ErrMsg ''command detector requires cmd to be set'')
      else Inr (CommandDetector \<lparr>cd_name = dc_Name cfg, cd_command = dc_Cmd cfg,
        cd_exitCodes = set (dc_SuccessExitCodes cfg),
        cd_timeout = (if 0 < dc_TimeoutSec cfg then seconds (dc_TimeoutSec cfg) else 0)\<rparr>))"

definition NewFromConfig :: "detector_config \<Rightarrow> go_error + detector" where
  "NewFromConfig cfg =
     (if dc_Type cfg = ''file'' then Inr (FileDetector (dc_Name cfg) (dc_Path cfg))
      else if dc_Type cfg = ''command'' then newCommandDetector cfg
      else Inl (ErrMsg (''unsupported detector type '' @ Quote (dc_Type cfg))))"

definition NewAll :: "detector_config list \<Rightarrow> go_error + detector list" where
  "NewAll cfgs = map_result NewFromConfig cfgs"

definition file_Check :: "'w os \<Rightarrow> string \<Rightarrow> 'w \<Rightarrow> bool \<times> go_error option \<times> 'w" where
  "file_Check os path w =
     (case os_ctx_err os w of
        (Some e, w) \<Rightarrow> (False, Some e, w)
      | (None, w) \<Rightarrow>
        if blank path then (False, Some (ErrMsg ''file detector path must not be empty''), w)
        else (case os_stat os path w of
                (None, w) \<Rightarrow> (True, None, w)
              | (Some e, w) \<Rightarrow>
                if errors_Is e ErrNotExist then (False, None, w)
                else (False, Some (Wrapf (''stat '' @ path) e), w)))"

definition no_output :: command_output where
  "no_output = \<lparr>co_ExitCode = 0, co_Stdout = [], co_Stderr = []\<rparr>"

text \<open>What a finished command says, once it is known that its context did not end.\<close>

definition command_result :: "commandDetector \<Rightarrow> process \<Rightarrow> command_output \<times> go_error option" where
  "command_result d p =
     (let out = (\<lambda>code. \<lparr>co_ExitCode = code, co_Stdout = proc_stdout p, co_Stderr = proc_stderr p\<rparr>) in
      case proc_err p of
        None \<Rightarrow> (out 0, None)
      | Some (ExitError code) \<Rightarrow> (out code, None)
      | Some e \<Rightarrow> (no_output, Some (Wrapf (''command detector '' @ cd_name d @ '' failed'') e)))"

definition command_execute ::
    "'w os \<Rightarrow> commandDetector \<Rightarrow> 'w \<Rightarrow> command_output \<times> go_error option \<times> 'w" where
  "command_execute os d w =
     (let (p, w) = os_run os (deadline (cd_timeout d)) (cd_command d) None w in
      case proc_ctx_err p of
        Some e \<Rightarrow>
          if errors_Is e DeadlineExceeded then
            (no_output, Some (ErrMsg (''command detector '' @ cd_name d @ '' timed out after '' @
               DurationString (cd_timeout d))), w)
          else (no_output, Some e, w)
      | None \<Rightarrow> (let (out, err) = command_result d p in (out, err, w)))"

definition EvaluateCommand ::
    "'w os \<Rightarrow> commandDetector \<Rightarrow> 'w \<Rightarrow> bool \<times> command_output \<times> go_error option \<times> 'w" where
  "EvaluateCommand os d w =
     (let (out, err, w) = command_execute os d w in
      if err \<noteq> None then (False, out, err, w)
      else if cd_exitCodes d = {} then (co_ExitCode out \<noteq> 0, out, None, w)
      else (co_ExitCode out \<in> cd_exitCodes d, out, None, w))"

section \<open>Engine\<close>

record det_result =
  dr_Name :: string
  dr_RequiresReboot :: bool
  dr_Err :: "go_error option"
  dr_Duration :: duration
  dr_CommandOutput :: "command_output option"

record engine = eng_detectors :: "detector list"

fun engine_names :: "string list \<Rightarrow> detector list \<Rightarrow> go_error option" where
  "engine_names seen [] = None"
| "engine_names seen (d # ds) =
     (let name = TrimSpace (detector_Name d) in
      if name = [] then Some (ErrMsg ''detector name must not be empty'')
      else if name \<in> set seen then Some (ErrMsg (''duplicate detector name '' @ Quote name))
      else engine_names (name # seen) ds)"

definition NewEngine :: "detector list \<Rightarrow> go_error + engine" where
  "NewEngine ds =
     (if ds = [] then Inl (ErrMsg ''at least one detector must be configured'')
      else case engine_names [] ds of
        Some e \<Rightarrow> Inl e | None \<Rightarrow> Inr \<lparr>eng_detectors = ds\<rparr>)"

text \<open>One pass through the body of the loop of \<open>Engine.Evaluate\<close>.\<close>

definition evaluate_detector :: "'w os \<Rightarrow> detector \<Rightarrow> 'w \<Rightarrow> det_result \<times> 'w" where
  "evaluate_detector os d w =
     (let (start, w) = os_now os w;
          (required, output, err, w) =
            (case d of
               CommandDetector c \<Rightarrow> (let (r, out, err, w) = EvaluateCommand os c w in (r, Some out, err, w))
             | FileDetector n path \<Rightarrow> (let (r, err, w) = file_Check os path w in (r, None, err, w)));
          (finish, w) = os_now os w
      in (\<lparr>dr_Name = detector_Name d, dr_RequiresReboot = required, dr_Err = err,
           dr_Duration = time_Sub finish start, dr_CommandOutput = output\<rparr>, w))"

definition result_problem :: "det_result \<Rightarrow> string list" where
  "result_problem r =
     (case dr_Err r of None \<Rightarrow> [] | Some e \<Rightarrow> [dr_Name r @ '': '' @ error_text e])"

text \<open>The loop, with the results, the problems and the answer so far.\<close>

fun evaluate_loop :: "'w os \<Rightarrow> det_result list \<Rightarrow> string list \<Rightarrow> bool \<Rightarrow> detector list \<Rightarrow> 'w
    \<Rightarrow> bool \<times> det_result list \<times> go_error option \<times> 'w" where
  "evaluate_loop os results problems requires [] w =
     (requires, results, (if problems \<noteq> [] then Some (EvaluationError problems) else None), w)"
| "evaluate_loop os results problems requires (d # ds) w =
     (case os_ctx_err os w of
        (Some e, w) \<Rightarrow> (False, results, Some e, w)
      | (None, w) \<Rightarrow>
        (let (res, w) = evaluate_detector os d w; results' = results @ [res] in
         case dr_Err res of
           Some e \<Rightarrow>
             if is_context_error e then (False, results', Some e, w)
             else evaluate_loop os results' (problems @ result_problem res) requires ds w
         | None \<Rightarrow> evaluate_loop os results' problems (requires \<or> dr_RequiresReboot res) ds w))"

definition engine_Evaluate ::
    "'w os \<Rightarrow> engine \<Rightarrow> 'w \<Rightarrow> bool \<times> det_result list \<times> go_error option \<times> 'w" where
  "engine_Evaluate os e w = evaluate_loop os [] [] False (eng_detectors e) w"

section \<open>What the engine answers\<close>

lemma dr_Name_evaluate_detector: "dr_Name (fst (evaluate_detector os d w)) = detector_Name d"
  by (simp add: evaluate_detector_def split: prod.splits)

text \<open>
  The answer, abstractly: of the results of a run to the end, a reboot is required when some probe
  without an error says so, and the problems are those of the failing probes in order.
\<close>

definition any_requires :: "det_result list \<Rightarrow> bool" where
  "any_requires rs \<longleftrightarrow> (\<exists>r \<in> set rs. dr_Err r = None \<and> dr_RequiresReboot r)"

definition all_problems :: "det_result list \<Rightarrow> string list" where
  "all_problems rs = concat (map result_problem rs)"

definition complete_answer ::
    "detector list \<Rightarrow> bool \<times> det_result list \<times> go_error option \<Rightarrow> bool" where
  "complete_answer ds = (\<lambda>(req, rs, err).
     map dr_Name rs = map detector_Name ds \<and> req = any_requires rs \<and>
     \<not> list_ex (\<lambda>r. \<exists>e. dr_Err r = Some e \<and> is_context_error e) rs \<and>
     err = (if all_problems rs = [] then None else Some (EvaluationError (all_problems rs))))"

text \<open>A run that is cut short returns the error of its context, never a requirement, and the
  results of the probes it got to.\<close>

definition aborted_answer ::
    "detector list \<Rightarrow> bool \<times> det_result list \<times> go_error option \<Rightarrow> bool" where
  "aborted_answer ds = (\<lambda>(req, rs, err).
     \<not> req \<and> (\<exists>e n. err = Some e \<and> is_context_error e \<and>
       map dr_Name rs = take n (map detector_Name ds)))"

definition honest_context :: "'w os \<Rightarrow> bool" where
  "honest_context os \<longleftrightarrow> (\<forall>w e. fst (os_ctx_err os w) = Some e \<longrightarrow> is_context_error e)"

lemma aborted_answerI:
  "is_context_error e \<Longrightarrow> map dr_Name rs = take n (map detector_Name ds) \<Longrightarrow>
    aborted_answer ds (False, rs, Some e)"
  unfolding aborted_answer_def by blast

lemma result_problem_Nil: "result_problem r = [] \<longleftrightarrow> dr_Err r = None"
  by (simp add: result_problem_def split: option.splits)

lemma evaluate_loop_answer:
  assumes "honest_context os"
    and "evaluate_loop os rs (all_problems rs) (any_requires rs) ds w = (req, out, err, w')"
    and "\<not> list_ex (\<lambda>r. \<exists>e. dr_Err r = Some e \<and> is_context_error e) rs"
    and "map dr_Name rs = map detector_Name prev"
  shows "complete_answer (prev @ ds) (req, out, err) \<or> aborted_answer (prev @ ds) (req, out, err)"
  using assms(2-4)
proof (induction ds arbitrary: rs w prev)
  case Nil
  then show ?case by (auto simp: complete_answer_def)
next
  case (Cons d ds)
  obtain c w1 where ctx: "os_ctx_err os w = (c, w1)" by force
  show ?case
  proof (cases c)
    case (Some e)
    then have "is_context_error e" using assms(1) ctx by (simp add: honest_context_def) (metis fst_conv)
    moreover have "map dr_Name rs = take (length prev) (map detector_Name (prev @ d # ds))"
      using Cons.prems(3) by simp
    ultimately have "aborted_answer (prev @ d # ds) (False, rs, Some e)"
      by (rule aborted_answerI)
    then show ?thesis using Some Cons.prems(1) ctx by simp
  next
    case None
    obtain r w2 where r: "evaluate_detector os d w1 = (r, w2)" by force
    then have name: "dr_Name r = detector_Name d"
      using dr_Name_evaluate_detector [of os d w1] by simp
    have prev': "map dr_Name (rs @ [r]) = map detector_Name (prev @ [d])"
      using Cons.prems(3) name by simp
    have upd: "all_problems (rs @ [r]) = all_problems rs @ result_problem r"
      "any_requires (rs @ [r]) = (any_requires rs \<or> (dr_Err r = None \<and> dr_RequiresReboot r))"
      by (auto simp: all_problems_def any_requires_def)
    show ?thesis
    proof (cases "\<exists>e. dr_Err r = Some e \<and> is_context_error e")
      case True
      then obtain e where e: "dr_Err r = Some e" "is_context_error e" by auto
      have "map dr_Name (rs @ [r]) = take (Suc (length prev)) (map detector_Name (prev @ d # ds))"
        using prev' by simp
      with e(2) have "aborted_answer (prev @ d # ds) (False, rs @ [r], Some e)"
        by (rule aborted_answerI)
      then show ?thesis using e Cons.prems(1) ctx None r by simp
    next
      case False
      have "evaluate_loop os (rs @ [r]) (all_problems (rs @ [r])) (any_requires (rs @ [r])) ds w2 =
          (req, out, err, w')"
        using Cons.prems(1) ctx None r False upd
        by (auto simp: result_problem_def split: option.splits)
      from Cons.IH [OF this _ prev'] Cons.prems(2) False show ?thesis by simp
    qed
  qed
qed

lemma engine_names_None:
  "engine_names seen ds = None \<longleftrightarrow>
     list_all (\<lambda>d. \<not> blank (detector_Name d)) ds \<and>
     distinct (map (TrimSpace \<circ> detector_Name) ds) \<and>
     set seen \<inter> set (map (TrimSpace \<circ> detector_Name) ds) = {}"
  by (induction seen ds rule: engine_names.induct) (auto simp: Let_def blank_def)

section \<open>From the configuration\<close>

lemma NewFromConfig_name: "NewFromConfig c = Inr d \<Longrightarrow> detector_Name d = dc_Name c"
  by (auto simp: NewFromConfig_def newCommandDetector_def split: if_splits)

lemma NewFromConfig_valid: "valid_detector c \<Longrightarrow> \<exists>d. NewFromConfig c = Inr d"
  by (auto simp: valid_detector_def NewFromConfig_def newCommandDetector_def)

lemma NewAll_names: "NewAll cs = Inr ds \<Longrightarrow> map detector_Name ds = map dc_Name cs"
  by (auto simp: NewAll_def map_result_Inr_iff list_all2_conv_all_nth NewFromConfig_name
      intro: nth_equalityI)

lemma NewAll_valid: "list_all valid_detector cs \<Longrightarrow> \<exists>ds. NewAll cs = Inr ds"
  unfolding NewAll_def by (rule map_result_total) (auto simp: list_all_iff NewFromConfig_valid)

section \<open>Properties\<close>

text \<open>C16: The engine runs every probe, in order, and aggregates soundly.  When no probe meets the end
  of the context, each detector has exactly one result, a reboot is required exactly when some probe
  succeeded and said so (a failing probe never hides another's answer), and the error lists exactly
  the failing probes.  Otherwise the engine returns the context's error with the results so far, and
  never a requirement.\<close>

theorem engine_Evaluate_answer:
  assumes "honest_context os"
    and "engine_Evaluate os e w = (req, results, err, w')"
  shows "complete_answer (eng_detectors e) (req, results, err) \<or>
    aborted_answer (eng_detectors e) (req, results, err)"
  using evaluate_loop_answer [OF assms(1), of "[]" "eng_detectors e" w req results err w' "[]"] assms(2)
  by (simp add: engine_Evaluate_def all_problems_def any_requires_def)

text \<open>An operating system with one file, on which every command exits with status 3.\<close>

definition demo_os :: "unit os" where
  "demo_os = \<lparr>os_now = \<lambda>w. (zero_time, w), os_ctx_err = \<lambda>w. (None, w),
     os_stat = (\<lambda>p w. (if p = ''/run/reboot'' then None else Some (Sentinel ErrNotExist), w)),
     os_environ = \<lambda>w. ([''PATH=/bin''], w), os_range = \<lambda>m w. ([], w),
     os_run = (\<lambda>t cmd env w. (\<lparr>proc_err = Some (ExitError 3), proc_ctx_err = None,
       proc_stdout = ''out'', proc_stderr = []\<rparr>, w))\<rparr>"

definition demo_engine :: engine where
  "demo_engine = \<lparr>eng_detectors = [FileDetector ''blank'' '' '', FileDetector ''file'' ''/run/reboot'',
     CommandDetector \<lparr>cd_name = ''cmd'', cd_command = [''needs-restarting''], cd_exitCodes = {1},
       cd_timeout = 0\<rparr>]\<rparr>"

lemma demo_engine_run:
  "fst (engine_Evaluate demo_os demo_engine ()) \<and>
   fst (snd (snd (engine_Evaluate demo_os demo_engine ()))) =
     Some (EvaluationError [''blank: file detector path must not be empty''])"
  by code_simp

theorem engine_Evaluate_answer_witness:
  "\<exists>rs. complete_answer (eng_detectors demo_engine)
     (True, rs, Some (EvaluationError [''blank: file detector path must not be empty'']))"
proof -
  obtain req rs err where run: "engine_Evaluate demo_os demo_engine () = (req, rs, err, ())"
    by (metis old.unit.exhaust prod_cases4)
  with demo_engine_run have req: "req" "err = Some (EvaluationError [''blank: file detector path must not be empty''])"
    by auto
  have "honest_context demo_os" by (simp add: honest_context_def demo_os_def)
  from engine_Evaluate_answer [OF this run] req show ?thesis
    by (auto simp: aborted_answer_def)
qed

text \<open>A loaded configuration can be turned into an engine unless two detectors have the same name:
  every detector of the configuration is built, in order and under its name, and \<open>NewEngine\<close> then
  fails exactly when two names agree up to surrounding blanks.\<close>

lemma loaded_detectors:
  assumes "Load yaml open_file path = Inr c"
  shows "\<exists>ds. NewAll (RebootRequiredDetectors c) = Inr ds \<and>
    map detector_Name ds = map dc_Name (RebootRequiredDetectors c) \<and>
    NewEngine ds = (if distinct (map (TrimSpace \<circ> dc_Name) (RebootRequiredDetectors c))
                    then Inr \<lparr>eng_detectors = ds\<rparr>
                    else Inl (the (engine_names [] ds)))"
proof -
  from assms obtain raw where c: "c = applyDefaults raw" "valid_config c"
    by (auto simp: Load_def decode_Inr split: sum.splits)
  then have nonempty: "RebootRequiredDetectors c \<noteq> []"
    and valid: "list_all valid_detector (RebootRequiredDetectors c)"
    by (auto simp: valid_config_def)
  from NewAll_valid [OF valid] obtain ds where ds: "NewAll (RebootRequiredDetectors c) = Inr ds" ..
  note names = NewAll_names [OF ds]
  then have len: "ds \<noteq> []" using nonempty by (metis map_is_Nil_conv)
  have "list_all (\<lambda>n. \<not> blank n) (map detector_Name ds)"
    using applyDefaults_detector_names [of _ raw] c(1) by (auto simp: names list_all_iff)
  then have named: "list_all (\<lambda>d. \<not> blank (detector_Name d)) ds"
    by (simp add: list_all_iff)
  have "map (TrimSpace \<circ> detector_Name) ds = map (TrimSpace \<circ> dc_Name) (RebootRequiredDetectors c)"
    using names by (simp flip: map_map)
  then have "engine_names [] ds = None \<longleftrightarrow> distinct (map (TrimSpace \<circ> dc_Name) (RebootRequiredDetectors c))"
    using named by (simp add: engine_names_None)
  then have "NewEngine ds = (if distinct (map (TrimSpace \<circ> dc_Name) (RebootRequiredDetectors c))
                    then Inr \<lparr>eng_detectors = ds\<rparr> else Inl (the (engine_names [] ds)))"
    using len by (auto simp: NewEngine_def split: option.splits)
  with ds names show ?thesis by blast
qed

lemma loaded_engine_example:
  "\<exists>ds. NewAll (RebootRequiredDetectors (applyDefaults minimal_config)) = Inr ds \<and>
    NewEngine ds = Inr \<lparr>eng_detectors = ds\<rparr>"
proof -
  have "map dc_Name (RebootRequiredDetectors (applyDefaults minimal_config)) = [''file:/run/reboot'']"
    by code_simp
  then show ?thesis
    using loaded_detectors [OF minimal_config_loads] by (auto simp flip: map_map)
qed

end
