(* ===== verification/HealthScript.thy ===== *)
theory HealthScript
  imports GoWorld Config
begin

text \<open>
  \<open>pkg/health/script.go\<close>: running the operator's health script with a timeout and an environment
  made of the process's own, the runner's and the caller's.
\<close>

record script_runner =
  sr_path :: string
  sr_timeout :: duration
  sr_env :: "string \<rightharpoonup> string"

record health_result =
  hr_ExitCode :: int
  hr_Stdout :: string
  hr_Stderr :: string
  hr_Duration :: duration

definition IsAbs :: "string \<Rightarrow> bool" where
  "IsAbs p \<longleftrightarrow> HasPrefix p ''/''"

definition NewScriptRunner :: "string \<Rightarrow> duration \<Rightarrow> (string \<rightharpoonup> string) \<Rightarrow> go_error + script_runner" where
  "NewScriptRunner path timeout baseEnv =
     (let cleaned = TrimSpace path in
      if cleaned = [] then Inl (ErrMsg ''health script path must not be empty'')
      else if \<not> IsAbs cleaned then Inl (ErrMsg (''health script path must be absolute: '' @ path))
      else Inr \<lparr>sr_path = cleaned, sr_timeout = timeout, sr_env = baseEnv\<rparr>)"

definition formatEnv :: "'w os \<Rightarrow> (string \<rightharpoonup> string) \<Rightarrow> 'w \<Rightarrow> string list \<times> 'w" where
  "formatEnv os values w =
     (let (ks, w) = os_range os values w in (map (\<lambda>k. env_entry k (the (values k))) ks, w))"

definition script_env ::
    "'w os \<Rightarrow> (string \<rightharpoonup> string) \<Rightarrow> (string \<rightharpoonup> string) \<Rightarrow> 'w \<Rightarrow> string list \<times> 'w" where
  "script_env os base extra w =
     (let (inherited, w) = os_environ os w;
          (b, w) = formatEnv os base w;
          (x, w) = formatEnv os extra w
      in (inherited @ b @ x, w))"

text \<open>What a finished script means, once its output and duration are recorded.\<close>

definition script_result ::
    "script_runner \<Rightarrow> process \<Rightarrow> health_result \<Rightarrow> health_result \<times> go_error option" where
  "script_result r p result =
     (case proc_ctx_err p of
        Some e \<Rightarrow>
          if errors_Is e DeadlineExceeded
          then (result, Some (ErrMsg (''health script timed out after '' @ DurationString (sr_timeout r))))
          else (result, Some e)
      | None \<Rightarrow>
        (case proc_err p of
           None \<Rightarrow> (result\<lparr>hr_ExitCode := 0\<rparr>, None)
         | Some (ExitError code) \<Rightarrow> (result\<lparr>hr_ExitCode := code\<rparr>, None)
         | Some e \<Rightarrow> (result, Some (Wrapf ''health script execution failed'' e))))"

definition script_Run :: "'w os \<Rightarrow> script_runner \<Rightarrow> (string \<rightharpoonup> string) \<Rightarrow> 'w
    \<Rightarrow> health_result \<times> go_error option \<times> 'w" where
  "script_Run os r extraEnv w =
     (let (env, w) = script_env os (sr_env r) extraEnv w;
          (start, w) = os_now os w;
          (p, w) = os_run os (deadline (sr_timeout r)) [sr_path r] (Some env) w;
          (finish, w) = os_now os w;
          (result, err) = script_result r p
            \<lparr>hr_ExitCode = 0, hr_Stdout = proc_stdout p, hr_Stderr = proc_stderr p,
             hr_Duration = time_Sub finish start\<rparr>
      in (result, err, w))"

section \<open>Properties\<close>

text \<open>The runtime visits every key of a map once.\<close>

definition ranges_maps :: "'w os \<Rightarrow> bool" where
  "ranges_maps os \<longleftrightarrow> (\<forall>m w. finite (dom m) \<longrightarrow> visits m (fst (os_range os m w)))"

lemma formatEnv_lookup:
  assumes "ranges_maps os" "finite (dom m)" "\<forall>k \<in> dom m. env_key k"
  shows "env_lookup (fst (formatEnv os m w)) = m"
  using assms env_lookup_entries [of m "fst (os_range os m w)"]
  by (simp add: formatEnv_def ranges_maps_def split_beta)

text \<open>C28: The environment of the health script does not depend on the order in which the runtime
  visits the maps: a variable has the caller's value if the caller sets it, else the runner's, else
  the one inherited from the daemon.\<close>

theorem script_env_precedence:
  assumes "ranges_maps os" "finite (dom base)" "finite (dom extra)"
    and "\<forall>k \<in> dom base \<union> dom extra. env_key k"
  shows "env_lookup (fst (script_env os base extra w)) =
    env_lookup (fst (os_environ os w)) ++ base ++ extra"
  using assms
  by (simp add: script_env_def env_lookup_append split: prod.splits)
     (metis Un_iff fst_conv formatEnv_lookup)

text \<open>A system that visits the keys of a map in the order of the strings.\<close>

definition sorted_os :: "unit os" where
  "sorted_os = \<lparr>os_now = \<lambda>w. (zero_time, w), os_ctx_err = \<lambda>w. (None, w),
     os_stat = \<lambda>p w. (None, w), os_environ = \<lambda>w. ([''RC_PHASE=shell'', ''PATH=/bin''], w),
     os_range = \<lambda>m w. (sorted_list_of_set (dom m), w),
     os_run = (\<lambda>t cmd env w. (\<lparr>proc_err = Some (ExitError 7), proc_ctx_err = None,
       proc_stdout = ''bad'', proc_stderr = []\<rparr>, w))\<rparr>"

lemma sorted_os_ranges: "ranges_maps sorted_os"
  by (simp add: ranges_maps_def sorted_os_def visits_def)

theorem script_env_precedence_witness:
  "env_lookup (fst (script_env sorted_os [''RC_NODE_NAME'' \<mapsto> ''a''] [''RC_PHASE'' \<mapsto> ''pre-lock''] ()))
     ''RC_PHASE'' = Some ''pre-lock''"
  using script_env_precedence [OF sorted_os_ranges, of "[''RC_NODE_NAME'' \<mapsto> ''a'']"
      "[''RC_PHASE'' \<mapsto> ''pre-lock'']" "()"]
  by (simp add: env_key_def)

text \<open>C27: A health script counts as having answered only if it ran to its end inside its timeout.
  The runner returns no error exactly when the context did not end and the process exited, and the
  exit code is then the process's, zero for a clean exit; a script that times out is an error, and
  never an exit code that could be taken for healthy.\<close>

theorem script_Run_answer:
  assumes "script_Run os r extra w = (result, err, w')"
  shows "\<exists>p env w1 w2. os_run os (deadline (sr_timeout r)) [sr_path r] (Some env) w1 = (p, w2) \<and>
    env = fst (script_env os (sr_env r) extra w) \<and>
    (err = None) = (proc_ctx_err p = None \<and>
       (proc_err p = None \<or> (\<exists>code. proc_err p = Some (ExitError code)))) \<and>
    (err = None \<and> hr_ExitCode result = 0) =
       (proc_ctx_err p = None \<and> proc_err p \<in> {None, Some (ExitError 0)}) \<and>
    (err \<noteq> None \<or> proc_err p = Some (ExitError (hr_ExitCode result)) \<or>
       proc_err p = None \<and> hr_ExitCode result = 0)"
proof -
  obtain env w1 start w2 where pre: "script_env os (sr_env r) extra w = (env, w1)"
    "os_now os w1 = (start, w2)" by (metis surj_pair)
  obtain p w3 finish w4 where run: "os_run os (deadline (sr_timeout r)) [sr_path r] (Some env) w2 = (p, w3)"
    "os_now os w3 = (finish, w4)" by (metis surj_pair)
  let ?init = "\<lparr>hr_ExitCode = 0, hr_Stdout = proc_stdout p, hr_Stderr = proc_stderr p,
    hr_Duration = time_Sub finish start\<rparr>"
  have out: "script_result r p ?init = (result, err)"
    using assms pre run by (auto simp: script_Run_def split_beta prod_eq_iff)
  have "(err = None) = (proc_ctx_err p = None \<and>
       (proc_err p = None \<or> (\<exists>code. proc_err p = Some (ExitError code))))"
    "(err = None \<and> hr_ExitCode result = 0) =
       (proc_ctx_err p = None \<and> proc_err p \<in> {None, Some (ExitError 0)})"
    "err \<noteq> None \<or> proc_err p = Some (ExitError (hr_ExitCode result)) \<or>
       proc_err p = None \<and> hr_ExitCode result = 0"
    using out
    by (cases "proc_ctx_err p"; cases "proc_err p";
        auto simp: script_result_def split: go_error.splits if_splits)+
  with pre run show ?thesis by (intro exI [of _ p] exI [of _ env] exI [of _ w2] exI [of _ w3]) simp
qed

definition demo_runner :: script_runner where
  "demo_runner = \<lparr>sr_path = ''/usr/bin/health'', sr_timeout = 0, sr_env = Map.empty\<rparr>"

theorem script_Run_answer_witness:
  "fst (snd (script_Run sorted_os demo_runner Map.empty ())) = None \<and>
   hr_ExitCode (fst (script_Run sorted_os demo_runner Map.empty ())) = 7"
proof -
  obtain result err where run: "script_Run sorted_os demo_runner Map.empty () = (result, err, ())"
    by (metis old.unit.exhaust prod_cases3)
  from script_Run_answer [OF run] have "err = None \<and> hr_ExitCode result = 7"
    by (auto simp: sorted_os_def)
  with run show ?thesis by simp
qed

text \<open>The health script of a loaded configuration is accepted exactly when its path is absolute,
  and the runner then uses that path without surrounding blanks, and a positive timeout.\<close>

lemma loaded_script_runner:
  assumes "Load yaml open_file path = Inr c" "fits_durations c"
  shows "NewScriptRunner (HealthScript c) (HealthTimeout c) (BaseEnvironment c) =
     (if IsAbs (TrimSpace (HealthScript c))
      then Inr \<lparr>sr_path = TrimSpace (HealthScript c), sr_timeout = HealthTimeout c,
                sr_env = BaseEnvironment c\<rparr>
      else Inl (ErrMsg (''health script path must be absolute: '' @ HealthScript c))) \<and>
     deadline (HealthTimeout c) = Some (HealthTimeout c)"
proof -
  have "valid_config c"
    using assms(1) by (auto simp: Load_def decode_Inr split: sum.splits)
  then show ?thesis
    using assms(2) valid_durations
    by (auto simp: NewScriptRunner_def Let_def valid_config_def blank_def deadline_def)
qed

end
