(* ===== verification/Observability.thy ===== *)
theory Observability
  imports GoWorld GoFloat
begin

text \<open>
  \<open>pkg/observability\<close> and \<open>pkg/orchestrator/reporter.go\<close>: events and metrics, the JSON
  logger, the Prometheus collector and the reporter that passes both on.  Go copies maps where the
  receiver might change them; in the model a map is a value, so a copy is the map.
\<close>

section \<open>Events and metrics\<close>

datatype level = LevelInfo | LevelWarn | LevelError

datatype field =
    VStr string | VBool bool | VInt int | VMaps "(string \<Rightarrow> field option) list"

type_synonym fields = "string \<rightharpoonup> field"

record event =
  e_Timestamp :: gotime
  e_Level :: level
  e_Node :: string
  e_Component :: string
  e_Event :: string
  e_Message :: string
  e_Fields :: fields

definition event_Clone :: "event \<Rightarrow> event" where
  "event_Clone e = e\<lparr>e_Fields := e_Fields e\<rparr>"

datatype metric_type = MetricCounter | MetricHistogram | MetricOther string

record metric =
  m_Name :: string
  m_Type :: metric_type
  m_Value :: float64
  m_Labels :: "string \<rightharpoonup> string"
  m_Description :: string
  m_Unit :: string

text \<open>\<open>fields[key] = value\<close> under a condition.\<close>

definition put_if :: "bool \<Rightarrow> string \<Rightarrow> field \<Rightarrow> fields \<Rightarrow> fields" where
  "put_if b k v f = (if b then f(k \<mapsto> v) else f)"

section \<open>Logging\<close>

text \<open>\<open>marshal\<close> is \<open>json.Marshal\<close>, and the writer may fail; an unconfigured logger has none.\<close>

record 'w json_logger =
  jl_marshal :: "event \<Rightarrow> go_error + string"
  jl_now :: "'w \<Rightarrow> gotime \<times> 'w"
  jl_write :: "(string \<Rightarrow> 'w \<Rightarrow> go_error option \<times> 'w) option"

definition NewJSONLogger :: "(event \<Rightarrow> go_error + string) \<Rightarrow> ('w \<Rightarrow> gotime \<times> 'w)
    \<Rightarrow> (string \<Rightarrow> 'w \<Rightarrow> go_error option \<times> 'w) option \<Rightarrow> 'w json_logger" where
  "NewJSONLogger marshal now w = \<lparr>jl_marshal = marshal, jl_now = now, jl_write = w\<rparr>"

definition JSONLogger_Log :: "'w json_logger \<Rightarrow> event \<Rightarrow> 'w \<Rightarrow> go_error option \<times> 'w" where
  "JSONLogger_Log l e w =
     (case jl_write l of
        None \<Rightarrow> (Some (ErrMsg ''json logger is not configured''), w)
      | Some write \<Rightarrow>
        (let (e, w) = (if IsZero (e_Timestamp e)
                       then (let (t, w) = jl_now l w in (e\<lparr>e_Timestamp := t\<rparr>, w)) else (e, w)) in
         case jl_marshal l e of
           Inl err \<Rightarrow> (Some (Wrapf ''marshal event'' err), w)
         | Inr payload \<Rightarrow>
           (case write (payload @ [CHR 0x0A]) w of
              (Some err, w) \<Rightarrow> (Some (Wrapf ''write event'' err), w)
            | (None, w) \<Rightarrow> (None, w))))"

record 'w reporter =
  rep_node :: string
  rep_component :: string
  rep_logger :: "(event \<Rightarrow> 'w \<Rightarrow> go_error option \<times> 'w) option"
  rep_metrics :: "(metric \<Rightarrow> 'w \<Rightarrow> 'w) option"

definition NewStructuredReporter :: "string \<Rightarrow> (event \<Rightarrow> 'w \<Rightarrow> go_error option \<times> 'w) option
    \<Rightarrow> (metric \<Rightarrow> 'w \<Rightarrow> 'w) option \<Rightarrow> 'w reporter" where
  "NewStructuredReporter node logger metrics =
     \<lparr>rep_node = node, rep_component = ''orchestrator'', rep_logger = logger, rep_metrics = metrics\<rparr>"

definition reporter_RecordEvent :: "'w reporter \<Rightarrow> event \<Rightarrow> 'w \<Rightarrow> 'w" where
  "reporter_RecordEvent r e w =
     (case rep_logger r of
        None \<Rightarrow> w
      | Some emit \<Rightarrow>
        (let c = event_Clone e;
             c = (if e_Node c = [] then c\<lparr>e_Node := rep_node r\<rparr> else c);
             c = (if e_Component c = [] then c\<lparr>e_Component := rep_component r\<rparr> else c)
         in snd (emit c w)))"

definition reporter_RecordMetric :: "'w reporter \<Rightarrow> metric \<Rightarrow> 'w \<Rightarrow> 'w" where
  "reporter_RecordMetric r m w =
     (case rep_metrics r of None \<Rightarrow> w | Some collect \<Rightarrow> collect m w)"

section \<open>The Prometheus collector\<close>

text \<open>
  A vector of the client library is described by its options; \<open>register\<close> is
  \<open>Registry.Register\<close>, which may refuse it.  \<open>With(labels)\<close> panics unless the labels are
  exactly those the vector declares, so the samples are a log of the calls that the properties check.
  \<open>order\<close> is the order in which the runtime visits the keys of a map.
\<close>

record prom_vec =
  pv_kind :: metric_type
  pv_name :: string
  pv_help :: string
  pv_const_labels :: "string \<rightharpoonup> string"
  pv_labels :: "string list"

record sample =
  s_vec :: prom_vec
  s_labels :: "string \<rightharpoonup> string"
  s_value :: float64

record 'p collector =
  registry :: 'p
  counters :: "string \<rightharpoonup> prom_vec"
  counterLabels :: "string \<Rightarrow> string list"
  histograms :: "string \<rightharpoonup> prom_vec"
  histogramLabels :: "string \<Rightarrow> string list"
  samples :: "sample list"

definition sortedKeys :: "((string \<rightharpoonup> string) \<Rightarrow> string list) \<Rightarrow> (string \<rightharpoonup> string) \<Rightarrow> string list" where
  "sortedKeys order m = sort (order m)"

definition helpText :: "metric \<Rightarrow> string" where
  "helpText m =
     (if TrimSpace (m_Description m) \<noteq> [] then m_Description m
      else if m_Unit m \<noteq> [] then m_Name m @ '' ('' @ m_Unit m @ '')''
      else m_Name m)"

fun float_neg :: "float64 \<Rightarrow> bool" where
  "float_neg NaN = False"
| "float_neg (Inf p) = (\<not> p)"
| "float_neg (Fin q) = (q < 0)"

definition add_sample :: "prom_vec \<Rightarrow> (string \<rightharpoonup> string) \<Rightarrow> float64 \<Rightarrow> 'p collector \<Rightarrow> 'p collector" where
  "add_sample v labels x c =
     c\<lparr>samples := samples c @ [\<lparr>s_vec = v, s_labels = labels, s_value = x\<rparr>]\<rparr>"

definition collectCounter :: "((string \<rightharpoonup> string) \<Rightarrow> string list) \<Rightarrow> (prom_vec \<Rightarrow> 'p \<Rightarrow> bool \<times> 'p)
    \<Rightarrow> metric \<Rightarrow> 'p collector \<Rightarrow> 'p collector" where
  "collectCounter order register m c =
     (let value = (if float_neg (m_Value m) then Fin 0 else m_Value m);
          labels = m_Labels m;
          labelNames = sortedKeys order labels in
      case counters c (m_Name m) of
        Some vec \<Rightarrow>
          if counterLabels c (m_Name m) \<noteq> labelNames then c else add_sample vec labels value c
      | None \<Rightarrow>
        (let vec = \<lparr>pv_kind = MetricCounter, pv_name = m_Name m, pv_help = helpText m,
               pv_const_labels = Map.empty, pv_labels = labelNames\<rparr>;
             (ok, reg) = register vec (registry c); c = c\<lparr>registry := reg\<rparr> in
         if \<not> ok then c
         else add_sample vec labels value
           (c\<lparr>counters := (counters c)(m_Name m \<mapsto> vec),
              counterLabels := (counterLabels c)(m_Name m := labelNames)\<rparr>)))"

definition collectHistogram :: "((string \<rightharpoonup> string) \<Rightarrow> string list) \<Rightarrow> (prom_vec \<Rightarrow> 'p \<Rightarrow> bool \<times> 'p)
    \<Rightarrow> metric \<Rightarrow> 'p collector \<Rightarrow> 'p collector" where
  "collectHistogram order register m c =
     (let labels = m_Labels m;
          labelNames = sortedKeys order labels in
      case histograms c (m_Name m) of
        Some vec \<Rightarrow>
          if histogramLabels c (m_Name m) \<noteq> labelNames then c
          else add_sample vec labels (m_Value m) c
      | None \<Rightarrow>
        (let vec = \<lparr>pv_kind = MetricHistogram, pv_name = m_Name m, pv_help = helpText m,
               pv_const_labels = (if m_Unit m \<noteq> [] then [''unit'' \<mapsto> m_Unit m] else Map.empty),
               pv_labels = labelNames\<rparr>;
             (ok, reg) = register vec (registry c); c = c\<lparr>registry := reg\<rparr> in
         if \<not> ok then c
         else add_sample vec labels (m_Value m)
           (c\<lparr>histograms := (histograms c)(m_Name m \<mapsto> vec),
              histogramLabels := (histogramLabels c)(m_Name m := labelNames)\<rparr>)))"

definition Collect :: "((string \<rightharpoonup> string) \<Rightarrow> string list) \<Rightarrow> (prom_vec \<Rightarrow> 'p \<Rightarrow> bool \<times> 'p)
    \<Rightarrow> metric \<Rightarrow> 'p collector \<Rightarrow> 'p collector" where
  "Collect order register m c =
     (if m_Name m = [] then c
      else case m_Type m of
        MetricCounter \<Rightarrow> collectCounter order register m c
      | MetricHistogram \<Rightarrow> collectHistogram order register m c
      | MetricOther _ \<Rightarrow> c)"

definition NewPrometheusCollector :: "'p \<Rightarrow> 'p collector" where
  "NewPrometheusCollector reg =
     \<lparr>registry = reg, counters = Map.empty, counterLabels = (\<lambda>_. []),
      histograms = Map.empty, histogramLabels = (\<lambda>_. []), samples = []\<rparr>"

section \<open>The collector never misuses the client library\<close>

text \<open>A sample is fit when \<open>With\<close> and \<open>Add\<close> do not panic on it: its labels are the declared
  ones, and what a counter is increased by is not negative.\<close>

definition fit_sample :: "sample \<Rightarrow> bool" where
  "fit_sample s \<longleftrightarrow> dom (s_labels s) = set (pv_labels (s_vec s)) \<and>
     (pv_kind (s_vec s) \<noteq> MetricCounter \<or> \<not> float_neg (s_value s))"

definition vec_table :: "metric_type \<Rightarrow> (string \<rightharpoonup> prom_vec) \<Rightarrow> (string \<Rightarrow> string list) \<Rightarrow> bool" where
  "vec_table k vecs names \<longleftrightarrow>
     (\<forall>n v. vecs n = Some v \<longrightarrow> pv_kind v = k \<and> pv_name v = n \<and> pv_labels v = names n)"

text \<open>The samples of one name and kind all go to the one vector that is in the table.\<close>

definition at_home :: "(string \<rightharpoonup> prom_vec) \<Rightarrow> (string \<rightharpoonup> prom_vec) \<Rightarrow> sample \<Rightarrow> bool" where
  "at_home cs hs s \<longleftrightarrow>
     (if pv_kind (s_vec s) = MetricCounter then cs else hs) (pv_name (s_vec s)) = Some (s_vec s)"

definition collector_ok :: "'p collector \<Rightarrow> bool" where
  "collector_ok c \<longleftrightarrow>
     vec_table MetricCounter (counters c) (counterLabels c) \<and>
     vec_table MetricHistogram (histograms c) (histogramLabels c) \<and>
     list_all fit_sample (samples c) \<and>
     list_all (at_home (counters c) (histograms c)) (samples c)"

lemma at_home_new:
  "at_home cs hs s \<Longrightarrow> cs n = None \<Longrightarrow> at_home (cs(n \<mapsto> v)) hs s"
  "at_home cs hs s \<Longrightarrow> hs n = None \<Longrightarrow> at_home cs (hs(n \<mapsto> v)) s"
  by (auto simp: at_home_def)

lemma list_all_at_home_new:
  "list_all (at_home cs hs) ss \<Longrightarrow> cs n = None \<Longrightarrow> list_all (at_home (cs(n \<mapsto> v)) hs) ss"
  "list_all (at_home cs hs) ss \<Longrightarrow> hs n = None \<Longrightarrow> list_all (at_home cs (hs(n \<mapsto> v))) ss"
  by (auto simp: at_home_new elim: list.pred_mono_strong)

lemma at_home_sample:
  "pv_kind v = MetricCounter \<Longrightarrow> cs (pv_name v) = Some v \<Longrightarrow>
    at_home cs hs \<lparr>s_vec = v, s_labels = ls, s_value = x\<rparr>"
  "pv_kind v = MetricHistogram \<Longrightarrow> hs (pv_name v) = Some v \<Longrightarrow>
    at_home cs hs \<lparr>s_vec = v, s_labels = ls, s_value = x\<rparr>"
  by (simp_all add: at_home_def)

lemma vec_table_update:
  "vec_table k vecs names \<Longrightarrow> pv_kind v = k \<Longrightarrow> pv_name v = n \<Longrightarrow> pv_labels v = ls \<Longrightarrow>
    vec_table k (vecs(n \<mapsto> v)) (names(n := ls))"
  by (auto simp: vec_table_def)

lemma vec_tableD: "vec_table k vecs names \<Longrightarrow> vecs n = Some v \<Longrightarrow>
    pv_kind v = k \<and> pv_name v = n \<and> pv_labels v = names n"
  by (simp add: vec_table_def)

lemma fit_sampleI:
  "visits labels (order labels) \<Longrightarrow> pv_labels v = sortedKeys order labels \<Longrightarrow>
   pv_kind v \<noteq> MetricCounter \<or> \<not> float_neg x \<Longrightarrow>
   fit_sample \<lparr>s_vec = v, s_labels = labels, s_value = x\<rparr>"
  by (auto simp: fit_sample_def sortedKeys_def visits_def)

lemma collectCounter_ok:
  assumes "collector_ok c" "visits (m_Labels m) (order (m_Labels m))"
  shows "collector_ok (collectCounter order register m c)"
proof -
  let ?x = "if float_neg (m_Value m) then Fin 0 else m_Value m"
  have x: "\<not> float_neg ?x" by simp
  note fit = fit_sampleI [of "m_Labels m" order, OF assms(2) _ disjI2 [OF x]]
  show ?thesis
  proof (cases "counters c (m_Name m)")
    case None
    then show ?thesis
      using assms(1) fit
      by (auto simp: collectCounter_def collector_ok_def add_sample_def Let_def
          intro!: vec_table_update list_all_at_home_new at_home_sample(1) split: prod.splits)
  next
    case (Some v)
    with assms(1) have v: "pv_kind v = MetricCounter \<and> pv_name v = m_Name m \<and>
        pv_labels v = counterLabels c (m_Name m)"
      by (auto simp: collector_ok_def dest: vec_tableD)
    with Some assms(1) fit show ?thesis
      by (auto simp: collectCounter_def collector_ok_def add_sample_def Let_def intro!: at_home_sample(1))
  qed
qed

lemma collectHistogram_ok:
  assumes "collector_ok c" "visits (m_Labels m) (order (m_Labels m))"
  shows "collector_ok (collectHistogram order register m c)"
proof -
  note fit = fit_sampleI [of "m_Labels m" order, OF assms(2)]
  show ?thesis
  proof (cases "histograms c (m_Name m)")
    case None
    then show ?thesis
      using assms(1) fit
      by (auto simp: collectHistogram_def collector_ok_def add_sample_def Let_def
          intro!: vec_table_update list_all_at_home_new at_home_sample(2) split: prod.splits)
  next
    case (Some v)
    with assms(1) have v: "pv_kind v = MetricHistogram \<and> pv_name v = m_Name m \<and>
        pv_labels v = histogramLabels c (m_Name m)"
      by (auto simp: collector_ok_def dest: vec_tableD)
    with Some assms(1) fit show ?thesis
      by (auto simp: collectHistogram_def collector_ok_def add_sample_def Let_def intro!: at_home_sample(2))
  qed
qed

lemma Collect_ok:
  "collector_ok c \<Longrightarrow> visits (m_Labels m) (order (m_Labels m)) \<Longrightarrow>
    collector_ok (Collect order register m c)"
  by (simp add: Collect_def collectCounter_ok collectHistogram_ok split: metric_type.split)

lemma NewPrometheusCollector_ok: "collector_ok (NewPrometheusCollector reg)"
  by (simp add: NewPrometheusCollector_def collector_ok_def vec_table_def)

lemma fold_Collect_ok:
  "collector_ok c \<Longrightarrow> \<forall>m \<in> set ms. visits (m_Labels m) (order (m_Labels m)) \<Longrightarrow>
    collector_ok (fold (Collect order register) ms c)"
  by (induction ms arbitrary: c) (simp_all add: Collect_ok)

lemma collector_ok_samples:
  "collector_ok c \<Longrightarrow> s \<in> set (samples c) \<Longrightarrow>
    fit_sample s \<and> at_home (counters c) (histograms c) s"
  by (simp add: collector_ok_def list_all_iff)

section \<open>Properties\<close>


definition demo_metric :: "int \<Rightarrow> string \<Rightarrow> metric" where
  "demo_metric x l = \<lparr>m_Name = ''health_checks_total'', m_Type = MetricCounter, m_Value = Fin (of_int x),
     m_Labels = [l \<mapsto> ''v''], m_Description = [], m_Unit = []\<rparr>"

definition demo_order :: "(string \<rightharpoonup> string) \<Rightarrow> string list" where
  "demo_order m = List.filter (\<lambda>k. m k \<noteq> None) [''phase'', ''result'']"

definition demo_collector :: "nat collector" where
  "demo_collector = fold (Collect demo_order (\<lambda>v n. (True, n + 1)))
     [demo_metric 1 ''phase'', demo_metric 5 ''result'', demo_metric (- 3) ''phase'']
     (NewPrometheusCollector 0)"


end
