(* ===== verification/RunnerBase.thy ===== *)
theory RunnerBase
  imports Detector HealthScript Observability Windows
begin

text \<open>
  The data of \<open>pkg/orchestrator/runner.go\<close>: the runner, its outcomes, the memory it keeps
  between passes, and the components it is given.  Go passes those as interfaces; here they are a
  record of functions that pass the world along.  Every call the runner makes is written to a trace
  with the answer it got, which is what the safety properties speak about.  The last field is what
  the implementation makes of a float that does not fit the integer it is converted to.
\<close>

section \<open>Data of the coordination packages\<close>

text \<open>\<open>pkg/clusterhealth/manager.go\<close> and \<open>pkg/cooldown/cooldown.go\<close>; a lease of
  \<open>pkg/lock\<close> is an identity.\<close>

record cluster_record =
  cr_Node :: string
  cr_Healthy :: bool
  cr_Stage :: string
  cr_Reason :: string
  cr_ReportedAt :: gotime

record health_report =
  hp_Stage :: string
  hp_Reason :: string

record cooldown_status =
  cs_Active :: bool
  cs_Node :: string
  cs_StartedAt :: gotime
  cs_ExpiresAt :: gotime
  cs_Remaining :: duration

type_synonym lease = nat

section \<open>Outcomes\<close>

datatype outcome_status =
    OutcomeNoAction | OutcomeKillSwitch | OutcomeHealthBlocked | OutcomeWindowDenied
  | OutcomeWindowOutside | OutcomeLockUnavailable | OutcomeLockSkipped | OutcomeRecheckCleared
  | OutcomeCooldownActive | OutcomeReady

fun status_text :: "outcome_status \<Rightarrow> string" where
  "status_text OutcomeNoAction = ''no_action''"
| "status_text OutcomeKillSwitch = ''kill_switch_active''"
| "status_text OutcomeHealthBlocked = ''health_blocked''"
| "status_text OutcomeWindowDenied = ''window_denied''"
| "status_text OutcomeWindowOutside = ''window_outside_allow''"
| "status_text OutcomeLockUnavailable = ''lock_unavailable''"
| "status_text OutcomeLockSkipped = ''lock_skipped''"
| "status_text OutcomeRecheckCleared = ''recheck_cleared''"
| "status_text OutcomeCooldownActive = ''cooldown_active''"
| "status_text OutcomeReady = ''ready''"

text \<open>
  The empty status of the zero \<open>Outcome\<close> is \<open>None\<close>.  The three closures an outcome carries
  are determined by what they capture: the lease to release, and the interval of the cooldown to
  start or clear.
\<close>

record outcome =
  Status :: "outcome_status option"
  Message :: string
  out_DryRun :: bool
  LockAcquired :: bool
  DetectorResults :: "det_result list"
  PostLockDetectorResults :: "det_result list"
  PreLockHealthResult :: "health_result option"
  PreLockHealthPhase :: string
  PostLockHealthResult :: "health_result option"
  PostLockHealthPhase :: string
  Command :: "string list"
  ClusterUnhealthy :: "cluster_record list"
  lockRelease :: "lease option"
  cooldownStart :: "duration option"
  cooldownClear :: bool
  cooldownStarted :: bool

definition empty_outcome :: outcome where
  "empty_outcome = \<lparr>Status = None, Message = [], out_DryRun = False, LockAcquired = False,
     DetectorResults = [], PostLockDetectorResults = [], PreLockHealthResult = None,
     PreLockHealthPhase = [], PostLockHealthResult = None, PostLockHealthPhase = [], Command = [],
     ClusterUnhealthy = [], lockRelease = None, cooldownStart = None, cooldownClear = False,
     cooldownStarted = False\<rparr>"

section \<open>The runner\<close>

record runner =
  r_cfg :: config
  r_killSwitchPath :: string
  r_maxLockTries :: int
  r_lockEnabled :: bool
  r_lockSkipReason :: string
  r_cooldownWindow :: duration
  r_commandEnv :: "string \<rightharpoonup> string"
  r_healthReporting :: bool
  r_cooldown :: bool
  r_clusterHealth :: bool
  r_windows :: "evaluator option"

record outcomeSummary =
  os_Status :: "outcome_status option"
  os_Message :: string
  os_DryRun :: bool
  os_LockAcquired :: bool

record clusterStatusSummary =
  sum_Attempted :: bool
  sum_Result :: string
  sum_Total :: nat
  sum_Healthy :: nat
  sum_Unhealthy :: nat
  sum_Error :: string
  sum_UnhealthyKey :: string

definition empty_summary :: clusterStatusSummary where
  "empty_summary = \<lparr>sum_Attempted = False, sum_Result = [], sum_Total = 0, sum_Healthy = 0,
     sum_Unhealthy = 0, sum_Error = [], sum_UnhealthyKey = []\<rparr>"

record clusterPeerState =
  peer_Healthy :: bool
  peer_Stage :: string
  peer_Reason :: string
  peer_ReportedAt :: gotime

section \<open>Calls, reports and the state\<close>

datatype call =
    CheckKill "bool \<times> go_error option"
  | WindowDecision decision
  | EvaluateDetectors bool "go_error option"
  | RunHealth "string \<rightharpoonup> string" "int \<times> go_error option"
  | HealthStatus "cluster_record list \<times> go_error option"
  | ReportHealthy "go_error option"
  | ReportUnhealthy health_report "go_error option"
  | CooldownStatus "cooldown_status \<times> go_error option"
  | CooldownStart duration "go_error option"
  | Acquire "go_error + lease"
  | Release lease "go_error option"
  | Sleep duration "go_error option"
  | Execute "string list" "go_error option"

datatype report = RecordEvent event | RecordMetric metric

record 'w st =
  st_world :: 'w
  st_calls :: "call list"
  st_reports :: "report list"
  st_lastOutcome :: "outcomeSummary option"
  st_summaries :: "string \<rightharpoonup> clusterStatusSummary"
  st_peers :: "string \<rightharpoonup> clusterPeerState"

record 'w deps =
  d_time :: "'w \<Rightarrow> gotime \<times> 'w"
  d_now :: "'w \<Rightarrow> gotime \<times> 'w"
  d_checkKill :: "string \<Rightarrow> 'w \<Rightarrow> (bool \<times> go_error option) \<times> 'w"
  d_evaluate :: "'w \<Rightarrow> (bool \<times> det_result list \<times> go_error option) \<times> 'w"
  d_health :: "(string \<rightharpoonup> string) \<Rightarrow> 'w \<Rightarrow> (health_result \<times> go_error option) \<times> 'w"
  d_clusterStatus :: "'w \<Rightarrow> (cluster_record list \<times> go_error option) \<times> 'w"
  d_reportHealthy :: "'w \<Rightarrow> go_error option \<times> 'w"
  d_reportUnhealthy :: "health_report \<Rightarrow> 'w \<Rightarrow> go_error option \<times> 'w"
  d_cooldownStatus :: "'w \<Rightarrow> (cooldown_status \<times> go_error option) \<times> 'w"
  d_cooldownStart :: "duration \<Rightarrow> 'w \<Rightarrow> go_error option \<times> 'w"
  d_acquire :: "'w \<Rightarrow> (go_error + lease) \<times> 'w"
  d_release :: "lease \<Rightarrow> 'w \<Rightarrow> go_error option \<times> 'w"
  d_sleep :: "duration \<Rightarrow> 'w \<Rightarrow> go_error option \<times> 'w"
  d_random :: "int \<Rightarrow> 'w \<Rightarrow> int \<times> 'w"
  d_getenv :: "'w \<Rightarrow> string \<Rightarrow> string"
  d_peerOrder :: "(string \<rightharpoonup> clusterPeerState) \<Rightarrow> 'w \<Rightarrow> string list \<times> 'w"
  d_report :: "report \<Rightarrow> 'w \<Rightarrow> 'w"
  d_unrepresentable :: int

text \<open>A call that is written to the trace, a silent one, and a report.\<close>

definition invoke :: "('w \<Rightarrow> 'a \<times> 'w) \<Rightarrow> ('a \<Rightarrow> call) \<Rightarrow> 'w st \<Rightarrow> 'a \<times> 'w st" where
  "invoke f c s =
     (let (x, w) = f (st_world s) in (x, s\<lparr>st_world := w, st_calls := st_calls s @ [c x]\<rparr>))"

definition silent :: "('w \<Rightarrow> 'a \<times> 'w) \<Rightarrow> 'w st \<Rightarrow> 'a \<times> 'w st" where
  "silent f s = (let (x, w) = f (st_world s) in (x, s\<lparr>st_world := w\<rparr>))"

definition report :: "'w deps \<Rightarrow> report \<Rightarrow> 'w st \<Rightarrow> 'w st" where
  "report d x s = s\<lparr>st_world := d_report d x (st_world s), st_reports := st_reports s @ [x]\<rparr>"

text \<open>The reporter is given a metric, or an event under the name of the node; an event's time and
  component are left to the reporter.\<close>

definition emit_metric :: "'w deps \<Rightarrow> string \<Rightarrow> metric_type \<Rightarrow> float64 \<Rightarrow> (string \<rightharpoonup> string) \<Rightarrow> string
    \<Rightarrow> string \<Rightarrow> 'w st \<Rightarrow> 'w st" where
  "emit_metric d name ty value labels desc unit s =
     report d (RecordMetric \<lparr>m_Name = name, m_Type = ty, m_Value = value, m_Labels = labels,
       m_Description = desc, m_Unit = unit\<rparr>) s"

definition count_metric :: "'w deps \<Rightarrow> string \<Rightarrow> (string \<rightharpoonup> string) \<Rightarrow> string \<Rightarrow> 'w st \<Rightarrow> 'w st" where
  "count_metric d name labels desc s = emit_metric d name MetricCounter (Fin 1) labels desc [] s"

definition time_metric :: "'w deps \<Rightarrow> string \<Rightarrow> duration \<Rightarrow> (string \<rightharpoonup> string) \<Rightarrow> string \<Rightarrow> 'w st \<Rightarrow> 'w st" where
  "time_metric d name t labels desc s =
     emit_metric d name MetricHistogram (Seconds t) labels desc ''seconds'' s"

definition emit_event :: "'w deps \<Rightarrow> runner \<Rightarrow> level \<Rightarrow> string \<Rightarrow> fields \<Rightarrow> 'w st \<Rightarrow> 'w st" where
  "emit_event d r lvl name fs s =
     report d (RecordEvent \<lparr>e_Timestamp = zero_time, e_Level = lvl, e_Node = NodeName (r_cfg r),
       e_Component = [], e_Event = name, e_Message = [], e_Fields = fs\<rparr>) s"

section \<open>Frames\<close>

text \<open>Reports and silent calls leave the trace and the memory of the runner alone.\<close>

named_theorems quiet \<open>operations that make no traced call\<close>

lemma invoke_calls [frame_simps]:
  "st_calls (snd (invoke f c s)) = st_calls s @ [c (fst (invoke f c s))]"
  by (simp add: invoke_def split_beta)

lemma invoke_rest [frame_simps]:
  "st_reports (snd (invoke f c s)) = st_reports s"
  "st_lastOutcome (snd (invoke f c s)) = st_lastOutcome s"
  "st_summaries (snd (invoke f c s)) = st_summaries s"
  "st_peers (snd (invoke f c s)) = st_peers s"
  by (simp_all add: invoke_def split_beta)

lemma silent_rest [frame_simps, quiet]:
  "st_calls (snd (silent f s)) = st_calls s"
  "st_reports (snd (silent f s)) = st_reports s"
  "st_lastOutcome (snd (silent f s)) = st_lastOutcome s"
  "st_summaries (snd (silent f s)) = st_summaries s"
  "st_peers (snd (silent f s)) = st_peers s"
  by (simp_all add: silent_def split_beta)

lemma report_rest [frame_simps, quiet]:
  "st_calls (report d x s) = st_calls s"
  "st_lastOutcome (report d x s) = st_lastOutcome s"
  "st_summaries (report d x s) = st_summaries s"
  "st_peers (report d x s) = st_peers s"
  by (simp_all add: report_def)

lemma emit_rest [frame_simps, quiet]:
  "st_calls (emit_metric d name ty value labels desc unit s) = st_calls s"
  "st_calls (count_metric d name labels desc s) = st_calls s"
  "st_calls (time_metric d name t labels desc s) = st_calls s"
  "st_calls (emit_event d r lvl name fs s) = st_calls s"
  "st_lastOutcome (emit_metric d name ty value labels desc unit s) = st_lastOutcome s"
  "st_lastOutcome (count_metric d name labels desc s) = st_lastOutcome s"
  "st_lastOutcome (time_metric d name t labels desc s) = st_lastOutcome s"
  "st_lastOutcome (emit_event d r lvl name fs s) = st_lastOutcome s"
  "st_summaries (emit_metric d name ty value labels desc unit s) = st_summaries s"
  "st_summaries (count_metric d name labels desc s) = st_summaries s"
  "st_summaries (time_metric d name t labels desc s) = st_summaries s"
  "st_summaries (emit_event d r lvl name fs s) = st_summaries s"
  "st_peers (emit_metric d name ty value labels desc unit s) = st_peers s"
  "st_peers (count_metric d name labels desc s) = st_peers s"
  "st_peers (time_metric d name t labels desc s) = st_peers s"
  "st_peers (emit_event d r lvl name fs s) = st_peers s"
  by (simp_all add: emit_metric_def count_metric_def time_metric_def emit_event_def report_rest)

end
