(* ===== verification/RunnerRecord.thy ===== *)
theory RunnerRecord
  imports RunnerBase
begin

text \<open>
  The \<open>record...\<close> functions of \<open>pkg/orchestrator/runner.go\<close>: what each step of a pass tells
  the reporter, a metric or two and an event, in the order of the code.  None of them makes a traced
  call or changes what the runner remembers, except \<open>recordOutcome\<close>, which keeps the last
  outcome it reported and reports an outcome as an event only when it differs.
\<close>

abbreviation error_string :: "go_error option \<Rightarrow> string" where
  "error_string e \<equiv> (case e of None \<Rightarrow> [] | Some e \<Rightarrow> error_text e)"

definition recordWindowDecision :: "'w deps \<Rightarrow> runner \<Rightarrow> decision \<Rightarrow> 'w st \<Rightarrow> 'w st" where
  "recordWindowDecision d r dec s =
     (let f0 = [''allowed'' \<mapsto> VBool (Allowed dec)];
          f1 = put_if (AllowConfigured dec) ''allow_configured'' (VBool True) f0;
          (result, lvl, fs) =
            (case MatchedDeny dec of
               Some e \<Rightarrow> (''deny'', LevelWarn, f1(''matched_expression'' \<mapsto> VStr e))
             | None \<Rightarrow>
               if AllowConfigured dec then
                 (case MatchedAllow dec of
                    Some e \<Rightarrow> (''allowed'', LevelInfo, f1(''matched_expression'' \<mapsto> VStr e))
                  | None \<Rightarrow> (''outside_allow'', LevelWarn, f1))
               else (''allowed'', LevelInfo, f1));
          s = count_metric d ''window_evaluations_total'' [''result'' \<mapsto> result]
                ''Number of maintenance window evaluations grouped by result.'' s
      in emit_event d r lvl ''maintenance_window'' fs s)"

definition recordKillSwitch :: "'w deps \<Rightarrow> runner \<Rightarrow> string \<Rightarrow> bool \<Rightarrow> go_error option \<Rightarrow> 'w st \<Rightarrow> 'w st" where
  "recordKillSwitch d r stage active err s =
     (let f0 = [''stage'' \<mapsto> VStr stage, ''active'' \<mapsto> VBool active];
          (result, lvl, fs) =
            (case err of
               Some e \<Rightarrow> (''error'', LevelError, f0(''error'' \<mapsto> VStr (error_text e)))
             | None \<Rightarrow> if active then (''active'', LevelWarn, f0) else (''inactive'', LevelInfo, f0));
          s = count_metric d ''kill_switch_checks_total'' [''stage'' \<mapsto> stage, ''result'' \<mapsto> result]
                ''Number of kill switch evaluations grouped by stage and result.'' s
      in emit_event d r lvl ''kill_switch'' fs s)"

definition detector_summary :: "det_result \<Rightarrow> fields" where
  "detector_summary res =
     (let f0 = [''name'' \<mapsto> VStr (dr_Name res), ''requires'' \<mapsto> VBool (dr_RequiresReboot res),
                ''duration_ms'' \<mapsto> VInt (Milliseconds (dr_Duration res))];
          f1 = (case dr_Err res of None \<Rightarrow> f0 | Some e \<Rightarrow> f0(''error'' \<mapsto> VStr (error_text e)))
      in case dr_CommandOutput res of
           None \<Rightarrow> f1 | Some out \<Rightarrow> f1(''exit_code'' \<mapsto> VInt (co_ExitCode out)))"

definition summariseDetectorResults :: "det_result list \<Rightarrow> fields list" where
  "summariseDetectorResults results = map detector_summary results"

definition recordDetectorEvaluation :: "'w deps \<Rightarrow> runner \<Rightarrow> string \<Rightarrow> duration \<Rightarrow> bool \<Rightarrow>
    det_result list \<Rightarrow> go_error option \<Rightarrow> 'w st \<Rightarrow> 'w st" where
  "recordDetectorEvaluation d r phase t requires results err s =
     (let f0 = [''phase'' \<mapsto> VStr phase, ''duration_ms'' \<mapsto> VInt (Milliseconds t),
                ''requires_reboot'' \<mapsto> VBool requires,
                ''detector_summaries'' \<mapsto> VMaps (summariseDetectorResults results)];
          (outcome, lvl, fs) =
            (case err of
               Some e \<Rightarrow> (''error'', LevelError, f0(''error'' \<mapsto> VStr (error_text e)))
             | None \<Rightarrow> if requires then (''requires'', LevelInfo, f0) else (''clear'', LevelInfo, f0));
          labels = [''phase'' \<mapsto> phase, ''result'' \<mapsto> outcome];
          s = count_metric d ''detector_evaluations_total'' labels
                ''Number of detector evaluations grouped by phase and result.'' s;
          s = time_metric d ''detector_evaluation_seconds'' t labels ''Latency of detector evaluations.'' s
      in emit_event d r lvl ''detectors_evaluated'' fs s)"

definition recordHealth :: "'w deps \<Rightarrow> runner \<Rightarrow> string \<Rightarrow> duration \<Rightarrow> health_result \<Rightarrow> go_error option
    \<Rightarrow> 'w st \<Rightarrow> 'w st" where
  "recordHealth d r phase t res err s =
     (let f0 = [''phase'' \<mapsto> VStr phase, ''duration_ms'' \<mapsto> VInt (Milliseconds t)];
          (status, lvl, fs) =
            (case err of
               Some e \<Rightarrow> (''error'', LevelError, f0(''error'' \<mapsto> VStr (error_text e)))
             | None \<Rightarrow>
               (let f1 = f0(''exit_code'' \<mapsto> VInt (hr_ExitCode res)) in
                if hr_ExitCode res \<noteq> 0 then (''blocked'', LevelWarn, f1) else (''pass'', LevelInfo, f1)));
          labels = [''phase'' \<mapsto> phase, ''result'' \<mapsto> status];
          s = count_metric d ''health_checks_total'' labels
                ''Number of health script executions grouped by phase and result.'' s;
          s = time_metric d ''health_check_seconds'' t labels ''Execution time of the health script.'' s
      in emit_event d r lvl ''health_check'' fs s)"

definition recordLockAttempt :: "'w deps \<Rightarrow> runner \<Rightarrow> int \<Rightarrow> duration \<Rightarrow> string \<Rightarrow> go_error option
    \<Rightarrow> 'w st \<Rightarrow> 'w st" where
  "recordLockAttempt d r attempt t result err s =
     (let labels = [''result'' \<mapsto> result];
          f0 = [''attempt'' \<mapsto> VInt (attempt + 1), ''result'' \<mapsto> VStr result,
                ''duration_ms'' \<mapsto> VInt (Milliseconds t)];
          lvl = (if result = ''contended'' then LevelWarn
                 else if result = ''error'' \<or> result = ''canceled'' then LevelError else LevelInfo);
          fs = put_if (err \<noteq> None) ''error'' (VStr (error_string err)) f0;
          s = count_metric d ''lock_attempts_total'' labels
                ''Number of lock acquisition attempts grouped by result.'' s;
          s = time_metric d ''lock_acquire_seconds'' t labels
                ''Duration of individual lock acquisition attempts.'' s
      in emit_event d r lvl ''lock_attempt'' fs s)"

definition recordLockBackoff :: "'w deps \<Rightarrow> runner \<Rightarrow> int \<Rightarrow> duration \<Rightarrow> 'w st \<Rightarrow> 'w st" where
  "recordLockBackoff d r attempt delay s =
     emit_event d r LevelInfo ''lock_backoff''
       [''attempt'' \<mapsto> VInt (attempt + 1), ''delay_ms'' \<mapsto> VInt (Milliseconds delay)] s"

definition recordLockAcquired :: "'w deps \<Rightarrow> runner \<Rightarrow> int \<Rightarrow> duration \<Rightarrow> 'w st \<Rightarrow> 'w st" where
  "recordLockAcquired d r attempt wait s =
     emit_event d r LevelInfo ''lock_acquired''
       [''attempt'' \<mapsto> VInt (attempt + 1), ''wait_ms'' \<mapsto> VInt (Milliseconds wait)] s"

definition recordLockFailure :: "'w deps \<Rightarrow> runner \<Rightarrow> int \<Rightarrow> 'w st \<Rightarrow> 'w st" where
  "recordLockFailure d r attempts s =
     emit_event d r LevelWarn ''lock_failed'' [''attempts'' \<mapsto> VInt attempts] s"

definition recordClusterHealthUpdate :: "'w deps \<Rightarrow> runner \<Rightarrow> string \<Rightarrow> bool \<Rightarrow> string \<Rightarrow> bool
    \<Rightarrow> go_error option \<Rightarrow> 'w st \<Rightarrow> 'w st" where
  "recordClusterHealthUpdate d r phase healthy reason attempted err s =
     (let status = (if healthy then ''healthy'' else ''unhealthy'');
          f0 = [''phase'' \<mapsto> VStr phase, ''status'' \<mapsto> VStr status];
          f1 = put_if (reason \<noteq> []) ''reason'' (VStr reason) f0;
          f2 = put_if (\<not> attempted) ''skipped'' (VBool True) f1;
          fs = put_if (err \<noteq> None) ''error'' (VStr (error_string err)) f2;
          result = (if err \<noteq> None then ''error'' else if \<not> attempted then ''skipped'' else ''success'');
          lvl = (if err \<noteq> None then LevelError else LevelInfo);
          s = count_metric d ''cluster_health_updates_total''
                [''phase'' \<mapsto> phase, ''status'' \<mapsto> status, ''result'' \<mapsto> result]
                ''Number of cluster health update attempts grouped by phase, status, and result.'' s
      in emit_event d r lvl ''cluster_health_update'' fs s)"

definition recordCooldownStatus :: "'w deps \<Rightarrow> runner \<Rightarrow> string \<Rightarrow> cooldown_status \<Rightarrow> go_error option
    \<Rightarrow> 'w st \<Rightarrow> 'w st" where
  "recordCooldownStatus d r phase status err s =
     (let f0 = [''phase'' \<mapsto> VStr phase, ''active'' \<mapsto> VBool (cs_Active status)];
          (result, lvl, fs) =
            (case err of
               Some e \<Rightarrow> (''error'', LevelError, f0(''error'' \<mapsto> VStr (error_text e)))
             | None \<Rightarrow>
               if cs_Active status then
                 (let f1 = put_if (cs_Node status \<noteq> []) ''node'' (VStr (cs_Node status)) f0;
                      f2 = put_if (\<not> IsZero (cs_StartedAt status)) ''started_at''
                             (VStr (format_RFC3339Nano (cs_StartedAt status))) f1;
                      f3 = put_if (0 < sint (cs_Remaining status)) ''remaining_ms''
                             (VInt (Milliseconds (cs_Remaining status))) f2
                  in (''active'', LevelWarn, f3))
               else (''inactive'', LevelInfo, f0));
          s = count_metric d ''cooldown_checks_total'' [''phase'' \<mapsto> phase, ''result'' \<mapsto> result]
                ''Number of reboot cooldown inspections grouped by phase and result.'' s
      in emit_event d r lvl ''cooldown_status'' fs s)"

definition recordCooldownActivation :: "'w deps \<Rightarrow> runner \<Rightarrow> duration \<Rightarrow> go_error option \<Rightarrow> 'w st \<Rightarrow> 'w st" where
  "recordCooldownActivation d r t err s =
     (let f0 = [''duration_ms'' \<mapsto> VInt (Milliseconds t)];
          (result, lvl, fs) =
            (case err of
               Some e \<Rightarrow> (''error'', LevelError, f0(''error'' \<mapsto> VStr (error_text e)))
             | None \<Rightarrow> (''success'', LevelInfo, f0));
          s = count_metric d ''cooldown_activations_total'' [''result'' \<mapsto> result]
                ''Number of reboot cooldown activations grouped by result.'' s
      in emit_event d r lvl ''cooldown_started'' fs s)"

definition recordCooldownClear :: "'w deps \<Rightarrow> runner \<Rightarrow> go_error option \<Rightarrow> 'w st \<Rightarrow> 'w st" where
  "recordCooldownClear d r err s =
     (let (result, lvl, fs) =
            (case err of
               Some e \<Rightarrow> (''error'', LevelError, [''error'' \<mapsto> VStr (error_text e)])
             | None \<Rightarrow> (''success'', LevelInfo, Map.empty));
          s = count_metric d ''cooldown_clears_total'' [''result'' \<mapsto> result]
                ''Number of reboot cooldown clear attempts grouped by result.'' s
      in emit_event d r lvl ''cooldown_cleared'' fs s)"

section \<open>Outcomes\<close>

definition cluster_record_summary :: "cluster_record \<Rightarrow> fields" where
  "cluster_record_summary rec =
     (let f0 = [''node'' \<mapsto> VStr (cr_Node rec)];
          f1 = put_if (cr_Stage rec \<noteq> []) ''stage'' (VStr (cr_Stage rec)) f0;
          f2 = put_if (cr_Reason rec \<noteq> []) ''reason'' (VStr (cr_Reason rec)) f1
      in put_if (\<not> IsZero (cr_ReportedAt rec)) ''reported_at''
           (VStr (format_RFC3339Nano (cr_ReportedAt rec))) f2)"

definition summarizeClusterRecords :: "cluster_record list \<Rightarrow> fields list" where
  "summarizeClusterRecords records = map cluster_record_summary records"

definition outcome_summary :: "outcome \<Rightarrow> outcomeSummary" where
  "outcome_summary out = \<lparr>os_Status = Status out, os_Message = Message out,
     os_DryRun = out_DryRun out, os_LockAcquired = LockAcquired out\<rparr>"

definition summary_equal :: "outcomeSummary \<Rightarrow> outcomeSummary \<Rightarrow> bool" where
  "summary_equal a b \<longleftrightarrow> os_Status a = os_Status b \<and> os_Message a = os_Message b \<and>
     os_DryRun a = os_DryRun b \<and> os_LockAcquired a = os_LockAcquired b"

fun outcome_level :: "outcome_status \<Rightarrow> level" where
  "outcome_level OutcomeNoAction = LevelInfo"
| "outcome_level OutcomeRecheckCleared = LevelInfo"
| "outcome_level OutcomeReady = LevelInfo"
| "outcome_level _ = LevelWarn"

definition outcome_fields :: "outcome_status \<Rightarrow> outcome \<Rightarrow> fields" where
  "outcome_fields status out =
     (let f0 = [''status'' \<mapsto> VStr (status_text status), ''dry_run'' \<mapsto> VBool (out_DryRun out),
                ''lock_acquired'' \<mapsto> VBool (LockAcquired out)];
          f1 = put_if (Message out \<noteq> []) ''message'' (VStr (Message out)) f0;
          f2 = put_if (Command out \<noteq> []) ''command'' (VStr (Join (Command out) '' '')) f1
      in put_if (ClusterUnhealthy out \<noteq> []) ''cluster_unhealthy''
           (VMaps (summarizeClusterRecords (ClusterUnhealthy out))) f2)"

definition recordOutcome :: "'w deps \<Rightarrow> runner \<Rightarrow> outcome \<Rightarrow> 'w st \<Rightarrow> 'w st" where
  "recordOutcome d r out s =
     (case Status out of
        None \<Rightarrow> s
      | Some status \<Rightarrow>
        (let summary = outcome_summary out;
             s = count_metric d ''orchestration_outcomes_total'' [''status'' \<mapsto> status_text status]
                   ''Number of orchestration passes grouped by outcome status.'' s;
             unchanged = (case st_lastOutcome s of None \<Rightarrow> False | Some prev \<Rightarrow> summary_equal prev summary);
             s = s\<lparr>st_lastOutcome := Some summary\<rparr>
         in if unchanged then s
            else emit_event d r (outcome_level status) ''run_outcome'' (outcome_fields status out) s))"

section \<open>What they leave alone\<close>

lemmas record_defs =
  recordWindowDecision_def recordKillSwitch_def recordDetectorEvaluation_def recordHealth_def
  recordLockAttempt_def recordLockBackoff_def recordLockAcquired_def recordLockFailure_def
  recordClusterHealthUpdate_def recordCooldownStatus_def recordCooldownActivation_def
  recordCooldownClear_def

lemma record_calls [frame_simps, quiet]:
  "st_calls (recordWindowDecision d r dec s) = st_calls s"
  "st_calls (recordKillSwitch d r stage active err s) = st_calls s"
  "st_calls (recordDetectorEvaluation d r phase t req results err s) = st_calls s"
  "st_calls (recordHealth d r phase t res err s) = st_calls s"
  "st_calls (recordLockAttempt d r att t result err s) = st_calls s"
  "st_calls (recordLockBackoff d r att t s) = st_calls s"
  "st_calls (recordLockAcquired d r att t s) = st_calls s"
  "st_calls (recordLockFailure d r n s) = st_calls s"
  "st_calls (recordClusterHealthUpdate d r phase healthy reason attempted err s) = st_calls s"
  "st_calls (recordCooldownStatus d r phase status err s) = st_calls s"
  "st_calls (recordCooldownActivation d r t err s) = st_calls s"
  "st_calls (recordCooldownClear d r err s) = st_calls s"
  by (simp_all add: record_defs Let_def split_beta emit_rest)

lemma record_lastOutcome [frame_simps]:
  "st_lastOutcome (recordWindowDecision d r dec s) = st_lastOutcome s"
  "st_lastOutcome (recordKillSwitch d r stage active err s) = st_lastOutcome s"
  "st_lastOutcome (recordDetectorEvaluation d r phase t req results err s) = st_lastOutcome s"
  "st_lastOutcome (recordHealth d r phase t res err s) = st_lastOutcome s"
  "st_lastOutcome (recordLockAttempt d r att t result err s) = st_lastOutcome s"
  "st_lastOutcome (recordLockBackoff d r att t s) = st_lastOutcome s"
  "st_lastOutcome (recordLockAcquired d r att t s) = st_lastOutcome s"
  "st_lastOutcome (recordLockFailure d r n s) = st_lastOutcome s"
  "st_lastOutcome (recordClusterHealthUpdate d r phase healthy reason attempted err s) = st_lastOutcome s"
  "st_lastOutcome (recordCooldownStatus d r phase status err s) = st_lastOutcome s"
  "st_lastOutcome (recordCooldownActivation d r t err s) = st_lastOutcome s"
  "st_lastOutcome (recordCooldownClear d r err s) = st_lastOutcome s"
  by (simp_all add: record_defs Let_def split_beta emit_rest)

lemma recordOutcome_calls [frame_simps, quiet]: "st_calls (recordOutcome d r out s) = st_calls s"
  by (simp add: recordOutcome_def Let_def emit_rest split: option.split)

section \<open>Outcome events\<close>

lemma emit_reports:
  "st_reports (count_metric d name labels desc s) = st_reports s @ [RecordMetric
     \<lparr>m_Name = name, m_Type = MetricCounter, m_Value = Fin 1, m_Labels = labels,
      m_Description = desc, m_Unit = []\<rparr>]"
  "st_reports (emit_event d r lvl name fs s) = st_reports s @ [RecordEvent
     \<lparr>e_Timestamp = zero_time, e_Level = lvl, e_Node = NodeName (r_cfg r),
      e_Component = [], e_Event = name, e_Message = [], e_Fields = fs\<rparr>]"
  by (simp_all add: count_metric_def emit_metric_def emit_event_def report_def)

definition is_event :: "report \<Rightarrow> bool" where
  "is_event x = (case x of RecordEvent e \<Rightarrow> True | RecordMetric m \<Rightarrow> False)"

lemma is_event_simps [simp]: "is_event (RecordEvent e)" "\<not> is_event (RecordMetric m)"
  by (simp_all add: is_event_def)

text \<open>C30: Every outcome with a status is counted once, under its status, and it is reported as an
  event exactly when its status, message, dry-run flag or lock flag differs from those of the
  outcome recorded before it; it is then the one later outcomes are compared with.\<close>

theorem recordOutcome_reports:
  assumes "Status out = Some status"
  shows "\<exists>m evs. st_reports (recordOutcome d r out s) = st_reports s @ RecordMetric m # evs \<and>
    m_Name m = ''orchestration_outcomes_total'' \<and> m_Labels m = [''status'' \<mapsto> status_text status] \<and>
    list_all is_event evs \<and>
    length evs = (if st_lastOutcome s = Some (outcome_summary out) then 0 else 1) \<and>
    st_lastOutcome (recordOutcome d r out s) = Some (outcome_summary out)"
proof -
  have eq: "summary_equal a b \<longleftrightarrow> a = b" for a b
    by (cases a; cases b) (auto simp: summary_equal_def)
  show ?thesis
    using assms
    by (auto simp: recordOutcome_def Let_def emit_reports emit_rest eq split: option.splits)
qed

definition demo_deps :: "unit deps" where
  "demo_deps = \<lparr>d_time = \<lambda>w. (zero_time, w), d_now = \<lambda>w. (zero_time, w),
     d_checkKill = \<lambda>p w. ((False, None), w), d_evaluate = \<lambda>w. ((True, [], None), w),
     d_health = \<lambda>env w. ((\<lparr>hr_ExitCode = 0, hr_Stdout = [], hr_Stderr = [], hr_Duration = 0\<rparr>, None), w),
     d_clusterStatus = \<lambda>w. (([], None), w), d_reportHealthy = \<lambda>w. (None, w),
     d_reportUnhealthy = \<lambda>h w. (None, w),
     d_cooldownStatus = (\<lambda>w. ((\<lparr>cs_Active = False, cs_Node = [], cs_StartedAt = zero_time,
       cs_ExpiresAt = zero_time, cs_Remaining = 0\<rparr>, None), w)),
     d_cooldownStart = \<lambda>t w. (None, w), d_acquire = \<lambda>w. (Inr 7, w), d_release = \<lambda>l w. (None, w),
     d_sleep = \<lambda>t w. (None, w), d_random = \<lambda>n w. (0, w), d_getenv = \<lambda>w k. [],
     d_peerOrder = \<lambda>m w. ([], w), d_report = \<lambda>x w. w,
     d_unrepresentable = 0\<rparr>"

definition demo_cfg :: config where
  "demo_cfg = (applyDefaults minimal_config)\<lparr>ClusterPolicies := \<lparr>MinHealthyFraction = None,
     MinHealthyAbsolute = None, ForbidIfOnlyFallbackLeft = False, FallbackNodes = []\<rparr>\<rparr>"

definition demo_r :: runner where
  "demo_r = \<lparr>r_cfg = demo_cfg, r_killSwitchPath = ''/etc/clusterrebootd/disable'', r_maxLockTries = 5,
     r_lockEnabled = True, r_lockSkipReason = [], r_cooldownWindow = seconds 300,
     r_commandEnv = BaseEnvironment demo_cfg, r_healthReporting = True, r_cooldown = True,
     r_clusterHealth = True, r_windows = None\<rparr>"

definition demo_st :: "unit st" where
  "demo_st = \<lparr>st_world = (), st_calls = [], st_reports = [], st_lastOutcome = None,
     st_summaries = Map.empty, st_peers = Map.empty\<rparr>"

theorem recordOutcome_reports_witness:
  "let out = empty_outcome\<lparr>Status := Some OutcomeNoAction\<rparr>; s1 = recordOutcome demo_deps demo_r out demo_st
   in length (st_reports s1) = 2 \<and> length (st_reports (recordOutcome demo_deps demo_r out s1)) = 3"
proof -
  let ?out = "empty_outcome\<lparr>Status := Some OutcomeNoAction\<rparr>"
  have st: "Status ?out = Some OutcomeNoAction" by simp
  note first = recordOutcome_reports [OF st, of demo_deps demo_r demo_st]
  note second = recordOutcome_reports [OF st, of demo_deps demo_r "recordOutcome demo_deps demo_r ?out demo_st"]
  have none: "st_lastOutcome demo_st = None" "st_reports demo_st = []" by (simp_all add: demo_st_def)
  from first none have l1: "length (st_reports (recordOutcome demo_deps demo_r ?out demo_st)) = 2"
    "st_lastOutcome (recordOutcome demo_deps demo_r ?out demo_st) = Some (outcome_summary ?out)" by auto
  from second l1 have "length (st_reports (recordOutcome demo_deps demo_r ?out
      (recordOutcome demo_deps demo_r ?out demo_st))) = 3" by auto
  with l1 show ?thesis by (simp add: Let_def)
qed

end
