(* ===== verification/ClusterWatch.thy ===== *)
theory ClusterWatch
  imports RunnerRecord
begin

text \<open>
  The cluster's health as the runner sees it (\<open>pkg/orchestrator/runner.go\<close>): the policies that
  must hold before this node may reboot, the inspection of the other nodes' records, and the
  reporting of changes from one inspection to the next.
\<close>

section \<open>Policies\<close>

definition filterClusterRecords :: "cluster_record list \<Rightarrow> string \<Rightarrow> cluster_record list" where
  "filterClusterRecords records exclude =
     List.filter (\<lambda>rec. \<not> (exclude \<noteq> [] \<and> cr_Node rec = exclude) \<and> \<not> cr_Healthy rec) records"

definition cloneClusterRecords :: "cluster_record list \<Rightarrow> cluster_record list" where
  "cloneClusterRecords records = map (\<lambda>rec. rec) records"

definition record_text :: "cluster_record \<Rightarrow> string" where
  "record_text rec =
     (let extras = (if cr_Stage rec \<noteq> [] then [cr_Stage rec] else []) @
                   (if cr_Reason rec \<noteq> [] then [cr_Reason rec] else []) in
      if extras \<noteq> [] then cr_Node rec @ '' ('' @ Join extras '', '' @ '')'' else cr_Node rec)"

definition formatClusterHealthMessage :: "cluster_record list \<Rightarrow> string" where
  "formatClusterHealthMessage records =
     (if records = [] then ''cluster health blocked by unhealthy nodes''
      else ''cluster health blocked by unhealthy nodes: '' @ Join (map record_text records) '', '')"

definition fallback_set :: "cluster_policies \<Rightarrow> string set" where
  "fallback_set p = set (List.filter (\<lambda>n. n \<noteq> []) (map TrimSpace (FallbackNodes p)))"

text \<open>The counting loop: nodes already counted, and the numbers of nodes, of healthy ones, and of
  healthy ones that are no fallback.\<close>

record tally =
  t_seen :: "string set"
  t_total :: int
  t_healthy :: int
  t_nonfallback :: int

definition count_node :: "string set \<Rightarrow> string \<Rightarrow> bool \<Rightarrow> tally \<Rightarrow> tally" where
  "count_node fb node healthy t =
     \<lparr>t_seen = insert node (t_seen t), t_total = t_total t + 1,
      t_healthy = t_healthy t + (if healthy then 1 else 0),
      t_nonfallback = t_nonfallback t + (if healthy \<and> node \<notin> fb then 1 else 0)\<rparr>"

definition count_record :: "string set \<Rightarrow> cluster_record \<Rightarrow> tally \<Rightarrow> tally" where
  "count_record fb rec t =
     (let node = TrimSpace (cr_Node rec) in
      if node = [] \<or> node \<in> t_seen t then t else count_node fb node (cr_Healthy rec) t)"

definition cluster_tally :: "config \<Rightarrow> cluster_record list \<Rightarrow> tally" where
  "cluster_tally cfg records =
     (let fb = fallback_set (ClusterPolicies cfg);
          nodeName = TrimSpace (NodeName cfg);
          t0 = \<lparr>t_seen = {}, t_total = 0, t_healthy = 0, t_nonfallback = 0\<rparr>;
          t1 = (if nodeName \<noteq> [] then count_node fb nodeName True t0 else t0)
      in fold (count_record fb) records t1)"

definition required_nodes :: "int \<Rightarrow> float64 \<Rightarrow> int \<Rightarrow> int" where
  "required_nodes unrepresentable fraction n =
     int_of_float unrepresentable (float_Ceil (float_mult fraction (float_of_int n)))"

definition policy_reasons :: "int \<Rightarrow> config \<Rightarrow> cluster_record list \<Rightarrow> string list" where
  "policy_reasons u cfg records =
     (let p = ClusterPolicies cfg; t = cluster_tally cfg records; healthy = t_healthy t; tot = t_total t in
      (case MinHealthyAbsolute p of None \<Rightarrow> []
       | Some minAbs \<Rightarrow>
         if healthy < minAbs
         then [''healthy nodes '' @ Itoa healthy @ '' below minimum '' @ Itoa minAbs] else []) @
      (case MinHealthyFraction p of None \<Rightarrow> []
       | Some fraction \<Rightarrow>
         if 0 < tot then
           (let required = required_nodes u fraction tot in
            if healthy < required
            then [''healthy nodes '' @ Itoa healthy @ '' below '' @ format_2f fraction @
                  '' requirement ('' @ Itoa required @ '' of '' @ Itoa tot @ '')''] else [])
         else []) @
      (if ForbidIfOnlyFallbackLeft p \<and> fallback_set p \<noteq> {} \<and> 0 < healthy \<and> t_nonfallback t = 0
       then [''only fallback nodes remain healthy''] else []))"

definition evaluateClusterPolicies ::
    "int \<Rightarrow> config \<Rightarrow> cluster_record list \<Rightarrow> bool \<times> string \<times> cluster_record list" where
  "evaluateClusterPolicies u cfg records =
     (let unhealthy = filterClusterRecords records (NodeName cfg);
          reasons = (if unhealthy \<noteq> [] then [formatClusterHealthMessage unhealthy] else []) @
                    policy_reasons u cfg records in
      if reasons = [] then (False, [], []) else (True, Join reasons ''; '', unhealthy))"

section \<open>What the policies count\<close>

text \<open>
  The cluster, abstractly: every node name, without surrounding blanks, has the health of the first
  record under it, and this node counts as healthy whatever its record says.
\<close>

fun first_health :: "cluster_record list \<Rightarrow> string \<rightharpoonup> bool" where
  "first_health [] = Map.empty"
| "first_health (rec # recs) =
     (let node = TrimSpace (cr_Node rec) in
      if node = [] then first_health recs else (first_health recs)(node \<mapsto> cr_Healthy rec))"

definition cluster_view :: "config \<Rightarrow> cluster_record list \<Rightarrow> string \<rightharpoonup> bool" where
  "cluster_view cfg records =
     (if blank (NodeName cfg) then first_health records
      else (first_health records)(TrimSpace (NodeName cfg) \<mapsto> True))"

definition healthy_nodes :: "(string \<rightharpoonup> bool) \<Rightarrow> string set" where
  "healthy_nodes v = {n. v n = Some True}"

lemma finite_first_health: "finite (dom (first_health recs))"
  by (induction recs) (auto simp: Let_def)

lemma first_health_nonempty: "first_health recs n = Some b \<Longrightarrow> n \<noteq> []"
  by (induction recs) (auto simp: Let_def split: if_splits)

text \<open>A tally is right for a view when it counts the view's nodes.\<close>

definition tallies :: "string set \<Rightarrow> (string \<rightharpoonup> bool) \<Rightarrow> tally \<Rightarrow> bool" where
  "tallies fb v t \<longleftrightarrow> finite (dom v) \<and> t_seen t = dom v \<and> t_total t = int (card (dom v)) \<and>
     t_healthy t = int (card (healthy_nodes v)) \<and>
     t_nonfallback t = int (card (healthy_nodes v - fb))"

lemma healthy_nodes_dom: "healthy_nodes v \<subseteq> dom v"
  by (auto simp: healthy_nodes_def)

lemma healthy_nodes_upd:
  "v n = None \<Longrightarrow> healthy_nodes (v(n \<mapsto> b)) = (if b then insert n (healthy_nodes v) else healthy_nodes v)"
  by (auto simp: healthy_nodes_def)

lemma tallies_count_node:
  assumes "tallies fb v t" "v n = None"
  shows "tallies fb (v(n \<mapsto> b)) (count_node fb n b t)"
proof -
  have fin: "finite (healthy_nodes v)"
    using assms(1) finite_subset [OF healthy_nodes_dom] by (auto simp: tallies_def)
  have new: "n \<notin> healthy_nodes v" "n \<notin> dom v"
    using assms(2) by (auto simp: healthy_nodes_def)
  have "card (dom v) + 1 = card (insert n (dom v))"
    using assms(1) new by (simp add: tallies_def)
  moreover have "insert n (healthy_nodes v) - fb =
      (if n \<in> fb then healthy_nodes v - fb else insert n (healthy_nodes v - fb))"
    by auto
  ultimately show ?thesis
    using assms fin new by (simp add: tallies_def count_node_def healthy_nodes_upd)
qed

lemma tallies_count_records:
  "tallies fb v t \<Longrightarrow> tallies fb (first_health recs ++ v) (fold (count_record fb) recs t)"
proof (induction recs arbitrary: v t)
  case Nil
  then show ?case by simp
next
  case (Cons rec recs)
  let ?n = "TrimSpace (cr_Node rec)"
  show ?case
  proof (cases "?n = [] \<or> ?n \<in> dom v")
    case True
    have "first_health (rec # recs) ++ v = first_health recs ++ v"
      using True by (auto simp: Let_def map_add_def fun_eq_iff split: option.splits)
    moreover have "count_record fb rec t = t"
      using True Cons.prems by (auto simp: count_record_def tallies_def)
    ultimately show ?thesis using Cons.IH [OF Cons.prems] by simp
  next
    case False
    then have "v ?n = None" by auto
    note upd = tallies_count_node [OF Cons.prems this, of "cr_Healthy rec"]
    have v: "first_health recs ++ v(?n \<mapsto> cr_Healthy rec) = first_health (rec # recs) ++ v"
      using False by (auto simp: Let_def map_add_def fun_eq_iff split: option.splits)
    have t: "count_node fb ?n (cr_Healthy rec) t = count_record fb rec t"
      using False Cons.prems by (auto simp: count_record_def tallies_def Let_def)
    from Cons.IH [OF upd] show ?thesis by (simp only: v t fold_simps(2))
  qed
qed

lemma tallies_empty:
  "tallies fb Map.empty \<lparr>t_seen = {}, t_total = 0, t_healthy = 0, t_nonfallback = 0\<rparr>"
  by (simp add: tallies_def healthy_nodes_def)

lemma cluster_tally_view:
  "tallies (fallback_set (ClusterPolicies cfg)) (cluster_view cfg records) (cluster_tally cfg records)"
proof (cases "blank (NodeName cfg)")
  case True
  then show ?thesis
    using tallies_count_records [OF tallies_empty]
    by (simp add: cluster_tally_def cluster_view_def blank_def)
next
  case False
  let ?n = "TrimSpace (NodeName cfg)" and ?fb = "fallback_set (ClusterPolicies cfg)"
  have "first_health records ++ [?n \<mapsto> True] = (first_health records)(?n \<mapsto> True)"
    by simp
  then show ?thesis
    using tallies_count_records [OF tallies_count_node [OF tallies_empty, where n = ?n and b = True and fb = ?fb]] False
    by (simp add: cluster_tally_def cluster_view_def blank_def Let_def)
qed

section \<open>What the policies decide\<close>

text \<open>
  The decision, abstractly: another node's record is unhealthy, or the view breaks a policy.  The
  fraction asks for \<open>required_nodes\<close> of the nodes in view.
\<close>

definition policy_broken :: "int \<Rightarrow> config \<Rightarrow> (string \<rightharpoonup> bool) \<Rightarrow> bool" where
  "policy_broken u cfg v =
     (let p = ClusterPolicies cfg; healthy = int (card (healthy_nodes v)); n = int (card (dom v)) in
      (case MinHealthyAbsolute p of None \<Rightarrow> False | Some m \<Rightarrow> healthy < m) \<or>
      (case MinHealthyFraction p of None \<Rightarrow> False | Some f \<Rightarrow> 0 < n \<and> healthy < required_nodes u f n) \<or>
      (ForbidIfOnlyFallbackLeft p \<and> fallback_set p \<noteq> {} \<and> healthy_nodes v \<noteq> {} \<and>
       healthy_nodes v \<subseteq> fallback_set p))"

lemma finite_cluster_view: "finite (dom (cluster_view cfg records))"
  by (simp add: cluster_view_def finite_first_health)

lemma finite_healthy_nodes: "finite (dom v) \<Longrightarrow> finite (healthy_nodes v)"
  by (rule finite_subset [OF healthy_nodes_dom])

lemma policy_reasons_Nil:
  "policy_reasons u cfg records = [] \<longleftrightarrow> \<not> policy_broken u cfg (cluster_view cfg records)"
proof -
  let ?v = "cluster_view cfg records" and ?fb = "fallback_set (ClusterPolicies cfg)"
  have fin: "finite (healthy_nodes ?v)"
    by (rule finite_healthy_nodes) (rule finite_cluster_view)
  then have "card (healthy_nodes ?v) = 0 \<longleftrightarrow> healthy_nodes ?v = {}"
    "card (healthy_nodes ?v - ?fb) = 0 \<longleftrightarrow> healthy_nodes ?v \<subseteq> ?fb"
    by auto
  then show ?thesis
    using cluster_tally_view [of cfg records]
    by (auto simp: policy_reasons_def policy_broken_def tallies_def Let_def split: option.splits)
qed

lemma evaluateClusterPolicies_blocked:
  "fst (evaluateClusterPolicies u cfg records) \<longleftrightarrow>
     filterClusterRecords records (NodeName cfg) \<noteq> [] \<or> policy_broken u cfg (cluster_view cfg records)"
  by (auto simp: evaluateClusterPolicies_def Let_def policy_reasons_Nil)

lemma full_view_healthy:
  assumes "list_all cr_Healthy records"
  shows "healthy_nodes (cluster_view cfg records) = dom (cluster_view cfg records)"
proof -
  have "first_health records n \<noteq> Some False" for n
    using assms by (induction records) (auto simp: Let_def)
  then have "first_health records n = Some b \<Longrightarrow> b" for n b
    by (cases b) auto
  then show ?thesis
    by (auto simp: healthy_nodes_def cluster_view_def dom_def split: if_splits)
qed

text \<open>C15: The cluster policies block a reboot exactly when another node's record is unhealthy or the
  cluster in view breaks a policy: fewer healthy nodes than the absolute minimum or than the required
  share of the nodes in view, or healthy nodes that are all fallbacks.  Every name is counted once,
  whatever the number of records under it, and this node counts as healthy.  The blockers returned
  are the unhealthy records of other nodes, and a block always comes with a message.\<close>

theorem policies_decision:
  "\<exists>blocked msg blockers. evaluateClusterPolicies u cfg records = (blocked, msg, blockers) \<and>
    blocked = (list_ex (\<lambda>rec. \<not> cr_Healthy rec \<and> \<not> (NodeName cfg \<noteq> [] \<and> cr_Node rec = NodeName cfg)) records \<or>
               policy_broken u cfg (cluster_view cfg records)) \<and>
    blockers = (if blocked then
        List.filter (\<lambda>rec. \<not> cr_Healthy rec \<and> \<not> (NodeName cfg \<noteq> [] \<and> cr_Node rec = NodeName cfg)) records
      else [])"
proof -
  obtain b m bl where e: "evaluateClusterPolicies u cfg records = (b, m, bl)" by (metis surj_pair)
  have f: "filterClusterRecords records (NodeName cfg) =
      List.filter (\<lambda>rec. \<not> cr_Healthy rec \<and> \<not> (NodeName cfg \<noteq> [] \<and> cr_Node rec = NodeName cfg)) records"
    unfolding filterClusterRecords_def by (rule filter_cong) auto
  have "b = (filterClusterRecords records (NodeName cfg) \<noteq> [] \<or> policy_broken u cfg (cluster_view cfg records))"
    using evaluateClusterPolicies_blocked [of u cfg records] e by simp
  moreover have "bl = (if b then filterClusterRecords records (NodeName cfg) else [])"
    using e by (auto simp: evaluateClusterPolicies_def Let_def split: if_splits)
  ultimately show ?thesis
    using e by (auto simp: f filter_empty_conv list_ex_iff)
qed


lemma minimal_config_valid: "valid_config (applyDefaults minimal_config)"
  using minimal_config_loads by (auto simp: Load_def decode_Inr)


end
