(* ===== verification/ClusterPeers.thy ===== *)
theory ClusterPeers
  imports ClusterWatch
begin

text \<open>
  Inspecting and updating the cluster's health (\<open>pkg/orchestrator/runner.go\<close>): the runner
  remembers what it last saw of every peer and of the cluster in each phase, and reports the
  changes.
\<close>

section \<open>Peers\<close>

definition peerStatesEqual :: "clusterPeerState \<Rightarrow> clusterPeerState \<Rightarrow> bool" where
  "peerStatesEqual a b \<longleftrightarrow> peer_Healthy a = peer_Healthy b \<and> peer_Stage a = peer_Stage b \<and>
     peer_Reason a = peer_Reason b"

definition peerStatus :: "clusterPeerState \<Rightarrow> string" where
  "peerStatus p = (if peer_Healthy p then ''healthy'' else ''unhealthy'')"

text \<open>\<open>previous = None\<close> stands for \<open>hadPrevious\<close> being false.\<close>

definition previous_fields :: "clusterPeerState \<Rightarrow> clusterPeerState \<Rightarrow> fields \<Rightarrow> fields" where
  "previous_fields current prev f =
     (let f1 = put_if (peer_Stage prev \<noteq> [] \<and> peer_Stage prev \<noteq> peer_Stage current)
                 ''previous_stage'' (VStr (peer_Stage prev)) f;
          f2 = put_if (peer_Reason prev \<noteq> [] \<and> peer_Reason prev \<noteq> peer_Reason current)
                 ''previous_reason'' (VStr (peer_Reason prev)) f1
      in put_if (\<not> IsZero (peer_ReportedAt prev) \<and>
                 (IsZero (peer_ReportedAt current) \<or>
                  \<not> time_Equal (peer_ReportedAt current) (peer_ReportedAt prev)))
           ''previous_reported_at'' (VStr (format_RFC3339Nano (peer_ReportedAt prev))) f2)"

definition emitPeerStatusChange :: "'w deps \<Rightarrow> runner \<Rightarrow> string \<Rightarrow> string \<Rightarrow> clusterPeerState
    \<Rightarrow> clusterPeerState option \<Rightarrow> 'w st \<Rightarrow> 'w st" where
  "emitPeerStatusChange d r phase node current previous s =
     (let status = peerStatus current;
          prevStatus = (case previous of None \<Rightarrow> ''unknown'' | Some p \<Rightarrow> peerStatus p);
          f0 = [''phase'' \<mapsto> VStr phase, ''node'' \<mapsto> VStr node, ''status'' \<mapsto> VStr status,
                ''previous_status'' \<mapsto> VStr prevStatus];
          f1 = put_if (\<not> IsZero (peer_ReportedAt current)) ''reported_at''
                 (VStr (format_RFC3339Nano (peer_ReportedAt current))) f0;
          f2 = put_if (peer_Stage current \<noteq> []) ''stage'' (VStr (peer_Stage current)) f1;
          f3 = put_if (peer_Reason current \<noteq> []) ''reason'' (VStr (peer_Reason current)) f2;
          fs = (case previous of None \<Rightarrow> f3 | Some p \<Rightarrow> previous_fields current p f3)
      in emit_event d r (if status \<noteq> ''healthy'' then LevelWarn else LevelInfo)
           ''cluster_peer_status'' fs s)"

definition emitPeerMissingEvent :: "'w deps \<Rightarrow> runner \<Rightarrow> string \<Rightarrow> string \<Rightarrow> clusterPeerState \<Rightarrow> 'w st \<Rightarrow> 'w st" where
  "emitPeerMissingEvent d r phase node prev s =
     (let f0 = [''phase'' \<mapsto> VStr phase, ''node'' \<mapsto> VStr node, ''status'' \<mapsto> VStr ''missing'',
                ''previous_status'' \<mapsto> VStr (peerStatus prev)];
          f1 = put_if (peer_Stage prev \<noteq> []) ''previous_stage'' (VStr (peer_Stage prev)) f0;
          f2 = put_if (peer_Reason prev \<noteq> []) ''previous_reason'' (VStr (peer_Reason prev)) f1;
          fs = put_if (\<not> IsZero (peer_ReportedAt prev)) ''previous_reported_at''
                 (VStr (format_RFC3339Nano (peer_ReportedAt prev))) f2
      in emit_event d r LevelWarn ''cluster_peer_status'' fs s)"

definition record_peer :: "cluster_record \<Rightarrow> clusterPeerState" where
  "record_peer rec = \<lparr>peer_Healthy = cr_Healthy rec, peer_Stage = cr_Stage rec,
     peer_Reason = cr_Reason rec, peer_ReportedAt = cr_ReportedAt rec\<rparr>"

type_synonym 'w peer_scan = "(string \<rightharpoonup> clusterPeerState) \<times> bool \<times> 'w st"

text \<open>The body of the loop over the records, with the peers so far and whether any has changed.\<close>

definition scan_record :: "'w deps \<Rightarrow> runner \<Rightarrow> string \<Rightarrow> cluster_record \<Rightarrow> 'w peer_scan \<Rightarrow> 'w peer_scan" where
  "scan_record d r phase rec = (\<lambda>(current, changed, s).
     let node = TrimSpace (cr_Node rec) in
     if node = [] \<or> node = TrimSpace (NodeName (r_cfg r)) then (current, changed, s)
     else
       (let state = record_peer rec; current = current(node \<mapsto> state) in
        case st_peers s node of
          None \<Rightarrow> (current, True, emitPeerStatusChange d r phase node state None s)
        | Some prev \<Rightarrow>
          if peerStatesEqual prev state then (current, changed, s)
          else (current, True, emitPeerStatusChange d r phase node state (Some prev) s)))"

text \<open>The body of the loop over the peers seen before.\<close>

definition scan_missing :: "'w deps \<Rightarrow> runner \<Rightarrow> string \<Rightarrow> string \<Rightarrow> 'w peer_scan \<Rightarrow> 'w peer_scan" where
  "scan_missing d r phase node = (\<lambda>(current, changed, s).
     if current node \<noteq> None then (current, changed, s)
     else (current, True, emitPeerMissingEvent d r phase node (the (st_peers s node)) s))"

definition updateClusterPeerStates ::
    "'w deps \<Rightarrow> runner \<Rightarrow> string \<Rightarrow> cluster_record list \<Rightarrow> 'w st \<Rightarrow> bool \<times> 'w st" where
  "updateClusterPeerStates d r phase records s =
     (let (current, changed, s) = fold (scan_record d r phase) records (Map.empty, False, s);
          (order, s) = silent (d_peerOrder d (st_peers s)) s;
          (current, changed, s) = fold (scan_missing d r phase) order (current, changed, s)
      in (changed, s\<lparr>st_peers := current\<rparr>))"

section \<open>The inspection\<close>

definition clusterRecordsKey :: "cluster_record list \<Rightarrow> string" where
  "clusterRecordsKey records =
     Join (sort (map (\<lambda>rec. Join [TrimSpace (cr_Node rec), cr_Stage rec, cr_Reason rec] ''|'') records)) '';''"

definition cluster_summary ::
    "bool \<Rightarrow> cluster_record list \<Rightarrow> go_error option \<Rightarrow> clusterStatusSummary" where
  "cluster_summary attempted records err =
     (let unhealthy = List.filter (\<lambda>rec. \<not> cr_Healthy rec) records;
          base = (if attempted then
                    \<lparr>sum_Attempted = True, sum_Result = (if unhealthy \<noteq> [] then ''unhealthy'' else ''healthy''),
                     sum_Total = length records, sum_Healthy = length records - length unhealthy,
                     sum_Unhealthy = length unhealthy, sum_Error = [],
                     sum_UnhealthyKey = clusterRecordsKey unhealthy\<rparr>
                  else empty_summary\<lparr>sum_Result := ''skipped''\<rparr>)
      in case err of None \<Rightarrow> base
         | Some e \<Rightarrow> base\<lparr>sum_Result := ''error'', sum_Error := error_text e\<rparr>)"

definition cluster_status_fields ::
    "string \<Rightarrow> bool \<Rightarrow> cluster_record list \<Rightarrow> go_error option \<Rightarrow> level \<times> fields" where
  "cluster_status_fields phase attempted records err =
     (let unhealthy = List.filter (\<lambda>rec. \<not> cr_Healthy rec) records;
          f0 = [''phase'' \<mapsto> VStr phase];
          (lvl, f1) =
            (if attempted then
               (if unhealthy \<noteq> [] then LevelWarn else LevelInfo,
                put_if (unhealthy \<noteq> []) ''unhealthy_nodes'' (VMaps (summarizeClusterRecords unhealthy))
                  (f0(''total_nodes'' \<mapsto> VInt (int (length records)),
                      ''healthy_count'' \<mapsto> VInt (int (length records - length unhealthy)),
                      ''unhealthy_count'' \<mapsto> VInt (int (length unhealthy)))))
             else (LevelInfo, f0(''skipped'' \<mapsto> VBool True)))
      in case err of None \<Rightarrow> (lvl, f1)
         | Some e \<Rightarrow> (LevelError, f1(''error'' \<mapsto> VStr (error_text e))))"

definition recordClusterHealthStatus :: "'w deps \<Rightarrow> runner \<Rightarrow> string \<Rightarrow> bool \<Rightarrow> cluster_record list
    \<Rightarrow> go_error option \<Rightarrow> 'w st \<Rightarrow> 'w st" where
  "recordClusterHealthStatus d r phase attempted records err s =
     (let summary = cluster_summary attempted records err;
          (lvl, fs) = cluster_status_fields phase attempted records err;
          s = count_metric d ''cluster_health_checks_total''
                [''phase'' \<mapsto> phase, ''result'' \<mapsto> sum_Result summary]
                ''Number of cluster health inspections grouped by phase and result.'' s;
          (peerChanged, s) = (if attempted then updateClusterPeerStates d r phase records s
                              else (False, s\<lparr>st_peers := Map.empty\<rparr>));
          previous = (case st_summaries s phase of None \<Rightarrow> empty_summary | Some p \<Rightarrow> p);
          s = s\<lparr>st_summaries := (st_summaries s)(phase \<mapsto> summary)\<rparr>
      in if \<not> peerChanged \<and> summary = previous then s
         else emit_event d r lvl ''cluster_health_status'' fs s)"

definition inspectClusterHealth ::
    "'w deps \<Rightarrow> runner \<Rightarrow> string \<Rightarrow> 'w st \<Rightarrow> (cluster_record list \<times> go_error option) \<times> 'w st" where
  "inspectClusterHealth d r phase s =
     (let attempted = r_clusterHealth r;
          ((records, err), s) =
            (if attempted then invoke (d_clusterStatus d) HealthStatus s else (([], None), s));
          s = recordClusterHealthStatus d r phase attempted records err s
      in (if attempted then (records, err) else ([], None), s))"

definition updateClusterHealth ::
    "'w deps \<Rightarrow> runner \<Rightarrow> string \<Rightarrow> bool \<Rightarrow> int \<Rightarrow> 'w st \<Rightarrow> go_error option \<times> 'w st" where
  "updateClusterHealth d r phase healthy exitCode s =
     (let reason = (if healthy then [] else phase @ '' exit '' @ Itoa exitCode);
          attempted = r_clusterHealth r \<and> r_healthReporting r;
          (err, s) =
            (if attempted then
               (if healthy then invoke (d_reportHealthy d) ReportHealthy s
                else (let rep = \<lparr>hp_Stage = phase, hp_Reason = reason\<rparr> in
                      invoke (d_reportUnhealthy d rep) (ReportUnhealthy rep) s))
             else (None, s));
          s = recordClusterHealthUpdate d r phase healthy reason attempted err s
      in (err, s))"

section \<open>Frames\<close>

lemma emitPeer_calls [frame_simps, quiet]:
  "st_calls (emitPeerStatusChange d r phase node cur prev s) = st_calls s"
  "st_calls (emitPeerMissingEvent d r phase node p s) = st_calls s"
  "st_peers (emitPeerStatusChange d r phase node cur prev s) = st_peers s"
  "st_peers (emitPeerMissingEvent d r phase node p s) = st_peers s"
  "st_lastOutcome (emitPeerStatusChange d r phase node cur prev s) = st_lastOutcome s"
  "st_lastOutcome (emitPeerMissingEvent d r phase node p s) = st_lastOutcome s"
  by (simp_all add: emitPeerStatusChange_def emitPeerMissingEvent_def Let_def emit_rest)

definition scan_state :: "'w peer_scan \<Rightarrow> 'w st" where
  "scan_state x = snd (snd x)"

lemma scan_record_frame:
  "st_calls (scan_state (scan_record d r phase rec x)) = st_calls (scan_state x)"
  "st_peers (scan_state (scan_record d r phase rec x)) = st_peers (scan_state x)"
  "st_lastOutcome (scan_state (scan_record d r phase rec x)) = st_lastOutcome (scan_state x)"
  by (simp_all add: scan_state_def scan_record_def Let_def split_beta emitPeer_calls split: option.split)

lemma scan_missing_frame:
  "st_calls (scan_state (scan_missing d r phase n x)) = st_calls (scan_state x)"
  "st_peers (scan_state (scan_missing d r phase n x)) = st_peers (scan_state x)"
  "st_lastOutcome (scan_state (scan_missing d r phase n x)) = st_lastOutcome (scan_state x)"
  by (simp_all add: scan_state_def scan_missing_def split_beta emitPeer_calls)

lemma fold_scan_record_frame:
  "st_calls (scan_state (fold (scan_record d r phase) recs x)) = st_calls (scan_state x) \<and>
   st_peers (scan_state (fold (scan_record d r phase) recs x)) = st_peers (scan_state x) \<and>
   st_lastOutcome (scan_state (fold (scan_record d r phase) recs x)) = st_lastOutcome (scan_state x)"
  by (induction recs arbitrary: x) (simp_all add: scan_record_frame)

lemma fold_scan_missing_frame:
  "st_calls (scan_state (fold (scan_missing d r phase) ns x)) = st_calls (scan_state x) \<and>
   st_peers (scan_state (fold (scan_missing d r phase) ns x)) = st_peers (scan_state x) \<and>
   st_lastOutcome (scan_state (fold (scan_missing d r phase) ns x)) = st_lastOutcome (scan_state x)"
  by (induction ns arbitrary: x) (simp_all add: scan_missing_frame)

text \<open>The loops of \<open>updateClusterPeerStates\<close>, as what they leave behind.\<close>

lemma updateClusterPeerStates_loops:
  obtains current1 changed1 s1 order s2 current changed s3
  where "fold (scan_record d r phase) records (Map.empty, False, s) = (current1, changed1, s1)"
    and "silent (d_peerOrder d (st_peers s)) s1 = (order, s2)"
    and "fold (scan_missing d r phase) order (current1, changed1, s2) = (current, changed, s3)"
    and "updateClusterPeerStates d r phase records s = (changed, s3\<lparr>st_peers := current\<rparr>)"
    and "st_calls s3 = st_calls s" and "st_peers s2 = st_peers s" and "st_lastOutcome s3 = st_lastOutcome s"
proof -
  obtain current1 changed1 s1 where 1: "fold (scan_record d r phase) records (Map.empty, False, s) =
      (current1, changed1, s1)" by (metis surj_pair)
  have f1: "st_calls s1 = st_calls s" "st_peers s1 = st_peers s" "st_lastOutcome s1 = st_lastOutcome s"
    using fold_scan_record_frame [of d r phase records "(Map.empty, False, s)"] 1
    by (simp_all add: scan_state_def)
  obtain order s2 where 2: "silent (d_peerOrder d (st_peers s)) s1 = (order, s2)" by (metis surj_pair)
  have f2: "st_calls s2 = st_calls s1" "st_peers s2 = st_peers s1" "st_lastOutcome s2 = st_lastOutcome s1"
    using silent_rest [of "d_peerOrder d (st_peers s)" s1] 2 by simp_all
  obtain current changed s3 where 3: "fold (scan_missing d r phase) order (current1, changed1, s2) =
      (current, changed, s3)" by (metis surj_pair)
  have f3: "st_calls s3 = st_calls s2" "st_lastOutcome s3 = st_lastOutcome s2"
    using fold_scan_missing_frame [of d r phase order "(current1, changed1, s2)"] 3
    by (simp_all add: scan_state_def)
  have upd: "updateClusterPeerStates d r phase records s = (changed, s3\<lparr>st_peers := current\<rparr>)"
    using 1 2 3 f1 by (simp add: updateClusterPeerStates_def)
  show thesis by (rule that [OF 1 2 3 upd]) (use f1 f2 f3 in simp_all)
qed

lemma updateClusterPeerStates_frame [frame_simps]:
  "st_calls (snd (updateClusterPeerStates d r phase records s)) = st_calls s"
  "st_lastOutcome (snd (updateClusterPeerStates d r phase records s)) = st_lastOutcome s"
  by (rule updateClusterPeerStates_loops [of d r phase records s]; simp)+

lemma recordClusterHealthStatus_frame [frame_simps, quiet]:
  "st_calls (recordClusterHealthStatus d r phase attempted records err s) = st_calls s"
  "st_lastOutcome (recordClusterHealthStatus d r phase attempted records err s) = st_lastOutcome s"
  by (simp_all add: recordClusterHealthStatus_def Let_def split_beta emit_rest
      updateClusterPeerStates_frame)

section \<open>Changes\<close>

text \<open>
  The peers an inspection sees, and whether a node is seen as it was before: absent both times, or
  present with the same health, stage and reason.
\<close>

definition is_peer :: "runner \<Rightarrow> string \<Rightarrow> bool" where
  "is_peer r n \<longleftrightarrow> n \<noteq> [] \<and> n \<noteq> TrimSpace (NodeName (r_cfg r))"

definition peer_names :: "runner \<Rightarrow> cluster_record list \<Rightarrow> string list" where
  "peer_names r records = List.filter (is_peer r) (map (\<lambda>rec. TrimSpace (cr_Node rec)) records)"

fun peers_onto :: "runner \<Rightarrow> (string \<rightharpoonup> clusterPeerState) \<Rightarrow> cluster_record list \<Rightarrow> string \<rightharpoonup> clusterPeerState" where
  "peers_onto r m [] = m"
| "peers_onto r m (rec # recs) =
     (let n = TrimSpace (cr_Node rec) in
      peers_onto r (if is_peer r n then m(n \<mapsto> record_peer rec) else m) recs)"

definition same_at :: "(string \<rightharpoonup> clusterPeerState) \<Rightarrow> (string \<rightharpoonup> clusterPeerState) \<Rightarrow> string \<Rightarrow> bool" where
  "same_at a b n =
     (case a n of
        None \<Rightarrow> b n = None
      | Some x \<Rightarrow> (case b n of None \<Rightarrow> False | Some y \<Rightarrow> peerStatesEqual x y))"

lemma peers_onto_dom: "dom (peers_onto r m recs) = dom m \<union> set (peer_names r recs)"
  by (induction recs arbitrary: m) (auto simp: peer_names_def Let_def)

lemma peers_onto_other: "n \<notin> set (peer_names r recs) \<Longrightarrow> peers_onto r m recs n = m n"
  by (induction recs arbitrary: m) (auto simp: peer_names_def Let_def)

lemma emitPeer_reports:
  "length (st_reports (emitPeerStatusChange d r phase node cur prev s)) = Suc (length (st_reports s))"
  "length (st_reports (emitPeerMissingEvent d r phase node p s)) = Suc (length (st_reports s))"
  by (simp_all add: emitPeerStatusChange_def emitPeerMissingEvent_def Let_def emit_reports)

lemma scan_record_result:
  "scan_record d r phase rec (m, ch, s) =
     (let n = TrimSpace (cr_Node rec); m' = m(n \<mapsto> record_peer rec) in
      if is_peer r n then
        (m', ch \<or> \<not> same_at (st_peers s) m' n, snd (snd (scan_record d r phase rec (m, ch, s))))
      else (m, ch, s))"
  by (simp add: scan_record_def is_peer_def same_at_def Let_def split: option.splits)

lemma scan_record_reports:
  "length (st_reports (snd (snd (scan_record d r phase rec (m, ch, s))))) = length (st_reports s) +
     (let n = TrimSpace (cr_Node rec) in
      if is_peer r n \<and> \<not> same_at (st_peers s) (m(n \<mapsto> record_peer rec)) n then 1 else 0)"
  by (simp add: scan_record_def is_peer_def same_at_def Let_def emitPeer_reports split: option.splits)

lemma fold_scan_record:
  assumes "fold (scan_record d r phase) recs (m, ch, s) = (m', ch', s')"
    and "distinct (peer_names r recs)"
  shows "m' = peers_onto r m recs \<and>
    (ch' \<longleftrightarrow> ch \<or> (\<exists>n \<in> set (peer_names r recs). \<not> same_at (st_peers s) m' n)) \<and>
    length (st_reports s') = length (st_reports s) +
      length (List.filter (\<lambda>n. \<not> same_at (st_peers s) m' n) (peer_names r recs))"
  using assms
proof (induction recs arbitrary: m ch s)
  case Nil
  then show ?case by (simp add: peer_names_def)
next
  case (Cons rec recs)
  let ?n = "TrimSpace (cr_Node rec)"
  obtain m1 ch1 s1 where step: "scan_record d r phase rec (m, ch, s) = (m1, ch1, s1)" by (metis surj_pair)
  have rest: "fold (scan_record d r phase) recs (m1, ch1, s1) = (m', ch', s')"
    using Cons.prems(1) step by simp
  have dist: "distinct (peer_names r recs)"
    using Cons.prems(2) by (simp add: peer_names_def split: if_splits)
  have frame: "st_peers s1 = st_peers s"
    using scan_record_frame(2) [of d r phase rec "(m, ch, s)"] step by (simp add: scan_state_def)
  note IH = Cons.IH [OF rest dist, unfolded frame]
  have len: "length (st_reports s1) = length (st_reports s) +
     (if is_peer r ?n \<and> \<not> same_at (st_peers s) (m(?n \<mapsto> record_peer rec)) ?n then 1 else 0)"
    using scan_record_reports [of d r phase rec m ch s] step by (simp add: Let_def)
  show ?case
  proof (cases "is_peer r ?n")
    case True
    then have names: "peer_names r (rec # recs) = ?n # peer_names r recs"
      by (simp add: peer_names_def)
    from True step scan_record_result [of d r phase rec m ch s]
    have m1: "m1 = m(?n \<mapsto> record_peer rec)" "ch1 = (ch \<or> \<not> same_at (st_peers s) m1 ?n)"
      by (simp_all add: Let_def)
    have "m' ?n = m1 ?n"
      using IH Cons.prems(2) names by (simp add: peers_onto_other)
    then have same: "same_at (st_peers s) m1 ?n = same_at (st_peers s) m' ?n"
      by (simp add: same_at_def split: option.split)
    have onto: "peers_onto r m (rec # recs) = peers_onto r m1 recs"
      unfolding m1(1) by (simp add: Let_def True)
    have len': "length (st_reports s1) = length (st_reports s) +
        (if same_at (st_peers s) m' ?n then 0 else 1)"
      using len True unfolding same [symmetric] m1(1) by simp
    show ?thesis
      unfolding onto names using IH m1(2) len' same by auto
  next
    case False
    then have names: "peer_names r (rec # recs) = peer_names r recs"
      by (simp add: peer_names_def)
    from False step scan_record_result [of d r phase rec m ch s] have "m1 = m" "ch1 = ch"
      by (simp_all add: Let_def)
    then show ?thesis using IH False names len by (simp add: Let_def)
  qed
qed

lemma fold_scan_missing:
  assumes "fold (scan_missing d r phase) ns (m, ch, s) = (m', ch', s')"
  shows "m' = m \<and> (ch' \<longleftrightarrow> ch \<or> (\<exists>n \<in> set ns. m n = None)) \<and>
    length (st_reports s') = length (st_reports s) + length (List.filter (\<lambda>n. m n = None) ns)"
  using assms
proof (induction ns arbitrary: ch s)
  case Nil
  then show ?case by simp
next
  case (Cons n ns)
  obtain m1 ch1 s1 where "scan_missing d r phase n (m, ch, s) = (m1, ch1, s1)" by (metis surj_pair)
  then have step: "scan_missing d r phase n (m, ch, s) = (m, ch1, s1)"
    by (auto simp: scan_missing_def split: if_splits)
  then have "ch1 = (ch \<or> m n = None)" "length (st_reports s1) = length (st_reports s) + (if m n = None then 1 else 0)"
    by (auto simp: scan_missing_def emitPeer_reports split: if_splits)
  moreover have "fold (scan_missing d r phase) ns (m, ch1, s1) = (m', ch', s')"
    using Cons.prems step by simp
  note Cons.IH [OF this]
  ultimately show ?case by auto
qed

text \<open>The runtime visits every peer once.\<close>

definition ranges_peers :: "'w deps \<Rightarrow> bool" where
  "ranges_peers d \<longleftrightarrow> (\<forall>m w. finite (dom m) \<longrightarrow> visits m (fst (d_peerOrder d m w)))"

section \<open>Properties\<close>


text \<open>A peer that turned unhealthy, one that did not change and one that is gone.\<close>

definition demo_record :: "string \<Rightarrow> bool \<Rightarrow> cluster_record" where
  "demo_record n h = \<lparr>cr_Node = n, cr_Healthy = h, cr_Stage = [], cr_Reason = [], cr_ReportedAt = zero_time\<rparr>"

definition demo_peers :: "string \<rightharpoonup> clusterPeerState" where
  "demo_peers = [''b'' \<mapsto> record_peer (demo_record ''b'' True), ''c'' \<mapsto> record_peer (demo_record ''c'' True),
     ''d'' \<mapsto> record_peer (demo_record ''d'' True)]"

definition sorted_deps :: "unit deps" where
  "sorted_deps = demo_deps\<lparr>d_peerOrder := \<lambda>m w. (sorted_list_of_set (dom m), w)\<rparr>"


end
