(* ===== verification/RunnerLock.thy ===== *)
theory RunnerLock
  imports ClusterPeers
begin

text \<open>
  The steps of a pass (\<open>pkg/orchestrator/runner.go\<close>): acquiring the lock with randomised
  exponential back-off, releasing it, running the detectors and the health script under observation,
  and expanding the reboot command.
\<close>

section \<open>Back-off\<close>

text \<open>\<open>1 << attempt\<close> and the product are taken in 64 bits, where they may wrap.\<close>

definition backoff_base :: "nat \<Rightarrow> duration \<Rightarrow> duration \<Rightarrow> duration" where
  "backoff_base attempt mn mx =
     (let multiplier = push_bit attempt (1 :: duration);
          multiplier = (if sint multiplier \<le> 0 then 1 else multiplier);
          base = mn * multiplier;
          base = (if sint base < sint mn then mn else base)
      in if sint mx < sint base then mx else base)"

definition nextBackoffDelay :: "'w deps \<Rightarrow> nat \<Rightarrow> duration \<Rightarrow> duration \<Rightarrow> 'w st \<Rightarrow> duration \<times> 'w st" where
  "nextBackoffDelay d attempt mn mx s =
     (let base = backoff_base attempt mn mx in
      if sint base \<le> sint mn then (mn, s)
      else
        (let jitterRange = base - mn in
         if sint jitterRange \<le> 0 then (base, s)
         else (let (j, s) = silent (d_random d (sint (jitterRange + 1))) s in (mn + word_of_int j, s))))"

definition sleepWithContext :: "'w deps \<Rightarrow> duration \<Rightarrow> 'w st \<Rightarrow> go_error option \<times> 'w st" where
  "sleepWithContext d t s =
     (if sint t \<le> 0 then (None, s) else invoke (d_sleep d t) (Sleep t) s)"

section \<open>The lock\<close>

definition not_acquired :: "go_error \<Rightarrow> bool" where
  "not_acquired e \<longleftrightarrow> errors_Is e ErrNotAcquired"

text \<open>\<open>time.Since\<close>.\<close>

definition since :: "'w deps \<Rightarrow> gotime \<Rightarrow> 'w st \<Rightarrow> duration \<times> 'w st" where
  "since d start s = (let (t, s) = silent (d_time d) s in (time_Sub t start, s))"

type_synonym lock_result = "lease option \<times> bool \<times> int \<times> go_error option"

definition acquire_once :: "'w deps \<Rightarrow> 'w st \<Rightarrow> (go_error + lease) \<times> duration \<times> 'w st" where
  "acquire_once d s =
     (let (attemptStart, s) = silent (d_time d) s;
          (res, s) = invoke (d_acquire d) Acquire s;
          (duration, s) = since d attemptStart s
      in (res, duration, s))"

text \<open>The loop, from attempt number \<open>attempt\<close> on; the last delay is kept for the final error.\<close>

function acquire_loop :: "'w deps \<Rightarrow> runner \<Rightarrow> gotime \<Rightarrow> duration \<Rightarrow> duration \<Rightarrow> duration \<Rightarrow> nat \<Rightarrow> 'w st
    \<Rightarrow> lock_result \<times> 'w st" where
  "acquire_loop d r start mn mx lastDelay attempt s =
     (if int attempt < r_maxLockTries r then
        (let (res, duration, s) = acquire_once d s; n = int attempt in
         case res of
           Inr lease \<Rightarrow>
             (let s = recordLockAttempt d r n duration ''success'' None s;
                  (wait, s) = since d start s;
                  s = recordLockAcquired d r n wait s
              in ((Some lease, True, n + 1, None), s))
         | Inl e \<Rightarrow>
             if is_context_error e then
               ((None, False, n + 1, Some e), recordLockAttempt d r n duration ''canceled'' (Some e) s)
             else if not_acquired e then
               (let s = recordLockAttempt d r n duration ''contended'' (Some e) s in
                if n = r_maxLockTries r - 1 then
                  ((None, False, n + 1, None), recordLockFailure d r (n + 1) s)
                else
                  (let (delay, s) = nextBackoffDelay d attempt mn mx s;
                       s = recordLockBackoff d r n delay s;
                       (err, s) = sleepWithContext d delay s
                   in case err of
                        Some e \<Rightarrow> ((None, False, n + 1, Some e), s)
                      | None \<Rightarrow> acquire_loop d r start mn mx delay (attempt + 1) s))
             else ((None, False, n + 1, Some (Wrapf ''acquire lock'' e)),
                   recordLockAttempt d r n duration ''error'' (Some e) s))
      else
        ((None, False, r_maxLockTries r, Some (ErrMsg (''failed to acquire lock after '' @
            Itoa (r_maxLockTries r) @ '' attempts (last delay '' @ DurationString lastDelay @ '')''))),
         recordLockFailure d r (r_maxLockTries r) s))"
  by pat_completeness auto
termination
  by (relation "measure (\<lambda>(d, r, start, mn, mx, last, attempt, s). nat (r_maxLockTries r) - attempt)") auto

declare acquire_loop.simps [simp del]

definition backoff_bounds :: "runner \<Rightarrow> duration \<times> duration" where
  "backoff_bounds r =
     (let (mn, mx) = BackoffBounds (r_cfg r);
          mn = (if sint mn \<le> 0 then Second else mn);
          mx = (if sint mx < sint mn then mn else mx)
      in (mn, mx))"

definition acquireLock :: "'w deps \<Rightarrow> runner \<Rightarrow> 'w st \<Rightarrow> lock_result \<times> 'w st" where
  "acquireLock d r s =
     (let (mn, mx) = backoff_bounds r; (start, s) = silent (d_time d) s in
      acquire_loop d r start mn mx 0 0 s)"

definition releaseLease :: "'w deps \<Rightarrow> runner \<Rightarrow> lease \<Rightarrow> 'w st \<Rightarrow> go_error option \<times> 'w st" where
  "releaseLease d r lease s =
     (let (start, s) = silent (d_time d) s;
          (err, s) = invoke (d_release d lease) (Release lease) s;
          (duration, s) = since d start s;
          (result, lvl) = (if err \<noteq> None then (''error'', LevelWarn) else (''success'', LevelInfo));
          s = time_metric d ''lock_release_seconds'' duration [''result'' \<mapsto> result]
                ''Duration of lock release operations.'' s;
          s = emit_event d r lvl ''lock_released''
                [''result'' \<mapsto> VStr result, ''duration_ms'' \<mapsto> VInt (Milliseconds duration)] s
      in (map_option (wrap_unless_context ''release lock'') err, s))"

section \<open>Detectors and health\<close>

definition defaultKillSwitchCheck :: "'w os \<Rightarrow> string \<Rightarrow> 'w \<Rightarrow> (bool \<times> go_error option) \<times> 'w" where
  "defaultKillSwitchCheck os path w =
     (if blank path then ((False, None), w)
      else (case os_stat os path w of
              (None, w) \<Rightarrow> ((True, None), w)
            | (Some e, w) \<Rightarrow> if errors_Is e ErrNotExist then ((False, None), w) else ((False, Some e), w)))"

definition evaluateDetectorsWithObservability ::
    "'w deps \<Rightarrow> runner \<Rightarrow> string \<Rightarrow> 'w st \<Rightarrow> (bool \<times> det_result list \<times> go_error option) \<times> 'w st" where
  "evaluateDetectorsWithObservability d r phase s =
     (let (start, s) = silent (d_time d) s;
          ((requires, results, err), s) =
            invoke (d_evaluate d) (\<lambda>(req, res, err). EvaluateDetectors req err) s;
          (duration, s) = since d start s;
          s = recordDetectorEvaluation d r phase duration requires results err s
      in ((requires, results, err), s))"

definition health_env :: "runner \<Rightarrow> string \<Rightarrow> bool \<Rightarrow> int \<Rightarrow> string \<rightharpoonup> string" where
  "health_env r phase lockHeld lockAttempts =
     [''RC_PHASE'' \<mapsto> phase, ''RC_NODE_NAME'' \<mapsto> NodeName (r_cfg r),
      ''RC_LOCK_ENABLED'' \<mapsto> FormatBool (r_lockEnabled r),
      ''RC_LOCK_HELD'' \<mapsto> FormatBool lockHeld,
      ''RC_LOCK_ATTEMPTS'' \<mapsto> Itoa (if lockAttempts < 0 then 0 else lockAttempts)]"

definition runHealthWithObservability :: "'w deps \<Rightarrow> runner \<Rightarrow> string \<Rightarrow> bool \<Rightarrow> int \<Rightarrow> 'w st
    \<Rightarrow> (health_result \<times> go_error option) \<times> 'w st" where
  "runHealthWithObservability d r phase lockHeld lockAttempts s =
     (let env = health_env r phase lockHeld lockAttempts;
          (start, s) = silent (d_time d) s;
          ((res, err), s) =
            invoke (d_health d env) (\<lambda>(res, err). RunHealth env (hr_ExitCode res, err)) s;
          (duration, s) = since d start s;
          s = recordHealth d r phase duration res err s
      in ((res, err), s))"

definition runHealthAndUpdate :: "'w deps \<Rightarrow> runner \<Rightarrow> string \<Rightarrow> bool \<Rightarrow> int \<Rightarrow> 'w st
    \<Rightarrow> (health_result \<times> go_error option) \<times> 'w st" where
  "runHealthAndUpdate d r phase lockHeld lockAttempts s =
     (let ((res, err), s) = runHealthWithObservability d r phase lockHeld lockAttempts s in
      case err of
        Some e \<Rightarrow> ((res, Some (Wrapf (phase @ '' health check'') e)), s)
      | None \<Rightarrow>
        (let (err, s) = updateClusterHealth d r phase (hr_ExitCode res = 0) (hr_ExitCode res) s in
         case err of
           Some e \<Rightarrow> ((res, Some (Wrapf (''record '' @ phase @ '' cluster health'') e)), s)
         | None \<Rightarrow> ((res, None), s)))"

definition HealthPublishingEnabled :: "runner \<Rightarrow> bool" where
  "HealthPublishingEnabled r \<longleftrightarrow> r_clusterHealth r \<and> r_healthReporting r"

definition PublishHeartbeat :: "'w deps \<Rightarrow> runner \<Rightarrow> 'w st \<Rightarrow> go_error option \<times> 'w st" where
  "PublishHeartbeat d r s =
     (if \<not> HealthPublishingEnabled r then (None, s)
      else (let ((res, err), s) = runHealthAndUpdate d r ''heartbeat'' False 0 s in (err, s)))"

section \<open>The command\<close>

definition expandWithEnv :: "(string \<Rightarrow> string) \<Rightarrow> (string \<rightharpoonup> string) \<Rightarrow> string \<Rightarrow> string" where
  "expandWithEnv getenv env input =
     (if CHR ''$'' \<notin> set input then input
      else Expand (\<lambda>key. case env key of Some val \<Rightarrow> val | None \<Rightarrow> getenv key) input)"

definition expandCommand :: "'w deps \<Rightarrow> runner \<Rightarrow> 'w st \<Rightarrow> string list \<Rightarrow> string list" where
  "expandCommand d r s command = map (expandWithEnv (d_getenv d (st_world s)) (r_commandEnv r)) command"

definition formatDuration :: "duration \<Rightarrow> string" where
  "formatDuration d =
     (if sint d \<le> 0 then ''0s''
      else if sint Minute \<le> sint d then
        (let minutes = sint d div sint Minute; secs = sint d mod sint Minute div sint Second in
         if secs = 0 then Itoa minutes @ ''m'' else Itoa minutes @ ''m'' @ Itoa secs @ ''s'')
      else if sint Second \<le> sint d then Itoa (sint d div sint Second) @ ''s''
      else DurationString d)"

section \<open>Bounds of the delay\<close>

lemma sint_shifted_one:
  assumes "0 < sint (push_bit a (1 :: duration))"
  shows "sint (push_bit a (1 :: duration)) = 2 ^ a"
proof -
  consider "a < 63" | "a = 63" | "64 \<le> a" by linarith
  then show ?thesis
  proof cases
    case 1
    have "(2 :: int) ^ a < 2 ^ 63" using 1 by (intro power_strict_increasing) simp_all
    moreover have "(- (2 ^ 63) :: int) \<le> 2 ^ a" by (rule order_trans [of _ 0]) simp_all
    ultimately have "in_int64 (2 ^ a)" by (simp only: in_int64_def)
    from sint_of_int_int64 [OF this] show ?thesis by (simp add: push_bit_eq_mult)
  next
    case 2
    have "sint (push_bit 63 (1 :: duration)) < 0" by code_simp
    with assms 2 show ?thesis by simp
  next
    case 3
    then have "(2 :: duration) ^ a = 0" by (simp add: exp_eq_zero_iff [where 'a = 64])
    then have zero: "push_bit a (1 :: duration) = 0" by (simp add: push_bit_eq_mult)
    from assms show ?thesis unfolding zero by simp
  qed
qed

lemma sint_times_le:
  assumes "0 < sint (a :: duration)" "0 < sint b"
  shows "sint (a * b) \<le> sint a * sint b"
proof (cases "in_int64 (sint a * sint b)")
  case True
  then show ?thesis by (simp add: sint_times_int64)
next
  case False
  have "0 < sint a * sint b" using assms by simp
  with False have "2 ^ 63 \<le> sint a * sint b" by (simp add: in_int64_def)
  with sint_int64_bounds(2) [of "a * b"] show ?thesis by linarith
qed

lemma backoff_base_bounds:
  assumes "0 < sint mn" "sint mn \<le> sint mx"
  shows "sint mn \<le> sint (backoff_base a mn mx) \<and> sint (backoff_base a mn mx) \<le> sint mx \<and>
    sint (backoff_base a mn mx) \<le> sint mn * 2 ^ a"
proof -
  let ?m = "if sint (push_bit a (1 :: duration)) \<le> 0 then 1 else push_bit a 1 :: duration"
  have p: "sint mn \<le> sint mn * 2 ^ a" using assms(1) by simp
  have "sint (mn * ?m) \<le> sint mn * 2 ^ a"
  proof (cases "sint (push_bit a (1 :: duration)) \<le> 0")
    case True
    then show ?thesis using p by simp
  next
    case False
    then show ?thesis
      using sint_times_le [OF assms(1), of "push_bit a 1"] sint_shifted_one [of a] by simp
  qed
  with p assms show ?thesis by (auto simp: backoff_base_def Let_def)
qed

definition honest_random :: "'w deps \<Rightarrow> bool" where
  "honest_random d \<longleftrightarrow> (\<forall>n w. 0 < n \<longrightarrow> 0 \<le> fst (d_random d n w) \<and> fst (d_random d n w) < n)"

lemma nextBackoffDelay_bounds:
  assumes "honest_random d" "0 < sint mn" "sint mn \<le> sint mx"
  shows "sint mn \<le> sint (fst (nextBackoffDelay d a mn mx s)) \<and>
    sint (fst (nextBackoffDelay d a mn mx s)) \<le> sint (backoff_base a mn mx)"
proof (cases "sint (backoff_base a mn mx) \<le> sint mn")
  case True
  then show ?thesis using backoff_base_bounds [OF assms(2,3), of a] by (simp add: nextBackoffDelay_def)
next
  case False
  let ?b = "backoff_base a mn mx"
  note J = jitter_bounds [OF assms(2), of ?b]
  define j where "j = fst (silent (d_random d (sint (?b - mn + 1))) s)"
  have "0 < sint (?b - mn + 1)" using False J(2) by simp
  then have "0 \<le> j" "j < sint (?b - mn + 1)"
    using assms(1) by (simp_all add: honest_random_def j_def silent_def split_beta)
  then show ?thesis
    using False J(1,3) by (simp add: nextBackoffDelay_def Let_def split_beta j_def)
qed

section \<open>What a lock acquisition does\<close>

text \<open>The acquisitions and the sleeps of a trace.\<close>

fun acquires :: "call list \<Rightarrow> (go_error + lease) list" where
  "acquires [] = []"
| "acquires (Acquire x # cs) = x # acquires cs"
| "acquires (_ # cs) = acquires cs"

fun sleeps :: "call list \<Rightarrow> duration list" where
  "sleeps [] = []"
| "sleeps (Sleep t e # cs) = t # sleeps cs"
| "sleeps (_ # cs) = sleeps cs"

lemma acquires_append [simp]: "acquires (xs @ ys) = acquires xs @ acquires ys"
  by (induction xs rule: acquires.induct) auto

lemma sleeps_append [simp]: "sleeps (xs @ ys) = sleeps xs @ sleeps ys"
  by (induction xs rule: sleeps.induct) auto

definition contended :: "go_error + lease \<Rightarrow> bool" where
  "contended x \<longleftrightarrow> (\<exists>e. x = Inl e \<and> not_acquired e \<and> \<not> is_context_error e)"

text \<open>
  What the acquisitions of a run say about its result: all but the last found the lock held by
  another node, and the last decides.
\<close>

definition lock_verdict :: "int \<Rightarrow> (go_error + lease) list \<Rightarrow> lock_result \<Rightarrow> bool" where
  "lock_verdict max_tries as = (\<lambda>(lease, ok, n, err).
     n = int (length as) \<and> as \<noteq> [] \<and> list_all contended (butlast as) \<and> ok = (lease \<noteq> None) \<and>
     (case last as of
        Inr l \<Rightarrow> lease = Some l \<and> err = None
      | Inl e \<Rightarrow> lease = None \<and> (err = None \<longrightarrow> contended (Inl e) \<and> n = max_tries)))"

definition in_bounds :: "duration \<Rightarrow> duration \<Rightarrow> duration \<Rightarrow> bool" where
  "in_bounds mn mx t \<longleftrightarrow> sint mn \<le> sint t \<and> sint t \<le> sint mx"

lemma acquire_once_calls:
  "acquire_once d s = (res, t, s') \<Longrightarrow> st_calls s' = st_calls s @ [Acquire res]"
  by (auto simp: acquire_once_def since_def split_beta silent_rest invoke_calls)

lemma since_calls [frame_simps, quiet]: "st_calls (snd (since d t s)) = st_calls s"
  by (simp add: since_def split_beta silent_rest)

lemma nextBackoffDelay_calls [frame_simps, quiet]:
  "st_calls (snd (nextBackoffDelay d a mn mx s)) = st_calls s"
  by (simp add: nextBackoffDelay_def Let_def split_beta silent_rest)

lemma sleepWithContext_calls:
  "sleepWithContext d t s = (err, s') \<Longrightarrow>
    st_calls s' = st_calls s @ (if sint t \<le> 0 then [] else [Sleep t err])"
  using invoke_calls [of "d_sleep d t" "Sleep t" s]
  by (auto simp: sleepWithContext_def split: if_splits)

lemma lock_verdict_Cons:
  "contended x \<Longrightarrow> lock_verdict (m - 1) as (lease, ok, n - 1, err) \<Longrightarrow>
    lock_verdict m (x # as) (lease, ok, n, err)"
  by (auto simp: lock_verdict_def split: sum.splits)

lemma acquire_loop_trace:
  assumes "honest_random d" "0 < sint mn" "sint mn \<le> sint mx"
    and "int attempt < r_maxLockTries r"
    and "acquire_loop d r start mn mx lst attempt s = ((lease, ok, n, err), s')"
  shows "\<exists>cs. st_calls s' = st_calls s @ cs \<and>
    lock_verdict (r_maxLockTries r - int attempt) (acquires cs) (lease, ok, n - int attempt, err) \<and>
    n \<le> r_maxLockTries r \<and> list_all (in_bounds mn mx) (sleeps cs) \<and>
    set cs \<subseteq> range Acquire \<union> {c. \<exists>t e. c = Sleep t e}"
  using assms(4,5)
proof (induction "nat (r_maxLockTries r) - attempt" arbitrary: lst attempt s)
  case 0
  then show ?case by simp
next
  case (Suc k)
  let ?m = "r_maxLockTries r"
  obtain res t s1 where once: "acquire_once d s = (res, t, s1)" by (metis surj_pair)
  note c1 = acquire_once_calls [OF once]
  note run = Suc.prems(2) [unfolded acquire_loop.simps [of d r start mn mx lst attempt s]]
  show ?case
  proof (cases res)
    case (Inr l)
    then show ?thesis
      using run once c1 Suc.prems(1)
      by (intro exI [of _ "[Acquire res]"])
         (auto simp: Let_def split_beta record_calls since_calls lock_verdict_def)
  next
    case (Inl e)
    show ?thesis
    proof (cases "contended res \<and> int attempt \<noteq> ?m - 1")
      case False
      then show ?thesis
        using run once c1 Suc.prems(1) Inl
        by (intro exI [of _ "[Acquire res]"])
           (auto simp: Let_def split_beta record_calls since_calls lock_verdict_def contended_def
             split: if_splits)
    next
      case True
      then have e: "not_acquired e" "\<not> is_context_error e" "int attempt \<noteq> ?m - 1"
        using Inl by (auto simp: contended_def)
      let ?s2 = "recordLockAttempt d r (int attempt) t ''contended'' (Some e) s1"
      obtain delay s3 where delay: "nextBackoffDelay d attempt mn mx ?s2 = (delay, s3)" by (metis surj_pair)
      let ?s4 = "recordLockBackoff d r (int attempt) delay s3"
      obtain serr s5 where sleep: "sleepWithContext d delay ?s4 = (serr, s5)" by (metis surj_pair)
      have b: "in_bounds mn mx delay"
        using nextBackoffDelay_bounds [OF assms(1-3), of attempt ?s2]
          backoff_base_bounds [OF assms(2,3), of attempt] delay by (simp add: in_bounds_def)
      then have "\<not> sint delay \<le> 0" using assms(2) by (simp add: in_bounds_def)
      then have c5: "st_calls s5 = st_calls s @ [Acquire res, Sleep delay serr]"
        using sleepWithContext_calls [OF sleep] nextBackoffDelay_calls [of d attempt mn mx ?s2] delay c1
        by (simp add: record_calls)
      show ?thesis
      proof (cases serr)
        case (Some e')
        then show ?thesis
          using run once Inl e delay sleep c5 b True Suc.prems(1)
          by (intro exI [of _ "[Acquire res, Sleep delay serr]"])
             (auto simp: lock_verdict_def Let_def)
      next
        case None
        have rec: "acquire_loop d r start mn mx delay (attempt + 1) s5 = ((lease, ok, n, err), s')"
          using run once Inl e delay sleep None Suc.prems(1) by (simp add: Let_def)
        have "k = nat ?m - (attempt + 1)" "int (attempt + 1) < ?m"
          using Suc.hyps(2) Suc.prems(1) e(3) by simp_all
        from Suc.hyps(1) [OF this rec] obtain cs where cs: "st_calls s' = st_calls s5 @ cs"
          "lock_verdict (?m - int (attempt + 1)) (acquires cs) (lease, ok, n - int (attempt + 1), err)"
          "n \<le> ?m" "list_all (in_bounds mn mx) (sleeps cs)"
          "set cs \<subseteq> range Acquire \<union> {c. \<exists>t e. c = Sleep t e}" by auto
        have "lock_verdict (?m - int attempt) (res # acquires cs) (lease, ok, n - int attempt, err)"
          using True cs(2) by (intro lock_verdict_Cons) (simp_all add: diff_diff_eq add.commute)
        with cs c5 b show ?thesis
          by (intro exI [of _ "Acquire res # Sleep delay serr # cs"]) simp
      qed
    qed
  qed
qed

lemma backoff_bounds_positive:
  "0 < sint (fst (backoff_bounds r))" "sint (fst (backoff_bounds r)) \<le> sint (snd (backoff_bounds r))"
proof -
  have "0 < sint Second" by (simp add: sint_Second)
  then show "0 < sint (fst (backoff_bounds r))" "sint (fst (backoff_bounds r)) \<le> sint (snd (backoff_bounds r))"
    by (auto simp: backoff_bounds_def Let_def split_beta)
qed

lemma acquireLock_trace:
  assumes "honest_random d" "0 < r_maxLockTries r"
    and "acquireLock d r s = ((lease, ok, n, err), s')"
  shows "\<exists>cs. st_calls s' = st_calls s @ cs \<and>
    lock_verdict (r_maxLockTries r) (acquires cs) (lease, ok, n, err) \<and> n \<le> r_maxLockTries r \<and>
    list_all (in_bounds (fst (backoff_bounds r)) (snd (backoff_bounds r))) (sleeps cs) \<and>
    set cs \<subseteq> range Acquire \<union> {c. \<exists>t e. c = Sleep t e}"
proof -
  obtain start s1 where t: "silent (d_time d) s = (start, s1)" by (metis surj_pair)
  then have c: "st_calls s1 = st_calls s" using silent_rest(1) [of "d_time d" s] by simp
  have "acquire_loop d r start (fst (backoff_bounds r)) (snd (backoff_bounds r)) 0 0 s1 =
      ((lease, ok, n, err), s')"
    using assms(3) t by (simp add: acquireLock_def split_beta)
  from acquire_loop_trace [OF assms(1) backoff_bounds_positive _ this] assms(2) c
  show ?thesis by simp
qed

section \<open>What the other steps call\<close>

lemma releaseLease_calls:
  "releaseLease d r l s = (err, s') \<Longrightarrow>
    \<exists>e. st_calls s' = st_calls s @ [Release l e] \<and> err = map_option (wrap_unless_context ''release lock'') e"
  by (auto simp: releaseLease_def Let_def split_beta emit_rest since_calls invoke_calls silent_rest)

lemma evaluateDetectors_calls:
  "evaluateDetectorsWithObservability d r phase s = ((req, results, err), s') \<Longrightarrow>
    st_calls s' = st_calls s @ [EvaluateDetectors req err]"
  by (auto simp: evaluateDetectorsWithObservability_def Let_def split_beta record_calls since_calls
      invoke_calls silent_rest)

lemma inspectClusterHealth_calls:
  "inspectClusterHealth d r phase s = ((records, err), s') \<Longrightarrow>
    st_calls s' = st_calls s @ (if r_clusterHealth r then [HealthStatus (records, err)] else []) \<and>
    (\<not> r_clusterHealth r \<longrightarrow> records = [] \<and> err = None)"
  by (auto simp: inspectClusterHealth_def Let_def split_beta recordClusterHealthStatus_frame
      invoke_calls split: if_splits)

definition is_health_update :: "call \<Rightarrow> bool" where
  "is_health_update c = (case c of ReportHealthy e \<Rightarrow> True | ReportUnhealthy h e \<Rightarrow> True | _ \<Rightarrow> False)"

lemma is_health_update_simps [simp]:
  "is_health_update (ReportHealthy e)" "is_health_update (ReportUnhealthy h e)"
  by (simp_all add: is_health_update_def)

lemma updateClusterHealth_calls:
  "updateClusterHealth d r phase healthy code s = (err, s') \<Longrightarrow>
    \<exists>us. st_calls s' = st_calls s @ us \<and> list_all is_health_update us \<and>
      us = (if \<not> HealthPublishingEnabled r then []
            else if healthy then [ReportHealthy err]
            else [ReportUnhealthy \<lparr>hp_Stage = phase, hp_Reason = phase @ '' exit '' @ Itoa code\<rparr> err])"
  by (auto simp: updateClusterHealth_def HealthPublishingEnabled_def Let_def split_beta record_calls
      invoke_calls split: if_splits)

text \<open>Running the health script is one call of it, then at most one update of the cluster's view,
  which agrees with the exit code.\<close>

lemma runHealthAndUpdate_calls:
  assumes "runHealthAndUpdate d r phase held n s = ((res, err), s')"
  shows "\<exists>e us. st_calls s' = st_calls s @ RunHealth (health_env r phase held n) (hr_ExitCode res, e) # us \<and>
    list_all is_health_update us \<and> (err = None \<longrightarrow> e = None)"
proof -
  obtain res1 e s1 where h: "runHealthWithObservability d r phase held n s = ((res1, e), s1)"
    by (metis surj_pair)
  then have c1: "st_calls s1 = st_calls s @ [RunHealth (health_env r phase held n) (hr_ExitCode res1, e)]"
    by (auto simp: runHealthWithObservability_def Let_def split_beta record_calls since_calls
        invoke_calls silent_rest)
  obtain e2 s2 where u: "updateClusterHealth d r phase (hr_ExitCode res1 = 0) (hr_ExitCode res1) s1 = (e2, s2)"
    by (metis surj_pair)
  from updateClusterHealth_calls [OF u] obtain us
    where us: "st_calls s2 = st_calls s1 @ us" "list_all is_health_update us" by blast
  show ?thesis
  proof (cases e)
    case None
    with assms h u have "res = res1" "s' = s2"
      by (auto simp: runHealthAndUpdate_def split: option.splits)
    then show ?thesis using c1 us None by (intro exI [of _ e] exI [of _ us]) simp
  next
    case (Some x)
    with assms h have "res = res1" "s' = s1" "err \<noteq> None"
      by (auto simp: runHealthAndUpdate_def)
    then show ?thesis using c1 by (intro exI [of _ e] exI [of _ "[]"]) auto
  qed
qed

section \<open>Properties\<close>

text \<open>C26: The back-off stays in its window whatever the arithmetic does.  With an honest random
  source the delay before the next attempt is at least the minimum and at most the maximum, and at
  most the minimum doubled once per attempt, for every attempt number, although the shift and the
  product wrap at 64 bits.\<close>

theorem backoff_delay_bounds:
  assumes "honest_random d" "0 < sint mn" "sint mn \<le> sint mx"
    and "nextBackoffDelay d attempt mn mx s = (delay, s')"
  shows "sint mn \<le> sint delay \<and> sint delay \<le> sint mx \<and> sint delay \<le> sint mn * 2 ^ attempt"
  using nextBackoffDelay_bounds [OF assms(1-3), of attempt s]
    backoff_base_bounds [OF assms(2,3), of attempt] assms(4) by simp

definition top_deps :: "unit deps" where
  "top_deps = demo_deps\<lparr>d_random := \<lambda>n w. (if 0 < n then n - 1 else 0, w)\<rparr>"

lemma top_deps_honest: "honest_random top_deps"
  by (simp add: honest_random_def top_deps_def)

theorem backoff_delay_bounds_witness:
  "sint (fst (nextBackoffDelay top_deps 3 (seconds 5) (seconds 60) demo_st)) \<le> 40 * 1000000000 \<and>
   sint (fst (nextBackoffDelay top_deps 62 (seconds 5) (seconds 60) demo_st)) \<le> 60 * 1000000000"
proof -
  have s: "sint (seconds 5) = 5 * 1000000000" "sint (seconds 60) = 60 * 1000000000"
    by code_simp+
  have "0 < sint (seconds 5)" "sint (seconds 5) \<le> sint (seconds 60)" by (simp_all add: s)
  note B = backoff_delay_bounds [OF top_deps_honest this prod.collapse [symmetric]]
  from B [of 3 demo_st] B [of 62 demo_st] show ?thesis by (simp add: s)
qed


text \<open>A lock that is held elsewhere twice, then free: the world counts the attempts.\<close>

definition busy_deps :: "nat deps" where
  "busy_deps = \<lparr>d_time = \<lambda>w. (zero_time, w), d_now = \<lambda>w. (zero_time, w),
     d_checkKill = \<lambda>p w. ((False, None), w), d_evaluate = \<lambda>w. ((True, [], None), w),
     d_health = \<lambda>env w. ((\<lparr>hr_ExitCode = 0, hr_Stdout = [], hr_Stderr = [], hr_Duration = 0\<rparr>, None), w),
     d_clusterStatus = \<lambda>w. (([], None), w), d_reportHealthy = \<lambda>w. (None, w),
     d_reportUnhealthy = \<lambda>h w. (None, w),
     d_cooldownStatus = (\<lambda>w. ((\<lparr>cs_Active = False, cs_Node = [], cs_StartedAt = zero_time,
       cs_ExpiresAt = zero_time, cs_Remaining = 0\<rparr>, None), w)),
     d_cooldownStart = \<lambda>t w. (None, w),
     d_acquire = \<lambda>w. (if w < 2 then Inl (Sentinel ErrNotAcquired) else Inr 7, w + 1),
     d_release = \<lambda>l w. (None, w), d_sleep = \<lambda>t w. (None, w),
     d_random = \<lambda>n w. (0, w), d_getenv = \<lambda>w k. [], d_peerOrder = \<lambda>m w. ([], w),
     d_report = \<lambda>x w. w, d_unrepresentable = 0\<rparr>"

definition busy_st :: "nat st" where
  "busy_st = \<lparr>st_world = 0, st_calls = [], st_reports = [], st_lastOutcome = None,
     st_summaries = Map.empty, st_peers = Map.empty\<rparr>"

lemma busy_acquire: "fst (acquireLock busy_deps demo_r busy_st) = (Some 7, True, 3, None)"
  by code_simp


text \<open>C32: A variable in the reboot command stands for the runner's value if it has one and else for
  the daemon's environment; the text around it, up to the next dollar sign, stays as it is.\<close>

theorem expand_reference:
  assumes "k \<noteq> []" "CHR ''}'' \<notin> set k" "\<not> isShellSpecialVar (hd k)"
    and "CHR ''$'' \<notin> set pre" "CHR ''$'' \<notin> set post"
  shows "expandWithEnv getenv env (pre @ ''${'' @ k @ CHR ''}'' # post) =
    pre @ (case env k of Some v \<Rightarrow> v | None \<Rightarrow> getenv k) @ post"
proof -
  let ?f = "\<lambda>key. case env key of Some val \<Rightarrow> val | None \<Rightarrow> getenv key"
  have "Expand ?f (pre @ ''${'' @ k @ CHR ''}'' # post) = pre @ Expand ?f (''${'' @ k @ CHR ''}'' # post)"
    by (rule Expand_append_no_dollar [OF assms(4)])
  also have "\<dots> = pre @ ?f k @ Expand ?f post"
    by (simp only: Expand_braces [OF assms(1-3)])
  also have "Expand ?f post = post"
    by (rule Expand_no_dollar [OF assms(5)])
  finally show ?thesis by (simp add: expandWithEnv_def)
qed

theorem expand_reference_witness:
  "expandWithEnv (\<lambda>k. []) [''RC_NODE_NAME'' \<mapsto> ''a''] ''reboot of ${RC_NODE_NAME} now'' = ''reboot of a now''"
proof -
  have "\<not> isShellSpecialVar (CHR ''R'')" by code_simp
  then show ?thesis
    using expand_reference [of "''RC_NODE_NAME''" "''reboot of ''" "'' now''" "\<lambda>k. []" "[''RC_NODE_NAME'' \<mapsto> ''a'']"]
    by simp
qed

end
