(* ===== verification/RunOnce.thy ===== *)
theory RunOnce
  imports RunnerLock
begin

text \<open>
  \<open>Runner.RunOnce\<close> (\<open>pkg/orchestrator/runner.go\<close>): one pass of the orchestration, as a
  sequence of stages.  A stage either ends the pass with an outcome and an error, or goes on; the
  deferred functions release the lease and record the outcome.
\<close>

section \<open>Stages\<close>

type_synonym ('w, 'a) stage = "'w st \<Rightarrow> ((outcome \<times> go_error option) + 'a) \<times> 'w st"

definition stage_then :: "('w, 'a) stage \<Rightarrow> ('a \<Rightarrow> ('w, 'b) stage) \<Rightarrow> ('w, 'b) stage" where
  "stage_then m k s = (case m s of (Inl x, s) \<Rightarrow> (Inl x, s) | (Inr a, s) \<Rightarrow> k a s)"

definition stop_with :: "outcome \<Rightarrow> outcome_status \<Rightarrow> string \<Rightarrow> (outcome \<times> go_error option) + 'a" where
  "stop_with out status msg = Inl (out\<lparr>Status := Some status, Message := msg\<rparr>, None)"

definition check_kill_switch ::
    "'w deps \<Rightarrow> runner \<Rightarrow> string \<Rightarrow> string \<Rightarrow> string \<Rightarrow> outcome \<Rightarrow> ('w, outcome) stage" where
  "check_kill_switch d r stage errText suffix out s =
     (let ((active, err), s) = invoke (d_checkKill d (r_killSwitchPath r)) CheckKill s;
          s = recordKillSwitch d r stage active err s
      in (case err of
            Some e \<Rightarrow> Inl (out, Some (Wrapf errText e))
          | None \<Rightarrow>
            if active then
              stop_with out OutcomeKillSwitch (''kill switch '' @ r_killSwitchPath r @ '' present'' @ suffix)
            else Inr out, s))"

definition check_windows :: "'w deps \<Rightarrow> runner \<Rightarrow> outcome \<Rightarrow> ('w, outcome) stage" where
  "check_windows d r out s =
     (case r_windows r of
        None \<Rightarrow> (Inr out, s)
      | Some ev \<Rightarrow>
        (let (dec, s) = invoke (\<lambda>w. let (t, w) = d_now d w in (Evaluate ev t, w)) WindowDecision s;
             s = recordWindowDecision d r dec s
         in (if \<not> Allowed dec then
               (case MatchedDeny dec of
                  Some e \<Rightarrow> stop_with out OutcomeWindowDenied (''blocked by deny window '' @ Quote e)
                | None \<Rightarrow> stop_with out OutcomeWindowOutside ''outside configured allow windows'')
             else Inr out, s)))"

definition monitor_health :: "'w deps \<Rightarrow> runner \<Rightarrow> outcome \<Rightarrow> ('w, outcome) stage" where
  "monitor_health d r out s =
     (let ((res, err), s) = runHealthAndUpdate d r ''monitor'' False 0 s;
          out = out\<lparr>PreLockHealthResult := Some res, PreLockHealthPhase := ''monitor''\<rparr>
      in (case err of
            Some e \<Rightarrow> Inl (out, Some e)
          | None \<Rightarrow>
            if hr_ExitCode res \<noteq> 0 then
              stop_with out OutcomeHealthBlocked
                (''health script reported unhealthy during monitoring (exit '' @ Itoa (hr_ExitCode res) @ '')'')
            else stop_with out OutcomeNoAction ''no detectors require a reboot'', s))"

definition check_detectors :: "'w deps \<Rightarrow> runner \<Rightarrow> outcome \<Rightarrow> ('w, outcome) stage" where
  "check_detectors d r out s =
     (let ((requires, results, err), s) = evaluateDetectorsWithObservability d r ''pre-lock'' s;
          out = out\<lparr>DetectorResults := results\<rparr>
      in case err of
           Some e \<Rightarrow> (Inl (out, Some (Wrapf ''detector evaluation'' e)), s)
         | None \<Rightarrow> if \<not> requires then monitor_health d r out s else (Inr out, s))"

definition check_cluster ::
    "'w deps \<Rightarrow> runner \<Rightarrow> string \<Rightarrow> string \<Rightarrow> outcome \<Rightarrow> ('w, outcome) stage" where
  "check_cluster d r phase errText out s =
     (let ((records, err), s) = inspectClusterHealth d r phase s
      in (case err of
            Some e \<Rightarrow> Inl (out, Some (Wrapf errText e))
          | None \<Rightarrow>
            (let (blocked, message, blockers) = evaluateClusterPolicies (d_unrepresentable d) (r_cfg r) records
             in if blocked then
                  stop_with (out\<lparr>ClusterUnhealthy := cloneClusterRecords blockers\<rparr>) OutcomeHealthBlocked message
                else Inr out), s))"

definition check_health :: "'w deps \<Rightarrow> runner \<Rightarrow> outcome \<Rightarrow> ('w, outcome) stage" where
  "check_health d r out s =
     (let ((res, err), s) = runHealthAndUpdate d r ''pre-lock'' False 0 s;
          out = out\<lparr>PreLockHealthResult := Some res, PreLockHealthPhase := ''pre-lock''\<rparr>
      in (case err of
            Some e \<Rightarrow> Inl (out, Some e)
          | None \<Rightarrow>
            if hr_ExitCode res \<noteq> 0 then
              stop_with out OutcomeHealthBlocked
                (''health script blocked reboot before lock (exit '' @ Itoa (hr_ExitCode res) @ '')'')
            else Inr out, s))"

text \<open>The remaining time of an active cooldown, as the message shows it.\<close>

definition cooldown_remaining :: "'w deps \<Rightarrow> cooldown_status \<Rightarrow> 'w st \<Rightarrow> duration \<times> 'w st" where
  "cooldown_remaining d status s =
     (let (remaining, s) =
            (if sint (cs_Remaining status) \<le> 0 \<and> \<not> IsZero (cs_ExpiresAt status)
             then (let (t, s) = silent (d_time d) s in (time_Sub (cs_ExpiresAt status) t, s))
             else (cs_Remaining status, s))
      in (if sint remaining < 0 then 0 else remaining, s))"

definition cooldown_message :: "duration \<Rightarrow> string \<Rightarrow> string" where
  "cooldown_message remaining node =
     (let details = (if 0 < sint remaining then [''remaining '' @ formatDuration remaining] else []) @
                    (if node \<noteq> [] then [''started by '' @ node] else [])
      in if details \<noteq> [] then ''reboot cooldown active ('' @ Join details '', '' @ '')''
         else ''reboot cooldown active'')"

definition check_cooldown :: "'w deps \<Rightarrow> runner \<Rightarrow> outcome \<Rightarrow> ('w, outcome) stage" where
  "check_cooldown d r out s =
     (if 0 < sint (r_cooldownWindow r) \<and> r_cooldown r then
        (let ((status, err), s) = invoke (d_cooldownStatus d) CooldownStatus s;
             s = recordCooldownStatus d r ''pre-lock'' status err s
         in case err of
              Some e \<Rightarrow> (Inl (out, Some (Wrapf ''check reboot cooldown'' e)), s)
            | None \<Rightarrow>
              if cs_Active status then
                (let (remaining, s) = cooldown_remaining d status s in
                 (stop_with out OutcomeCooldownActive (cooldown_message remaining (cs_Node status)), s))
              else (Inr out, s))
      else (Inr out, s))"

definition skip_lock :: "'w deps \<Rightarrow> runner \<Rightarrow> outcome \<Rightarrow> ('w, outcome) stage" where
  "skip_lock d r out s =
     (if \<not> r_lockEnabled r then
        (stop_with (out\<lparr>out_DryRun := DryRun (r_cfg r), Command := expandCommand d r s (RebootCommand (r_cfg r))\<rparr>)
           OutcomeLockSkipped
           (if r_lockSkipReason r = [] then ''lock acquisition disabled'' else r_lockSkipReason r), s)
      else (Inr out, s))"

definition pre_lock_stages :: "'w deps \<Rightarrow> runner \<Rightarrow> ('w, outcome) stage" where
  "pre_lock_stages d r =
     stage_then (check_kill_switch d r ''pre-lock'' ''check kill switch'' [] empty_outcome) (\<lambda>out.
     stage_then (check_windows d r out) (\<lambda>out.
     stage_then (check_detectors d r out) (\<lambda>out.
     stage_then (check_cluster d r ''pre-lock'' ''check cluster health before lock'' out) (\<lambda>out.
     stage_then (check_health d r out) (\<lambda>out.
     stage_then (check_cooldown d r out) (\<lambda>out.
     skip_lock d r out))))))"

definition take_lock :: "'w deps \<Rightarrow> runner \<Rightarrow> outcome \<Rightarrow> ('w, outcome \<times> lease \<times> int) stage" where
  "take_lock d r out s =
     (let ((lease, acquired, attempts, err), s) = acquireLock d r s
      in (case err of
            Some e \<Rightarrow> Inl (out, Some e)
          | None \<Rightarrow>
            (case lease of
               Some l \<Rightarrow> Inr (out\<lparr>LockAcquired := True\<rparr>, l, attempts)
             | None \<Rightarrow> stop_with out OutcomeLockUnavailable
                 (''failed to acquire lock after '' @ Itoa (r_maxLockTries r) @ '' attempts'')), s))"

section \<open>Under the lock\<close>

definition recheck_detectors :: "'w deps \<Rightarrow> runner \<Rightarrow> outcome \<Rightarrow> ('w, outcome) stage" where
  "recheck_detectors d r out s =
     (let ((requires, results, err), s) = evaluateDetectorsWithObservability d r ''post-lock'' s;
          out = out\<lparr>PostLockDetectorResults := results\<rparr>
      in (case err of
            Some e \<Rightarrow> Inl (out, Some (Wrapf ''post-lock detector evaluation'' e))
          | None \<Rightarrow>
            if \<not> requires then stop_with out OutcomeRecheckCleared ''detectors cleared after lock acquisition''
            else Inr out, s))"

definition recheck_health :: "'w deps \<Rightarrow> runner \<Rightarrow> int \<Rightarrow> outcome \<Rightarrow> ('w, outcome) stage" where
  "recheck_health d r attempts out s =
     (let ((res, err), s) = runHealthAndUpdate d r ''post-lock'' True attempts s;
          out = out\<lparr>PostLockHealthResult := Some res, PostLockHealthPhase := ''post-lock''\<rparr>
      in (case err of
            Some e \<Rightarrow> Inl (out, Some e)
          | None \<Rightarrow>
            if hr_ExitCode res \<noteq> 0 then
              stop_with out OutcomeHealthBlocked
                (''health script blocked reboot under lock (exit '' @ Itoa (hr_ExitCode res) @ '')'')
            else Inr out, s))"

definition under_lock_stages :: "'w deps \<Rightarrow> runner \<Rightarrow> int \<Rightarrow> outcome \<Rightarrow> ('w, outcome) stage" where
  "under_lock_stages d r attempts out =
     stage_then (check_kill_switch d r ''post-lock'' ''check kill switch after lock'' '' after lock'' out) (\<lambda>out.
     stage_then (check_cluster d r ''post-lock'' ''check cluster health under lock'' out) (\<lambda>out.
     stage_then (recheck_detectors d r out) (\<lambda>out.
     recheck_health d r attempts out)))"

text \<open>The ready outcome: unless nothing is to be executed, the lease is handed over with it.\<close>

definition ready_outcome :: "'w deps \<Rightarrow> runner \<Rightarrow> lease \<Rightarrow> 'w st \<Rightarrow> outcome \<Rightarrow> outcome" where
  "ready_outcome d r l s out =
     (let cmd = expandCommand d r s (RebootCommand (r_cfg r));
          out = out\<lparr>Status := Some OutcomeReady, Message := ''reboot prerequisites satisfied'',
                    out_DryRun := DryRun (r_cfg r), Command := cmd\<rparr>
      in if \<not> DryRun (r_cfg r) \<and> cmd \<noteq> [] then
           (if r_cooldown r \<and> 0 < sint (r_cooldownWindow r)
            then out\<lparr>lockRelease := Some l, cooldownStart := Some (r_cooldownWindow r), cooldownClear := True\<rparr>
            else out\<lparr>lockRelease := Some l\<rparr>)
         else out)"

text \<open>The deferred release of a lease that has not been handed over; its error counts only when
  there is no other.\<close>

definition deferred_release :: "'w deps \<Rightarrow> runner \<Rightarrow> lease \<Rightarrow> outcome \<Rightarrow> go_error option \<Rightarrow> 'w st
    \<Rightarrow> outcome \<times> go_error option \<times> 'w st" where
  "deferred_release d r l out err s =
     (case lockRelease out of
        Some _ \<Rightarrow> (out, err, s)
      | None \<Rightarrow> (let (e, s) = releaseLease d r l s in (out, if err = None then e else err, s)))"

definition run_under_lock :: "'w deps \<Rightarrow> runner \<Rightarrow> outcome \<times> lease \<times> int \<Rightarrow> 'w st
    \<Rightarrow> outcome \<times> go_error option \<times> 'w st" where
  "run_under_lock d r = (\<lambda>(out, l, attempts) s.
     case under_lock_stages d r attempts out s of
       (Inl (out, err), s) \<Rightarrow> deferred_release d r l out err s
     | (Inr out, s) \<Rightarrow> deferred_release d r l (ready_outcome d r l s out) None s)"

definition run_stages :: "'w deps \<Rightarrow> runner \<Rightarrow> 'w st \<Rightarrow> outcome \<times> go_error option \<times> 'w st" where
  "run_stages d r s =
     (case stage_then (pre_lock_stages d r) (take_lock d r) s of
        (Inl (out, err), s) \<Rightarrow> (out, err, s)
      | (Inr locked, s) \<Rightarrow> run_under_lock d r locked s)"

definition RunOnce :: "'w deps \<Rightarrow> runner \<Rightarrow> 'w st \<Rightarrow> outcome \<times> go_error option \<times> 'w st" where
  "RunOnce d r s =
     (let (out, err, s) = run_stages d r s in
      (out, err, if err = None \<and> Status out \<noteq> None then recordOutcome d r out s else s))"

section \<open>Using an outcome\<close>

definition ReleaseLock :: "'w deps \<Rightarrow> runner \<Rightarrow> outcome \<Rightarrow> 'w st \<Rightarrow> go_error option \<times> outcome \<times> 'w st" where
  "ReleaseLock d r out s =
     (case lockRelease out of
        None \<Rightarrow> (None, out, s)
      | Some l \<Rightarrow> (let (err, s) = releaseLease d r l s in (err, out\<lparr>lockRelease := None\<rparr>, s)))"

definition startCooldown :: "'w deps \<Rightarrow> runner \<Rightarrow> outcome \<Rightarrow> 'w st \<Rightarrow> go_error option \<times> outcome \<times> 'w st" where
  "startCooldown d r out s =
     (case cooldownStart out of
        None \<Rightarrow> (None, out, s)
      | Some interval \<Rightarrow>
        (let out = out\<lparr>cooldownStart := None\<rparr>;
             (err, s) = invoke (d_cooldownStart d interval) (CooldownStart interval) s;
             s = recordCooldownActivation d r interval err s
         in case err of
              Some e \<Rightarrow> (Some (wrap_unless_context ''start reboot cooldown'' e), out, s)
            | None \<Rightarrow> (None, out\<lparr>cooldownStarted := True\<rparr>, s)))"

definition clearCooldown :: "'w deps \<Rightarrow> runner \<Rightarrow> outcome \<Rightarrow> 'w st \<Rightarrow> go_error option \<times> outcome \<times> 'w st" where
  "clearCooldown d r out s =
     (if \<not> cooldownClear out then (None, out, s)
      else
        (let (err, s) = invoke (d_cooldownStart d 0) (CooldownStart 0) s;
             s = recordCooldownClear d r err s
         in (map_option (wrap_unless_context ''clear reboot cooldown'') err, out\<lparr>cooldownClear := False\<rparr>, s)))"

end
