(* ===== verification/PassSafety.thy ===== *)
theory PassSafety
  imports RunOnce
begin

text \<open>
  What a pass guarantees, stated on the trace of the calls it makes: the gates a ready outcome has
  passed, in order, and the fate of the lease.
\<close>

section \<open>Gates\<close>

text \<open>A gate is a property of the calls of one stage; a list of gates is passed one after another.\<close>

fun gates :: "(call list \<Rightarrow> bool) list \<Rightarrow> call list \<Rightarrow> bool" where
  "gates [] cs = (cs = [])"
| "gates (g # gs) cs = (\<exists>a b. cs = a @ b \<and> g a \<and> gates gs b)"

definition kill_gate :: "call list \<Rightarrow> bool" where
  "kill_gate cs \<longleftrightarrow> cs = [CheckKill (False, None)]"

definition window_gate :: "runner \<Rightarrow> call list \<Rightarrow> bool" where
  "window_gate r cs \<longleftrightarrow>
     (case r_windows r of None \<Rightarrow> cs = []
      | Some ev \<Rightarrow> \<exists>t. cs = [WindowDecision (Evaluate ev t)] \<and> Allowed (Evaluate ev t))"

definition detector_gate :: "call list \<Rightarrow> bool" where
  "detector_gate cs \<longleftrightarrow> cs = [EvaluateDetectors True None]"

definition cluster_gate :: "int \<Rightarrow> runner \<Rightarrow> call list \<Rightarrow> bool" where
  "cluster_gate u r cs \<longleftrightarrow>
     (\<exists>records. cs = (if r_clusterHealth r then [HealthStatus (records, None)] else []) \<and>
        \<not> fst (evaluateClusterPolicies u (r_cfg r) (if r_clusterHealth r then records else [])))"

text \<open>A healthy answer of the script in the given phase, and what is then told to the cluster.\<close>

definition health_gate :: "runner \<Rightarrow> string \<Rightarrow> bool \<Rightarrow> int \<Rightarrow> call list \<Rightarrow> bool" where
  "health_gate r phase held n cs \<longleftrightarrow>
     (\<exists>us. cs = RunHealth (health_env r phase held n) (0, None) # us \<and> list_all is_health_update us)"

definition cooldown_gate :: "runner \<Rightarrow> call list \<Rightarrow> bool" where
  "cooldown_gate r cs \<longleftrightarrow>
     (if 0 < sint (r_cooldownWindow r) \<and> r_cooldown r
      then \<exists>st. cs = [CooldownStatus (st, None)] \<and> \<not> cs_Active st else cs = [])"

definition enabled_gate :: "runner \<Rightarrow> call list \<Rightarrow> bool" where
  "enabled_gate r cs \<longleftrightarrow> cs = [] \<and> r_lockEnabled r"

definition lock_gate :: "runner \<Rightarrow> lease \<Rightarrow> int \<Rightarrow> call list \<Rightarrow> bool" where
  "lock_gate r l n cs \<longleftrightarrow>
     (\<exists>as. acquires cs = as @ [Inr l] \<and> list_all contended as \<and> n = int (length as) + 1 \<and>
        n \<le> r_maxLockTries r) \<and>
     set cs \<subseteq> range Acquire \<union> {c. \<exists>t e. c = Sleep t e}"

definition pre_lock_gates :: "int \<Rightarrow> runner \<Rightarrow> (call list \<Rightarrow> bool) list" where
  "pre_lock_gates u r = [kill_gate, window_gate r, detector_gate, cluster_gate u r,
     health_gate r ''pre-lock'' False 0, cooldown_gate r, enabled_gate r]"

definition under_lock_gates :: "int \<Rightarrow> runner \<Rightarrow> int \<Rightarrow> (call list \<Rightarrow> bool) list" where
  "under_lock_gates u r n = [kill_gate, cluster_gate u r, detector_gate,
     health_gate r ''post-lock'' True n]"

lemma gates_Cons: "g a \<Longrightarrow> gates gs b \<Longrightarrow> gates (g # gs) (a @ b)"
  by auto

lemma gates_append_left: "gates gs a \<Longrightarrow> gates hs b \<Longrightarrow> gates (gs @ hs) (a @ b)"
proof (induction gs arbitrary: a)
  case Nil
  then show ?case by simp
next
  case (Cons g gs)
  then obtain x y where "a = x @ y" "g x" "gates gs y" by auto
  with Cons.IH [of y] Cons.prems(2) show ?case by (simp add: gates_Cons del: gates.simps)
qed

section \<open>Leases in a trace\<close>

text \<open>Calls that neither take, give back nor use a lock.\<close>

fun lock_free :: "call \<Rightarrow> bool" where
  "lock_free (Acquire x) = False"
| "lock_free (Release l e) = False"
| "lock_free (CooldownStart t e) = False"
| "lock_free (Execute c e) = False"
| "lock_free _ = True"

fun granted :: "call list \<Rightarrow> lease list" where
  "granted [] = []"
| "granted (Acquire (Inr l) # cs) = l # granted cs"
| "granted (_ # cs) = granted cs"

fun released :: "call list \<Rightarrow> lease list" where
  "released [] = []"
| "released (Release l e # cs) = l # released cs"
| "released (_ # cs) = released cs"

lemma granted_append [simp]: "granted (xs @ ys) = granted xs @ granted ys"
  by (induction xs rule: granted.induct) auto

lemma released_append [simp]: "released (xs @ ys) = released xs @ released ys"
  by (induction xs rule: released.induct) auto

lemma lock_free_granted: "list_all lock_free cs \<Longrightarrow> granted cs = [] \<and> released cs = []"
  by (induction cs rule: granted.induct) auto

lemma is_health_update_lock_free: "is_health_update c \<Longrightarrow> lock_free c"
  by (cases c) (auto simp: is_health_update_def)

lemma health_updates_lock_free: "list_all is_health_update us \<Longrightarrow> list_all lock_free us"
  by (auto simp: list_all_iff is_health_update_lock_free)

lemma lock_only_released:
  "set cs \<subseteq> range Acquire \<union> {c. \<exists>t e. c = Sleep t e} \<Longrightarrow> released cs = []"
  by (induction cs rule: released.induct) auto

lemma granted_acquires:
  "granted cs = concat (map (\<lambda>x. case x of Inr l \<Rightarrow> [l] | Inl e \<Rightarrow> []) (acquires cs))"
proof (induction cs)
  case (Cons c cs)
  then show ?case
  proof (cases c)
    case (Acquire x)
    then show ?thesis using Cons by (cases x) simp_all
  qed simp_all
qed simp

lemma granted_contended:
  "list_all contended as \<Longrightarrow> concat (map (\<lambda>x. case x of Inr l \<Rightarrow> [l] | Inl e \<Rightarrow> []) as) = []"
  by (induction as) (auto simp: contended_def)

section \<open>Stages on traces\<close>

text \<open>
  A stage satisfies \<open>Q\<close> when, going on, its calls and its result do; ending the pass, it leaves an
  outcome that is not ready and carries no lease; and it makes no call that concerns the lock.
\<close>

definition carries_nothing :: "outcome \<Rightarrow> bool" where
  "carries_nothing out \<longleftrightarrow> lockRelease out = None \<and> cooldownStart out = None"

definition stopped :: "outcome \<Rightarrow> bool" where
  "stopped out \<longleftrightarrow> carries_nothing out \<and> Status out \<noteq> Some OutcomeReady"

definition pending :: "outcome \<Rightarrow> bool" where
  "pending out \<longleftrightarrow> carries_nothing out \<and> Status out = None"

definition stage_spec :: "('w, 'a) stage \<Rightarrow> (call list \<Rightarrow> 'a \<Rightarrow> bool) \<Rightarrow> bool" where
  "stage_spec m Q \<longleftrightarrow>
     (\<forall>s x s'. m s = (x, s') \<longrightarrow>
        (\<exists>cs. st_calls s' = st_calls s @ cs \<and> list_all lock_free cs \<and>
           (case x of Inl (out, err) \<Rightarrow> stopped out \<and> (err \<noteq> None \<longrightarrow> Status out = None) | Inr a \<Rightarrow> Q cs a)))"

lemma stage_specD:
  assumes "stage_spec m Q" "m s = (x, s')"
  obtains cs where "st_calls s' = st_calls s @ cs" "list_all lock_free cs"
    "\<And>out err. x = Inl (out, err) \<Longrightarrow> stopped out \<and> (err \<noteq> None \<longrightarrow> Status out = None)"
    "\<And>a. x = Inr a \<Longrightarrow> Q cs a"
  using assms unfolding stage_spec_def by (fastforce split: sum.splits)

lemma stage_then_spec:
  assumes m: "stage_spec m (\<lambda>cs a. g cs \<and> P a)"
    and k: "\<And>a. P a \<Longrightarrow> stage_spec (k a) (\<lambda>cs b. gates gs cs \<and> R b)"
  shows "stage_spec (stage_then m k) (\<lambda>cs b. gates (g # gs) cs \<and> R b)"
  unfolding stage_spec_def
proof (intro allI impI)
  fix s x s'
  assume run: "stage_then m k s = (x, s')"
  obtain y s1 where y: "m s = (y, s1)" by (metis surj_pair)
  from stage_specD [OF m y] obtain cs where cs: "st_calls s1 = st_calls s @ cs" "list_all lock_free cs"
    "\<And>out err. y = Inl (out, err) \<Longrightarrow> stopped out \<and> (err \<noteq> None \<longrightarrow> Status out = None)"
    "\<And>a. y = Inr a \<Longrightarrow> g cs \<and> P a" by blast
  show "\<exists>cs. st_calls s' = st_calls s @ cs \<and> list_all lock_free cs \<and>
      (case x of Inl (out, err) \<Rightarrow> stopped out \<and> (err \<noteq> None \<longrightarrow> Status out = None)
       | Inr b \<Rightarrow> gates (g # gs) cs \<and> R b)"
  proof (cases y)
    case (Inl z)
    then have "x = Inl z" "s' = s1" using run y by (auto simp: stage_then_def)
    with cs(1,2) cs(3) [of "fst z" "snd z"] Inl show ?thesis
      by (intro exI [of _ cs]) (simp add: split_beta)
  next
    case (Inr a)
    with cs(4) have a: "g cs" "P a" by auto
    have "k a s1 = (x, s')" using run y Inr by (simp add: stage_then_def)
    from stage_specD [OF k [OF a(2)] this] obtain ds where ds: "st_calls s' = st_calls s1 @ ds"
      "list_all lock_free ds" "\<And>out err. x = Inl (out, err) \<Longrightarrow> stopped out \<and> (err \<noteq> None \<longrightarrow> Status out = None)"
      "\<And>b. x = Inr b \<Longrightarrow> gates gs ds \<and> R b" by blast
    show ?thesis
      using cs(1,2) ds gates_Cons [of g cs gs ds] a(1)
      by (intro exI [of _ "cs @ ds"]) (auto split: sum.splits simp del: gates.simps)
  qed
qed

lemma stage_last:
  "stage_spec m (\<lambda>cs a. g cs \<and> P a) \<Longrightarrow> stage_spec m (\<lambda>cs a. gates [g] cs \<and> P a)"
  by simp

section \<open>Each stage\<close>

lemma stopped_stop_with:
  "pending out \<Longrightarrow> st \<noteq> OutcomeReady \<Longrightarrow>
    (case stop_with out st msg of Inl (out, err) \<Rightarrow> stopped out \<and> (err \<noteq> None \<longrightarrow> Status out = None) | Inr a \<Rightarrow> Q a)"
  by (simp add: stop_with_def stopped_def pending_def carries_nothing_def)

lemma stop_with_Inr [simp]: "stop_with out st msg \<noteq> Inr a" "Inr a \<noteq> stop_with out st msg"
  by (simp_all add: stop_with_def)

lemma stop_with_eq:
  "stop_with out st msg = Inl (o', err) \<longleftrightarrow> o' = out\<lparr>Status := Some st, Message := msg\<rparr> \<and> err = None"
  by (auto simp: stop_with_def)

lemma pending_stopped: "pending out \<Longrightarrow> stopped out"
  by (simp add: pending_def stopped_def)

text \<open>The updates of the fields that do not matter here.\<close>

lemma pending_updates [simp]:
  "pending (out\<lparr>DetectorResults := x\<rparr>) = pending out"
  "pending (out\<lparr>PostLockDetectorResults := x\<rparr>) = pending out"
  "pending (out\<lparr>PreLockHealthResult := y\<rparr>) = pending out"
  "pending (out\<lparr>PreLockHealthPhase := z\<rparr>) = pending out"
  "pending (out\<lparr>PostLockHealthResult := y\<rparr>) = pending out"
  "pending (out\<lparr>PostLockHealthPhase := z\<rparr>) = pending out"
  "pending (out\<lparr>ClusterUnhealthy := rs\<rparr>) = pending out"
  "pending (out\<lparr>out_DryRun := b\<rparr>) = pending out"
  "pending (out\<lparr>Command := c\<rparr>) = pending out"
  "pending (out\<lparr>LockAcquired := b\<rparr>) = pending out"
  by (simp_all add: pending_def carries_nothing_def)

lemma stage_specI:
  assumes "\<And>s x s'. m s = (x, s') \<Longrightarrow> \<exists>cs. st_calls s' = st_calls s @ cs \<and> list_all lock_free cs \<and>
     (case x of Inl (out, err) \<Rightarrow> stopped out \<and> (err \<noteq> None \<longrightarrow> Status out = None) | Inr a \<Rightarrow> Q cs a)"
  shows "stage_spec m Q"
  using assms by (simp add: stage_spec_def)

lemma check_kill_switch_spec:
  assumes "pending out"
  shows "stage_spec (check_kill_switch d r stage errText suffix out) (\<lambda>cs o'. kill_gate cs \<and> pending o')"
proof (rule stage_specI)
  fix s x s'
  assume run: "check_kill_switch d r stage errText suffix out s = (x, s')"
  obtain active err s1 where inv: "invoke (d_checkKill d (r_killSwitchPath r)) CheckKill s = ((active, err), s1)"
    by (metis surj_pair)
  then have "st_calls s1 = st_calls s @ [CheckKill (active, err)]"
    using invoke_calls [of "d_checkKill d (r_killSwitchPath r)" CheckKill s] by simp
  then show "\<exists>cs. st_calls s' = st_calls s @ cs \<and> list_all lock_free cs \<and>
      (case x of Inl (out, err) \<Rightarrow> stopped out \<and> (err \<noteq> None \<longrightarrow> Status out = None)
       | Inr o' \<Rightarrow> kill_gate cs \<and> pending o')"
    using run inv assms stopped_stop_with [OF assms] pending_stopped [OF assms]
    by (intro exI [of _ "[CheckKill (active, err)]"])
       (auto simp: check_kill_switch_def kill_gate_def record_calls pending_def split: option.splits if_splits)
qed

lemma check_windows_spec:
  assumes "pending out"
  shows "stage_spec (check_windows d r out) (\<lambda>cs o'. window_gate r cs \<and> pending o')"
proof (rule stage_specI)
  fix s x s'
  assume run: "check_windows d r out s = (x, s')"
  show "\<exists>cs. st_calls s' = st_calls s @ cs \<and> list_all lock_free cs \<and>
      (case x of Inl (out, err) \<Rightarrow> stopped out \<and> (err \<noteq> None \<longrightarrow> Status out = None)
       | Inr o' \<Rightarrow> window_gate r cs \<and> pending o')"
  proof (cases "r_windows r")
    case None
    with run assms show ?thesis
      by (intro exI [of _ "[]"]) (auto simp: check_windows_def window_gate_def)
  next
    case (Some ev)
    obtain t w where t: "d_now d (st_world s) = (t, w)" by (metis surj_pair)
    obtain s1 where inv: "invoke (\<lambda>w. let (t, w) = d_now d w in (Evaluate ev t, w)) WindowDecision s = (Evaluate ev t, s1)"
      "st_calls s1 = st_calls s @ [WindowDecision (Evaluate ev t)]"
      using t by (simp add: invoke_def)
    show ?thesis
      using run Some inv assms stopped_stop_with [OF assms]
      by (intro exI [of _ "[WindowDecision (Evaluate ev t)]"])
         (auto simp: check_windows_def window_gate_def record_calls split: option.splits if_splits)
  qed
qed

lemma runHealth_lock_free:
  assumes "runHealthAndUpdate d r phase held n s = ((res, err), s')"
  obtains cs where "st_calls s' = st_calls s @ cs" "list_all lock_free cs"
    "err = None \<Longrightarrow> hr_ExitCode res = 0 \<Longrightarrow> health_gate r phase held n cs"
proof -
  from runHealthAndUpdate_calls [OF assms] obtain e us where us:
    "st_calls s' = st_calls s @ RunHealth (health_env r phase held n) (hr_ExitCode res, e) # us"
    "list_all is_health_update us" "err = None \<longrightarrow> e = None" by blast
  show thesis
    by (rule that [OF us(1)]) (use us health_updates_lock_free in \<open>auto simp: health_gate_def\<close>)
qed

lemma monitor_health_spec:
  assumes "pending out"
  shows "stage_spec (monitor_health d r out) (\<lambda>cs o'. False)"
proof (rule stage_specI)
  fix s x s'
  assume run: "monitor_health d r out s = (x, s')"
  obtain res err s1 where h: "runHealthAndUpdate d r ''monitor'' False 0 s = ((res, err), s1)"
    by (metis surj_pair)
  from runHealth_lock_free [OF h] obtain cs where "st_calls s1 = st_calls s @ cs" "list_all lock_free cs"
    by blast
  then show "\<exists>cs. st_calls s' = st_calls s @ cs \<and> list_all lock_free cs \<and>
      (case x of Inl (out, err) \<Rightarrow> stopped out \<and> (err \<noteq> None \<longrightarrow> Status out = None) | Inr o' \<Rightarrow> False)"
    using run h assms
    by (intro exI [of _ cs])
       (auto simp: monitor_health_def Let_def pending_def stopped_def carries_nothing_def stop_with_eq
         split: option.splits if_splits sum.splits)
qed

lemma check_detectors_spec:
  assumes "pending out"
  shows "stage_spec (check_detectors d r out) (\<lambda>cs o'. detector_gate cs \<and> pending o')"
proof (rule stage_specI)
  fix s x s'
  assume run: "check_detectors d r out s = (x, s')"
  obtain req results err s1 where ev: "evaluateDetectorsWithObservability d r ''pre-lock'' s = ((req, results, err), s1)"
    by (metis surj_pair)
  note c = evaluateDetectors_calls [OF ev]
  show "\<exists>cs. st_calls s' = st_calls s @ cs \<and> list_all lock_free cs \<and>
      (case x of Inl (out, err) \<Rightarrow> stopped out \<and> (err \<noteq> None \<longrightarrow> Status out = None)
       | Inr o' \<Rightarrow> detector_gate cs \<and> pending o')"
  proof (cases "err = None \<and> \<not> req")
    case True
    let ?out = "out\<lparr>DetectorResults := results\<rparr>"
    have m: "monitor_health d r ?out s1 = (x, s')" using run ev True by (simp add: check_detectors_def Let_def)
    have "pending ?out" using assms by simp
    from stage_specD [OF monitor_health_spec [OF this] m] obtain cs where
      "st_calls s' = st_calls s1 @ cs" "list_all lock_free cs"
      "\<And>out err. x = Inl (out, err) \<Longrightarrow> stopped out \<and> (err \<noteq> None \<longrightarrow> Status out = None)"
      "\<And>a. x = Inr a \<Longrightarrow> False" by blast
    with c show ?thesis
      by (intro exI [of _ "EvaluateDetectors req err # cs"]) (auto split: sum.splits)
  next
    case False
    then show ?thesis
      using run ev c assms
      by (intro exI [of _ "[EvaluateDetectors req err]"])
         (auto simp: check_detectors_def Let_def detector_gate_def pending_def stopped_def
           carries_nothing_def split: option.splits)
  qed
qed

lemma check_cluster_spec:
  assumes "pending out"
  shows "stage_spec (check_cluster d r phase errText out)
    (\<lambda>cs o'. cluster_gate (d_unrepresentable d) r cs \<and> pending o')"
proof (rule stage_specI)
  fix s x s'
  assume run: "check_cluster d r phase errText out s = (x, s')"
  obtain records err s1 where i: "inspectClusterHealth d r phase s = ((records, err), s1)"
    by (metis surj_pair)
  note c = inspectClusterHealth_calls [OF i]
  obtain b m bl where e: "evaluateClusterPolicies (d_unrepresentable d) (r_cfg r) records = (b, m, bl)"
    by (metis surj_pair)
  show "\<exists>cs. st_calls s' = st_calls s @ cs \<and> list_all lock_free cs \<and>
      (case x of Inl (out, err) \<Rightarrow> stopped out \<and> (err \<noteq> None \<longrightarrow> Status out = None)
       | Inr o' \<Rightarrow> cluster_gate (d_unrepresentable d) r cs \<and> pending o')"
    using run i c e assms
    by (intro exI [of _ "if r_clusterHealth r then [HealthStatus (records, err)] else []"])
       (auto simp: check_cluster_def Let_def cluster_gate_def pending_def stopped_def carries_nothing_def
         stop_with_eq split: option.splits if_splits sum.splits)
qed

lemma check_health_spec:
  assumes "pending out"
  shows "stage_spec (check_health d r out) (\<lambda>cs o'. health_gate r ''pre-lock'' False 0 cs \<and> pending o')"
proof (rule stage_specI)
  fix s x s'
  assume run: "check_health d r out s = (x, s')"
  obtain res err s1 where h: "runHealthAndUpdate d r ''pre-lock'' False 0 s = ((res, err), s1)"
    by (metis surj_pair)
  from runHealth_lock_free [OF h] obtain cs where cs: "st_calls s1 = st_calls s @ cs" "list_all lock_free cs"
    "err = None \<Longrightarrow> hr_ExitCode res = 0 \<Longrightarrow> health_gate r ''pre-lock'' False 0 cs" by blast
  then show "\<exists>cs. st_calls s' = st_calls s @ cs \<and> list_all lock_free cs \<and>
      (case x of Inl (out, err) \<Rightarrow> stopped out \<and> (err \<noteq> None \<longrightarrow> Status out = None)
       | Inr o' \<Rightarrow> health_gate r ''pre-lock'' False 0 cs \<and> pending o')"
    using run h assms
    by (intro exI [of _ cs])
       (auto simp: check_health_def Let_def pending_def stopped_def carries_nothing_def stop_with_eq
         split: option.splits if_splits sum.splits)
qed

lemma cooldown_remaining_calls: "st_calls (snd (cooldown_remaining d status s)) = st_calls s"
  by (simp add: cooldown_remaining_def Let_def split_beta silent_rest)

lemma check_cooldown_spec:
  assumes "pending out"
  shows "stage_spec (check_cooldown d r out) (\<lambda>cs o'. cooldown_gate r cs \<and> pending o')"
proof (rule stage_specI)
  fix s x s'
  assume run: "check_cooldown d r out s = (x, s')"
  let ?on = "0 < sint (r_cooldownWindow r) \<and> r_cooldown r"
  obtain status err s1 where inv: "invoke (d_cooldownStatus d) CooldownStatus s = ((status, err), s1)"
    by (metis surj_pair)
  then have c: "st_calls s1 = st_calls s @ [CooldownStatus (status, err)]"
    using invoke_calls [of "d_cooldownStatus d" CooldownStatus s] by simp
  show "\<exists>cs. st_calls s' = st_calls s @ cs \<and> list_all lock_free cs \<and>
      (case x of Inl (out, err) \<Rightarrow> stopped out \<and> (err \<noteq> None \<longrightarrow> Status out = None)
       | Inr o' \<Rightarrow> cooldown_gate r cs \<and> pending o')"
    using run inv c assms stopped_stop_with [OF assms] pending_stopped [OF assms]
    by (intro exI [of _ "if ?on then [CooldownStatus (status, err)] else []"])
       (auto simp: check_cooldown_def Let_def cooldown_gate_def pending_def record_calls split_beta
         cooldown_remaining_calls split: option.splits if_splits)
qed

lemma skip_lock_spec:
  assumes "pending out"
  shows "stage_spec (skip_lock d r out) (\<lambda>cs o'. enabled_gate r cs \<and> pending o')"
proof (rule stage_specI)
  fix s x s'
  assume run: "skip_lock d r out s = (x, s')"
  let ?out = "out\<lparr>out_DryRun := DryRun (r_cfg r), Command := expandCommand d r s (RebootCommand (r_cfg r))\<rparr>"
  show "\<exists>cs. st_calls s' = st_calls s @ cs \<and> list_all lock_free cs \<and>
      (case x of Inl (out, err) \<Rightarrow> stopped out \<and> (err \<noteq> None \<longrightarrow> Status out = None)
       | Inr o' \<Rightarrow> enabled_gate r cs \<and> pending o')"
    using run assms stopped_stop_with [of ?out]
    by (intro exI [of _ "[]"]) (auto simp: skip_lock_def enabled_gate_def split: if_splits)
qed

lemma recheck_detectors_spec:
  assumes "pending out"
  shows "stage_spec (recheck_detectors d r out) (\<lambda>cs o'. detector_gate cs \<and> pending o')"
proof (rule stage_specI)
  fix s x s'
  assume run: "recheck_detectors d r out s = (x, s')"
  obtain req results err s1 where ev: "evaluateDetectorsWithObservability d r ''post-lock'' s = ((req, results, err), s1)"
    by (metis surj_pair)
  then show "\<exists>cs. st_calls s' = st_calls s @ cs \<and> list_all lock_free cs \<and>
      (case x of Inl (out, err) \<Rightarrow> stopped out \<and> (err \<noteq> None \<longrightarrow> Status out = None)
       | Inr o' \<Rightarrow> detector_gate cs \<and> pending o')"
    using run evaluateDetectors_calls [OF ev] assms
    by (intro exI [of _ "[EvaluateDetectors req err]"])
       (auto simp: recheck_detectors_def Let_def detector_gate_def pending_def stopped_def
         carries_nothing_def stop_with_eq split: option.splits if_splits sum.splits)
qed

lemma recheck_health_spec:
  assumes "pending out"
  shows "stage_spec (recheck_health d r n out) (\<lambda>cs o'. health_gate r ''post-lock'' True n cs \<and> pending o')"
proof (rule stage_specI)
  fix s x s'
  assume run: "recheck_health d r n out s = (x, s')"
  obtain res err s1 where h: "runHealthAndUpdate d r ''post-lock'' True n s = ((res, err), s1)"
    by (metis surj_pair)
  from runHealth_lock_free [OF h] obtain cs where cs: "st_calls s1 = st_calls s @ cs" "list_all lock_free cs"
    "err = None \<Longrightarrow> hr_ExitCode res = 0 \<Longrightarrow> health_gate r ''post-lock'' True n cs" by blast
  then show "\<exists>cs. st_calls s' = st_calls s @ cs \<and> list_all lock_free cs \<and>
      (case x of Inl (out, err) \<Rightarrow> stopped out \<and> (err \<noteq> None \<longrightarrow> Status out = None)
       | Inr o' \<Rightarrow> health_gate r ''post-lock'' True n cs \<and> pending o')"
    using run h assms
    by (intro exI [of _ cs])
       (auto simp: recheck_health_def Let_def pending_def stopped_def carries_nothing_def stop_with_eq
         split: option.splits if_splits sum.splits)
qed

section \<open>The two halves of a pass\<close>

lemma pending_empty: "pending empty_outcome"
  by (simp add: pending_def carries_nothing_def empty_outcome_def)

lemma pre_lock_stages_spec:
  "stage_spec (pre_lock_stages d r)
     (\<lambda>cs out. gates (pre_lock_gates (d_unrepresentable d) r) cs \<and> pending out)"
  unfolding pre_lock_stages_def pre_lock_gates_def
  by (rule stage_then_spec [OF check_kill_switch_spec [OF pending_empty]],
      rule stage_then_spec [OF check_windows_spec], assumption,
      rule stage_then_spec [OF check_detectors_spec], assumption,
      rule stage_then_spec [OF check_cluster_spec], assumption,
      rule stage_then_spec [OF check_health_spec], assumption,
      rule stage_then_spec [OF check_cooldown_spec], assumption,
      rule stage_last, rule skip_lock_spec)

lemma under_lock_stages_spec:
  "pending out \<Longrightarrow> stage_spec (under_lock_stages d r n out)
     (\<lambda>cs out. gates (under_lock_gates (d_unrepresentable d) r n) cs \<and> pending out)"
  unfolding under_lock_stages_def under_lock_gates_def
  by (rule stage_then_spec [OF check_kill_switch_spec], assumption,
      rule stage_then_spec [OF check_cluster_spec], assumption,
      rule stage_then_spec [OF recheck_detectors_spec], assumption,
      rule stage_last, rule recheck_health_spec)

lemma take_lock_calls:
  assumes "honest_random d" "0 < r_maxLockTries r" "pending out" "take_lock d r out s = (x, s')"
  obtains cs where "st_calls s' = st_calls s @ cs" "released cs = []"
    "set cs \<subseteq> range Acquire \<union> {c. \<exists>t e. c = Sleep t e}"
    "\<And>o' err. x = Inl (o', err) \<Longrightarrow> stopped o' \<and> (err \<noteq> None \<longrightarrow> Status o' = None) \<and> granted cs = []"
    "\<And>o' l n. x = Inr (o', l, n) \<Longrightarrow> pending o' \<and> lock_gate r l n cs \<and> granted cs = [l]"
proof -
  obtain lease ok n err s1 where acq: "acquireLock d r s = ((lease, ok, n, err), s1)" by (metis surj_pair)
  from acquireLock_trace [OF assms(1,2) acq] obtain cs where cs: "st_calls s1 = st_calls s @ cs"
    "lock_verdict (r_maxLockTries r) (acquires cs) (lease, ok, n, err)" "n \<le> r_maxLockTries r"
    "set cs \<subseteq> range Acquire \<union> {c. \<exists>t e. c = Sleep t e}" by blast
  let ?as = "butlast (acquires cs)"
  have as: "acquires cs = ?as @ [last (acquires cs)]" "list_all contended ?as"
    "n = int (length (acquires cs))" "acquires cs \<noteq> []"
    using cs(2) by (auto simp: lock_verdict_def)
  then have n: "n = int (length ?as) + 1" by (cases "acquires cs" rule: rev_cases) simp_all
  have g: "granted cs = (case last (acquires cs) of Inr l \<Rightarrow> [l] | Inl e \<Rightarrow> [])"
    unfolding granted_acquires by (subst as(1)) (simp add: granted_contended [OF as(2)])
  have s: "s' = s1" using assms(4) acq by (auto simp: take_lock_def)
  have last: "(\<exists>l. lease = Some l \<and> last (acquires cs) = Inr l \<and> err = None) \<or>
      (lease = None \<and> (\<exists>e. last (acquires cs) = Inl e))"
    using cs(2) by (auto simp: lock_verdict_def split: sum.splits)
  show thesis
  proof (rule that [of cs])
    show "st_calls s' = st_calls s @ cs" by (simp add: s cs(1))
    show "released cs = []" by (rule lock_only_released [OF cs(4)])
    show "set cs \<subseteq> range Acquire \<union> {c. \<exists>t e. c = Sleep t e}" by (rule cs(4))
  next
    fix o' e
    assume "x = Inl (o', e)"
    with assms(3,4) acq last g show "stopped o' \<and> (e \<noteq> None \<longrightarrow> Status o' = None) \<and> granted cs = []"
      by (auto simp: take_lock_def pending_def stopped_def carries_nothing_def stop_with_eq
          split: option.splits)
  next
    fix o' l m
    assume "x = Inr (o', l, m)"
    with assms(4) acq have "lease = Some l" "err = None" "m = n" "o' = out\<lparr>LockAcquired := True\<rparr>"
      by (auto simp: take_lock_def stop_with_eq split: option.splits)
    with last g as(1,2) n cs(3,4) assms(3) show "pending o' \<and> lock_gate r l m cs \<and> granted cs = [l]"
      by (auto simp: lock_gate_def)
  qed
qed

text \<open>What happens to the lease: it is released before the pass ends, or handed over with a ready
  outcome that has a command to execute.\<close>

definition executable :: "outcome \<Rightarrow> bool" where
  "executable out \<longleftrightarrow> Status out = Some OutcomeReady \<and> \<not> out_DryRun out \<and> Command out \<noteq> []"

lemma ready_outcome_facts:
  assumes "pending out"
  shows "Status (ready_outcome d r l s out) = Some OutcomeReady"
    "out_DryRun (ready_outcome d r l s out) = DryRun (r_cfg r)"
    "Command (ready_outcome d r l s out) = expandCommand d r s (RebootCommand (r_cfg r))"
    "lockRelease (ready_outcome d r l s out) = (if executable (ready_outcome d r l s out) then Some l else None)"
    "cooldownStart (ready_outcome d r l s out) =
       (if executable (ready_outcome d r l s out) \<and> r_cooldown r \<and> 0 < sint (r_cooldownWindow r)
        then Some (r_cooldownWindow r) else None)"
  using assms by (auto simp: ready_outcome_def executable_def Let_def pending_def carries_nothing_def)

lemma deferred_release_kept:
  "lockRelease out \<noteq> None \<Longrightarrow> deferred_release d r l out err s = (out, err, s)"
  by (auto simp: deferred_release_def)

lemma deferred_release_calls:
  assumes "lockRelease out = None" "deferred_release d r l out err s = (out', err', s')"
  shows "\<exists>e. out' = out \<and> st_calls s' = st_calls s @ [Release l e]"
proof -
  obtain e s1 where r: "releaseLease d r l s = (e, s1)" by (metis surj_pair)
  from releaseLease_calls [OF r] r assms show ?thesis
    by (auto simp: deferred_release_def)
qed

lemma run_under_lock_calls:
  assumes "pending out" "run_under_lock d r (out, l, n) s = (out', err, s')"
  obtains cs e where "list_all lock_free cs"
    "st_calls s' = st_calls s @ cs @ (if lockRelease out' = None then [Release l e] else [])"
    "lockRelease out' = (if executable out' then Some l else None)"
    "cooldownStart out' = (if executable out' \<and> r_cooldown r \<and> 0 < sint (r_cooldownWindow r)
       then Some (r_cooldownWindow r) else None)"
    "Status out' = Some OutcomeReady \<Longrightarrow> gates (under_lock_gates (d_unrepresentable d) r n) cs"
    "executable out' \<Longrightarrow> err = None"
    "Status out' = Some OutcomeReady \<Longrightarrow> out_DryRun out' = DryRun (r_cfg r) \<and>
       (\<exists>t. Command out' = expandCommand d r t (RebootCommand (r_cfg r)))"
proof -
  obtain x s1 where x: "under_lock_stages d r n out s = (x, s1)" by (metis surj_pair)
  from stage_specD [OF under_lock_stages_spec [OF assms(1)] x] obtain cs where
    cs: "st_calls s1 = st_calls s @ cs" "list_all lock_free cs"
    "\<And>out err. x = Inl (out, err) \<Longrightarrow> stopped out \<and> (err \<noteq> None \<longrightarrow> Status out = None)"
    "\<And>a. x = Inr a \<Longrightarrow> gates (under_lock_gates (d_unrepresentable d) r n) cs \<and> pending a" by blast
  show thesis
  proof (cases x)
    case (Inl y)
    obtain o1 e1 where y: "y = (o1, e1)" by (cases y)
    with cs(3) Inl have st: "stopped o1" by blast
    then have none: "lockRelease o1 = None" "cooldownStart o1 = None" "Status o1 \<noteq> Some OutcomeReady"
      by (simp_all add: stopped_def carries_nothing_def)
    have "deferred_release d r l o1 e1 s1 = (out', err, s')"
      using assms(2) x Inl y by (simp add: run_under_lock_def)
    from deferred_release_calls [OF none(1) this] obtain e where
      "out' = o1" "st_calls s' = st_calls s1 @ [Release l e]" by blast
    with cs(1,2) none show thesis
      by (intro that [of cs e]) (simp_all add: executable_def)
  next
    case (Inr o1)
    let ?o = "ready_outcome d r l s1 o1"
    from cs(4) [OF Inr] have g: "gates (under_lock_gates (d_unrepresentable d) r n) cs" "pending o1" by auto
    note facts = ready_outcome_facts [OF g(2), where d = d and r = r and l = l and s = s1]
    have run: "deferred_release d r l ?o None s1 = (out', err, s')"
      using assms(2) x Inr by (simp add: run_under_lock_def)
    show thesis
    proof (cases "executable ?o")
      case True
      then have "lockRelease ?o \<noteq> None" using facts(4) by simp
      from run [unfolded deferred_release_kept [OF this]] have "out' = ?o" "err = None" "s' = s1" by auto
      with cs(1,2) g facts True show thesis by (intro that [of cs None]) auto
    next
      case False
      then have "lockRelease ?o = None" using facts(4) by simp
      from deferred_release_calls [OF this run] obtain e where
        "out' = ?o" "st_calls s' = st_calls s1 @ [Release l e]" by blast
      with cs(1,2) g facts False show thesis by (intro that [of cs e]) auto
    qed
  qed
qed

section \<open>The whole pass\<close>

text \<open>A pass that never gets the lock, and one that does.\<close>

lemma RunOnce_unfold:
  assumes "RunOnce d r s = (out, err, s')"
  obtains s1 where "run_stages d r s = (out, err, s1)" "st_calls s' = st_calls s1"
  using assms by (auto simp: RunOnce_def split_beta prod_eq_iff recordOutcome_calls)

lemma RunOnce_cases:
  assumes "honest_random d" "0 < r_maxLockTries r" "RunOnce d r s = (out, err, s')"
  obtains
    (unlocked) cs where "st_calls s' = st_calls s @ cs" "granted cs = []" "released cs = []" "stopped out"
      "\<forall>c \<in> set cs. lock_free c \<or> c \<in> range Acquire"
  | (locked) pre acq post l n e where
      "st_calls s' = st_calls s @ pre @ acq @ post @ (if lockRelease out = None then [Release l e] else [])"
      "list_all lock_free pre" "list_all lock_free post"
      "gates (pre_lock_gates (d_unrepresentable d) r) pre" "lock_gate r l n acq" "granted acq = [l]"
      "released acq = []"
      "lockRelease out = (if executable out then Some l else None)"
      "cooldownStart out = (if executable out \<and> r_cooldown r \<and> 0 < sint (r_cooldownWindow r)
         then Some (r_cooldownWindow r) else None)"
      "Status out = Some OutcomeReady \<Longrightarrow> gates (under_lock_gates (d_unrepresentable d) r n) post"
      "executable out \<Longrightarrow> err = None"
      "Status out = Some OutcomeReady \<Longrightarrow> out_DryRun out = DryRun (r_cfg r) \<and>
         (\<exists>t. Command out = expandCommand d r t (RebootCommand (r_cfg r)))"
proof -
  from RunOnce_unfold [OF assms(3)] obtain s1 where
    run: "run_stages d r s = (out, err, s1)" "st_calls s' = st_calls s1" by blast
  obtain x s2 where pre: "pre_lock_stages d r s = (x, s2)" by (metis surj_pair)
  from stage_specD [OF pre_lock_stages_spec pre] obtain cs where cs: "st_calls s2 = st_calls s @ cs"
    "list_all lock_free cs"
    "\<And>out err. x = Inl (out, err) \<Longrightarrow> stopped out \<and> (err \<noteq> None \<longrightarrow> Status out = None)"
    "\<And>a. x = Inr a \<Longrightarrow> gates (pre_lock_gates (d_unrepresentable d) r) cs \<and> pending a" by blast
  show thesis
  proof (cases x)
    case (Inl y)
    then have "y = (out, err)" "s1 = s2" using run(1) pre
      by (auto simp: run_stages_def stage_then_def split: prod.splits)
    with cs Inl run(2) lock_free_granted [OF cs(2)] show thesis
      by (intro unlocked [of cs]) (auto simp: list_all_iff)
  next
    case (Inr o1)
    with cs(4) have g: "gates (pre_lock_gates (d_unrepresentable d) r) cs" "pending o1" by auto
    obtain y s3 where take: "take_lock d r o1 s2 = (y, s3)" by (metis surj_pair)
    from take_lock_calls [OF assms(1,2) g(2) take] obtain acq where acq: "st_calls s3 = st_calls s2 @ acq"
      "released acq = []" "set acq \<subseteq> range Acquire \<union> {c. \<exists>t e. c = Sleep t e}"
      "\<And>o' err. y = Inl (o', err) \<Longrightarrow> stopped o' \<and> (err \<noteq> None \<longrightarrow> Status o' = None) \<and> granted acq = []"
      "\<And>o' l n. y = Inr (o', l, n) \<Longrightarrow> pending o' \<and> lock_gate r l n acq \<and> granted acq = [l]" by blast
    show thesis
    proof (cases y)
      case (Inl z)
      then have z: "z = (out, err)" "s1 = s3" using run(1) pre Inr take
        by (auto simp: run_stages_def stage_then_def split: prod.splits)
      with cs acq Inl run(2) lock_free_granted [OF cs(2)] show thesis
        by (intro unlocked [of "cs @ acq"]) (auto simp: list_all_iff)
    next
      case y: (Inr z)
      obtain o2 l n where z: "z = (o2, l, n)" by (cases z)
      from acq(5) y z have lk: "pending o2" "lock_gate r l n acq" "granted acq = [l]" by auto
      have "run_under_lock d r (o2, l, n) s3 = (out, err, s1)"
        using run(1) pre Inr take y z by (simp add: run_stages_def stage_then_def)
      from run_under_lock_calls [OF lk(1) this] obtain post e where post: "list_all lock_free post"
        "st_calls s1 = st_calls s3 @ post @ (if lockRelease out = None then [Release l e] else [])"
        "lockRelease out = (if executable out then Some l else None)"
        "cooldownStart out = (if executable out \<and> r_cooldown r \<and> 0 < sint (r_cooldownWindow r)
           then Some (r_cooldownWindow r) else None)"
        "Status out = Some OutcomeReady \<Longrightarrow> gates (under_lock_gates (d_unrepresentable d) r n) post"
        "executable out \<Longrightarrow> err = None"
        "Status out = Some OutcomeReady \<Longrightarrow> out_DryRun out = DryRun (r_cfg r) \<and>
           (\<exists>t. Command out = expandCommand d r t (RebootCommand (r_cfg r)))" by blast
      show thesis
        by (rule locked [of cs acq post l e n]) (use cs(1,2) acq(1,2) run(2) g(1) lk post in simp_all)
    qed
  qed
qed

section \<open>Properties\<close>

text \<open>C3: No reboot without every safeguard.  If a pass ends ready, then in this pass and in this
  order: the kill switch was off, the maintenance windows allowed the time, the detectors asked for
  a reboot, the cluster policies did not block, the health script was healthy in the phase
  \<open>pre-lock\<close>, no cooldown was active, the lock was enabled and was granted after fewer than the
  allowed number of contended attempts, and then, with the lock held, the kill switch was still off,
  the cluster policies still did not block, the detectors still asked for a reboot, and the health
  script was healthy in the phase \<open>post-lock\<close> with \<open>RC_LOCK_HELD\<close> set.  The only other call is
  the release of the lock, when there is nothing to execute.\<close>

theorem ready_passed_every_gate:
  assumes "honest_random d" "0 < r_maxLockTries r"
    and "RunOnce d r s = (out, err, s')" "Status out = Some OutcomeReady"
  shows "\<exists>cs l n rel. st_calls s' = st_calls s @ cs @ rel \<and>
    gates (pre_lock_gates (d_unrepresentable d) r @ lock_gate r l n #
           under_lock_gates (d_unrepresentable d) r n) cs \<and>
    (if executable out then rel = [] \<and> lockRelease out = Some l
     else (\<exists>e. rel = [Release l e]) \<and> lockRelease out = None)"
  using assms(1-3)
proof (cases rule: RunOnce_cases)
  case (unlocked cs)
  with assms(4) show ?thesis by (simp add: stopped_def)
next
  case (locked pre acq post l n e)
  have "gates (pre_lock_gates (d_unrepresentable d) r @ lock_gate r l n #
      under_lock_gates (d_unrepresentable d) r n) (pre @ acq @ post)"
    by (intro gates_append_left gates_Cons) (use locked assms(4) in simp_all)
  with locked show ?thesis
    by (intro exI [of _ "pre @ acq @ post"] exI [of _ l] exI [of _ n]
        exI [of _ "if lockRelease out = None then [Release l e] else []"]) simp
qed

text \<open>C6: No lease is leaked or released twice.  Whatever a pass ends with, errors included, it was
  granted at most one lease, and it released exactly the leases it was granted, except one that it
  hands over with the outcome; it hands one over exactly when the outcome is ready, is no dry run and
  has a command to execute.\<close>

theorem pass_lease_balance:
  assumes "honest_random d" "0 < r_maxLockTries r" "RunOnce d r s = (out, err, s')"
  shows "\<exists>cs. st_calls s' = st_calls s @ cs \<and> length (granted cs) \<le> 1 \<and>
    granted cs = released cs @ (case lockRelease out of None \<Rightarrow> [] | Some l \<Rightarrow> [l]) \<and>
    (lockRelease out \<noteq> None) = executable out"
  using assms
proof (cases rule: RunOnce_cases)
  case (unlocked cs)
  then show ?thesis
    by (intro exI [of _ cs]) (auto simp: stopped_def carries_nothing_def executable_def)
next
  case (locked pre acq post l n e)
  note free = lock_free_granted [OF locked(2)] lock_free_granted [OF locked(3)]
  show ?thesis
    using locked(1,6-8) free
    by (intro exI [of _ "pre @ acq @ post @ (if lockRelease out = None then [Release l e] else [])"]) auto
qed

end
