(* ===== verification/PassProgress.thy ===== *)
theory PassProgress
  imports PassSafety
begin

text \<open>
  The converse of the safety of a pass: when every component answers favourably, nothing in the code
  stops the pass, and it ends ready.
\<close>

definition goes_on :: "('w, 'a) stage \<Rightarrow> bool" where
  "goes_on m \<longleftrightarrow> (\<forall>s. \<exists>a s'. m s = (Inr a, s'))"

lemma goes_onI: "(\<And>s. \<exists>a s'. m s = (Inr a, s')) \<Longrightarrow> goes_on m"
  by (simp add: goes_on_def)

lemma stage_then_goes_on:
  assumes "goes_on m" "\<And>a. goes_on (k a)"
  shows "goes_on (stage_then m k)"
proof (rule goes_onI)
  fix s
  obtain a s1 where "m s = (Inr a, s1)" using assms(1) unfolding goes_on_def by blast
  moreover obtain b s2 where "k a s1 = (Inr b, s2)" using assms(2) unfolding goes_on_def by blast
  ultimately show "\<exists>b s'. stage_then m k s = (Inr b, s')" by (simp add: stage_then_def)
qed

text \<open>Every component answers favourably, whatever the state of the world.\<close>

definition calm_world :: "'w deps \<Rightarrow> runner \<Rightarrow> bool" where
  "calm_world d r \<longleftrightarrow>
     (\<forall>w. fst (d_checkKill d (r_killSwitchPath r) w) = (False, None)) \<and>
     (\<forall>w. \<exists>res. fst (d_evaluate d w) = (True, res, None)) \<and>
     (\<forall>env w. \<exists>res. fst (d_health d env w) = (res, None) \<and> hr_ExitCode res = 0) \<and>
     (\<forall>w. fst (d_reportHealthy d w) = None) \<and>
     (\<forall>w. \<exists>recs. fst (d_clusterStatus d w) = (recs, None) \<and>
        \<not> fst (evaluateClusterPolicies (d_unrepresentable d) (r_cfg r) recs)) \<and>
     (\<forall>w. \<exists>st. fst (d_cooldownStatus d w) = (st, None) \<and> \<not> cs_Active st) \<and>
     (\<forall>w. \<exists>l. fst (d_acquire d w) = Inr l)"

text \<open>What the runner's own configuration must not forbid.\<close>

definition permissive :: "'w deps \<Rightarrow> runner \<Rightarrow> bool" where
  "permissive d r \<longleftrightarrow>
     (case r_windows r of None \<Rightarrow> True | Some ev \<Rightarrow> \<forall>t. Allowed (Evaluate ev t)) \<and>
     (r_clusterHealth r \<or> \<not> fst (evaluateClusterPolicies (d_unrepresentable d) (r_cfg r) [])) \<and>
     r_lockEnabled r \<and> 0 < r_maxLockTries r"

lemma invoke_fst: "fst (invoke f c s) = fst (f (st_world s))"
  by (simp add: invoke_def split_beta)

lemma invoke_answer: "fst (f (st_world s)) = x \<Longrightarrow> \<exists>s'. invoke f c s = (x, s')"
  by (metis invoke_fst prod.collapse)

lemma kill_switch_goes_on:
  fixes d :: "'w deps"
  assumes "calm_world d r"
  shows "goes_on (check_kill_switch d r stage errText suffix out)"
proof (rule goes_onI)
  fix s :: "'w st"
  obtain s1 where "invoke (d_checkKill d (r_killSwitchPath r)) CheckKill s = ((False, None), s1)"
    using assms invoke_answer [of "d_checkKill d (r_killSwitchPath r)" s "(False, None)" CheckKill]
    by (auto simp: calm_world_def)
  then show "\<exists>a s'. check_kill_switch d r stage errText suffix out s = (Inr a, s')"
    by (simp add: check_kill_switch_def)
qed

lemma windows_goes_on:
  assumes "permissive d r"
  shows "goes_on (check_windows d r out)"
proof (rule goes_onI)
  fix s
  show "\<exists>a s'. check_windows d r out s = (Inr a, s')"
    using assms by (auto simp: check_windows_def permissive_def invoke_def split_beta split: option.splits)
qed

lemma evaluate_answer:
  assumes "calm_world d r"
  shows "\<exists>res s'. evaluateDetectorsWithObservability d r phase s = ((True, res, None), s')"
proof -
  let ?s = "snd (silent (d_time d) s)"
  obtain res where "fst (d_evaluate d (st_world ?s)) = (True, res, None)"
    using assms unfolding calm_world_def by blast
  then show ?thesis
    using invoke_answer [of "d_evaluate d" ?s "(True, res, None)" "\<lambda>(req, res, err). EvaluateDetectors req err"]
    by (auto simp: evaluateDetectorsWithObservability_def Let_def split_beta)
qed

lemma health_answer:
  assumes "calm_world d r"
  shows "\<exists>res s'. runHealthAndUpdate d r phase held n s = ((res, None), s') \<and> hr_ExitCode res = 0"
proof -
  let ?env = "health_env r phase held n"
  let ?s = "snd (silent (d_time d) s)"
  obtain res where res: "fst (d_health d ?env (st_world ?s)) = (res, None)" "hr_ExitCode res = 0"
    using assms unfolding calm_world_def by blast
  then obtain s1 where "runHealthWithObservability d r phase held n s = ((res, None), s1)"
    using invoke_answer [of "d_health d ?env" ?s "(res, None)"
      "\<lambda>(res, err). RunHealth ?env (hr_ExitCode res, err)"]
    by (auto simp: runHealthWithObservability_def Let_def split_beta)
  moreover have "fst (invoke (d_reportHealthy d) ReportHealthy s1) = None"
    using assms by (simp add: invoke_fst calm_world_def)
  then have "fst (updateClusterHealth d r phase True 0 s1) = None"
    by (simp add: updateClusterHealth_def Let_def split_beta)
  then obtain s2 where "updateClusterHealth d r phase True 0 s1 = (None, s2)" by (metis prod.collapse)
  ultimately show ?thesis using res(2) by (simp add: runHealthAndUpdate_def)
qed

lemma cluster_goes_on:
  fixes d :: "'w deps"
  assumes "calm_world d r" "permissive d r"
  shows "goes_on (check_cluster d r phase errText out)"
proof (rule goes_onI)
  fix s :: "'w st"
  obtain recs s1 where i: "inspectClusterHealth d r phase s = ((recs, None), s1)"
    and ok: "\<not> fst (evaluateClusterPolicies (d_unrepresentable d) (r_cfg r) recs)"
  proof (cases "r_clusterHealth r")
    case True
    obtain recs where recs: "fst (d_clusterStatus d (st_world s)) = (recs, None)"
      "\<not> fst (evaluateClusterPolicies (d_unrepresentable d) (r_cfg r) recs)"
      using assms(1) unfolding calm_world_def by blast
    then have "\<exists>s1. inspectClusterHealth d r phase s = ((recs, None), s1)"
      using invoke_answer [of "d_clusterStatus d" s "(recs, None)" HealthStatus] True
      by (auto simp: inspectClusterHealth_def Let_def)
    with recs(2) that show thesis by blast
  next
    case False
    have "\<exists>s1. inspectClusterHealth d r phase s = (([], None), s1)"
      using False by (simp add: inspectClusterHealth_def Let_def)
    with False assms(2) that show thesis unfolding permissive_def by blast
  qed
  then show "\<exists>a s'. check_cluster d r phase errText out s = (Inr a, s')"
    by (simp add: check_cluster_def Let_def split_beta)
qed

lemma cooldown_goes_on:
  fixes d :: "'w deps"
  assumes "calm_world d r"
  shows "goes_on (check_cooldown d r out)"
proof (rule goes_onI)
  fix s :: "'w st"
  obtain st where "fst (d_cooldownStatus d (st_world s)) = (st, None)" "\<not> cs_Active st"
    using assms unfolding calm_world_def by blast
  with invoke_answer [of "d_cooldownStatus d" s "(st, None)" CooldownStatus]
  show "\<exists>a s'. check_cooldown d r out s = (Inr a, s')"
    by (auto simp: check_cooldown_def Let_def)
qed

lemma detectors_go_on:
  assumes "calm_world d r"
  shows "goes_on (check_detectors d r out)" "goes_on (recheck_detectors d r out)"
proof -
  show "goes_on (check_detectors d r out)"
  proof (rule goes_onI)
    fix s
    show "\<exists>a s'. check_detectors d r out s = (Inr a, s')"
      using evaluate_answer [OF assms, of "''pre-lock''" s] by (auto simp: check_detectors_def)
  qed
  show "goes_on (recheck_detectors d r out)"
  proof (rule goes_onI)
    fix s
    show "\<exists>a s'. recheck_detectors d r out s = (Inr a, s')"
      using evaluate_answer [OF assms, of "''post-lock''" s] by (auto simp: recheck_detectors_def)
  qed
qed

lemma health_goes_on:
  assumes "calm_world d r"
  shows "goes_on (check_health d r out)" "goes_on (recheck_health d r n out)"
proof -
  show "goes_on (check_health d r out)"
  proof (rule goes_onI)
    fix s
    show "\<exists>a s'. check_health d r out s = (Inr a, s')"
      using health_answer [OF assms, of "''pre-lock''" False 0 s] by (auto simp: check_health_def)
  qed
  show "goes_on (recheck_health d r n out)"
  proof (rule goes_onI)
    fix s
    show "\<exists>a s'. recheck_health d r n out s = (Inr a, s')"
      using health_answer [OF assms, of "''post-lock''" True n s] by (auto simp: recheck_health_def)
  qed
qed

lemma lock_goes_on:
  fixes d :: "'w deps"
  assumes "calm_world d r" "permissive d r"
  shows "goes_on (take_lock d r out)"
proof (rule goes_onI)
  fix s :: "'w st"
  let ?s = "snd (silent (d_time d) (snd (silent (d_time d) s)))"
  obtain l where "fst (d_acquire d (st_world ?s)) = Inr l"
    using assms(1) unfolding calm_world_def by blast
  then have "fst (acquire_once d (snd (silent (d_time d) s))) = Inr l"
    using invoke_answer [of "d_acquire d" ?s "Inr l" Acquire]
    by (auto simp: acquire_once_def split_beta)
  then obtain t s1 where "acquire_once d (snd (silent (d_time d) s)) = (Inr l, t, s1)"
    by (metis prod_cases3 fst_conv)
  then have "\<exists>s'. acquireLock d r s = ((Some l, True, 1, None), s')"
    using assms(2)
    by (auto simp: acquireLock_def acquire_loop.simps [where attempt = 0] permissive_def Let_def split_beta)
  then show "\<exists>a s'. take_lock d r out s = (Inr a, s')"
    by (auto simp: take_lock_def)
qed

lemma calm_pass:
  assumes "calm_world d r" "permissive d r"
  shows "\<exists>out err s'. RunOnce d r s = (out, err, s') \<and> Status out = Some OutcomeReady \<and>
    executable out = (\<not> DryRun (r_cfg r) \<and> RebootCommand (r_cfg r) \<noteq> []) \<and>
    (executable out \<longrightarrow> err = None)"
proof -
  have pre: "goes_on (pre_lock_stages d r)"
    unfolding pre_lock_stages_def
    by (intro stage_then_goes_on kill_switch_goes_on windows_goes_on detectors_go_on cluster_goes_on
        health_goes_on cooldown_goes_on goes_onI)
      (use assms in \<open>simp_all add: skip_lock_def permissive_def\<close>)
  have lock: "goes_on (stage_then (pre_lock_stages d r) (take_lock d r))"
    by (intro stage_then_goes_on pre lock_goes_on assms)
  have under: "goes_on (under_lock_stages d r n out)" for n out
    unfolding under_lock_stages_def
    by (intro stage_then_goes_on kill_switch_goes_on detectors_go_on cluster_goes_on health_goes_on assms)
  obtain o1 l n s1 where 1: "stage_then (pre_lock_stages d r) (take_lock d r) s = (Inr (o1, l, n), s1)"
    using lock unfolding goes_on_def by (metis prod_cases3)
  obtain o2 s2 where 2: "under_lock_stages d r n o1 s1 = (Inr o2, s2)"
    using under unfolding goes_on_def by blast
  let ?o = "ready_outcome d r l s2 o2"
  obtain out err s3 where 3: "deferred_release d r l ?o None s2 = (out, err, s3)" by (metis surj_pair)
  have "out = ?o"
    using 3 by (auto simp: deferred_release_def split: option.splits prod.splits)
  have "Status ?o = Some OutcomeReady" "lockRelease ?o \<noteq> None \<or> \<not> executable ?o"
    "executable ?o = (\<not> DryRun (r_cfg r) \<and> RebootCommand (r_cfg r) \<noteq> [])"
    by (auto simp: ready_outcome_def Let_def executable_def expandCommand_def)
  moreover have "executable ?o \<longrightarrow> err = None"
    using 3 calculation(2) deferred_release_kept [of ?o d r l None s2] by auto
  moreover have "run_stages d r s = (out, err, s3)"
    using 1 2 3 by (simp add: run_stages_def run_under_lock_def)
  ultimately show ?thesis
    using \<open>out = ?o\<close> by (auto simp: RunOnce_def)
qed

section \<open>Properties\<close>


lemma demo_calm: "calm_world demo_deps demo_r" "permissive demo_deps demo_r" "honest_random demo_deps"
  "0 < r_maxLockTries demo_r"
proof -
  have "\<not> fst (evaluateClusterPolicies 0 demo_cfg [])"
    by code_simp
  then show "calm_world demo_deps demo_r"
    by (simp add: calm_world_def demo_deps_def demo_r_def)
qed (simp_all add: permissive_def honest_random_def demo_deps_def demo_r_def)

lemma demo_executable: "\<not> DryRun (r_cfg demo_r) \<and> RebootCommand (r_cfg demo_r) \<noteq> []"
  by (simp add: demo_r_def demo_cfg_def minimal_config_def applyDefaults_def)


text \<open>The witnesses of the safety properties, on the same pass.\<close>

lemma demo_pass:
  obtains out s' where "RunOnce demo_deps demo_r demo_st = (out, None, s')"
    "Status out = Some OutcomeReady" "executable out"
  using calm_pass [OF demo_calm(1,2), of demo_st] demo_executable by auto

theorem ready_passed_every_gate_witness:
  "\<exists>cs l n. st_calls (snd (snd (RunOnce demo_deps demo_r demo_st))) = cs \<and>
    gates (pre_lock_gates 0 demo_r @ lock_gate demo_r l n # under_lock_gates 0 demo_r n) cs"
proof -
  obtain out s' where run: "RunOnce demo_deps demo_r demo_st = (out, None, s')"
    and out: "Status out = Some OutcomeReady" "executable out" by (rule demo_pass)
  have "d_unrepresentable demo_deps = 0" "st_calls demo_st = []"
    by (simp_all add: demo_deps_def demo_st_def)
  with ready_passed_every_gate [OF demo_calm(3,4) run out(1)] out run show ?thesis by auto
qed

theorem pass_lease_balance_witness:
  "length (granted (st_calls (snd (snd (RunOnce demo_deps demo_r demo_st))))) = 1 \<and>
   released (st_calls (snd (snd (RunOnce demo_deps demo_r demo_st)))) = []"
proof -
  obtain out s' where run: "RunOnce demo_deps demo_r demo_st = (out, None, s')"
    and out: "executable out" by (rule demo_pass)
  obtain cs where cs: "st_calls s' = cs" "length (granted cs) \<le> 1"
    "granted cs = released cs @ (case lockRelease out of None \<Rightarrow> [] | Some l \<Rightarrow> [l])" "lockRelease out \<noteq> None"
    using pass_lease_balance [OF demo_calm(3,4) run] out by (auto simp: demo_st_def)
  then have "length (granted cs) = length (released cs) + 1" by auto
  with cs(2) have "length (granted cs) = 1" "length (released cs) = 0" by linarith+
  with cs(1) run show ?thesis by simp
qed

end
