(* ===== verification/Loop.thy ===== *)
theory Loop
  imports PassProgress
begin

text \<open>
  \<open>pkg/orchestrator/loop.go\<close>: repeated passes until a reboot is triggered, the context ends or
  an error is final.  The loop may run for ever, so it is a partial function; its iterations form a
  step relation on which the safety properties are proved.
\<close>

section \<open>The loop and its options\<close>

record loop_cfg =
  l_interval :: duration
  l_errorMinDelay :: duration
  l_errorMaxDelay :: duration

type_synonym loop_option = "loop_cfg \<Rightarrow> loop_cfg"

definition WithLoopInterval :: "duration \<Rightarrow> loop_option" where
  "WithLoopInterval t l = l\<lparr>l_interval := t\<rparr>"

definition WithLoopErrorBackoff :: "duration \<Rightarrow> duration \<Rightarrow> loop_option" where
  "WithLoopErrorBackoff mn mx l = l\<lparr>l_errorMinDelay := mn, l_errorMaxDelay := mx\<rparr>"

definition NewLoop :: "config \<Rightarrow> loop_option list \<Rightarrow> loop_cfg" where
  "NewLoop cfg opts =
     (let l = \<lparr>l_interval = CheckInterval cfg, l_errorMinDelay = 5 * Second, l_errorMaxDelay = Minute\<rparr>;
          l = fold (\<lambda>opt. opt) opts l;
          l = (if sint (l_interval l) \<le> 0 then l\<lparr>l_interval := CheckInterval cfg\<rparr> else l);
          l = (if sint (l_interval l) \<le> 0 then l\<lparr>l_interval := Minute\<rparr> else l);
          l = (if sint (l_errorMinDelay l) \<le> 0 then l\<lparr>l_errorMinDelay := 5 * Second\<rparr> else l);
          l = (if sint (l_errorMaxDelay l) \<le> 0 then l\<lparr>l_errorMaxDelay := l_errorMinDelay l\<rparr> else l);
          l = (if sint (l_errorMaxDelay l) < sint (l_errorMinDelay l)
               then l\<lparr>l_errorMaxDelay := l_errorMinDelay l\<rparr> else l)
      in l)"

text \<open>What the loop is given besides the runner: the context, the executor, the callbacks, and its
  own sleep and random source.\<close>

record 'w loop_deps =
  ld_ctx_err :: "'w \<Rightarrow> go_error option \<times> 'w"
  ld_execute :: "string list \<Rightarrow> 'w \<Rightarrow> go_error option \<times> 'w"
  ld_hook :: "outcome \<Rightarrow> 'w \<Rightarrow> 'w"
  ld_errorHandler :: "go_error \<Rightarrow> 'w \<Rightarrow> 'w"
  ld_sleep :: "duration \<Rightarrow> 'w \<Rightarrow> go_error option \<times> 'w"
  ld_random :: "int \<Rightarrow> 'w \<Rightarrow> int \<times> 'w"

record 'w loop_env =
  le_deps :: "'w deps"
  le_runner :: runner
  le_loop :: "'w loop_deps"
  le_cfg :: loop_cfg

record 'w loop_st =
  lp_st :: "'w st"
  lp_backoff :: duration

section \<open>Waiting after an error\<close>

definition raise_backoff :: "loop_cfg \<Rightarrow> duration \<Rightarrow> duration" where
  "raise_backoff l b =
     (let b = (if sint b \<le> 0 then l_errorMinDelay l
               else (let b = b * 2 in if sint b < sint (l_errorMinDelay l) then l_errorMinDelay l else b))
      in if sint (l_errorMaxDelay l) < sint b then l_errorMaxDelay l else b)"

definition nextErrorDelay :: "'w loop_env \<Rightarrow> 'w loop_st \<Rightarrow> duration \<times> 'w loop_st" where
  "nextErrorDelay L x =
     (if sint (l_errorMinDelay (le_cfg L)) \<le> 0 then (0, x)
      else
        (let b = raise_backoff (le_cfg L) (lp_backoff x); x = x\<lparr>lp_backoff := b\<rparr>;
             mn = l_errorMinDelay (le_cfg L) in
         if sint b \<le> sint mn then (b, x)
         else
           (let jitterRange = b - mn in
            if sint jitterRange \<le> 0 then (b, x)
            else (let (j, s) = silent (ld_random (le_loop L) (sint (jitterRange + 1))) (lp_st x)
                  in (mn + word_of_int j, x\<lparr>lp_st := s\<rparr>)))))"

definition loop_sleep :: "'w loop_env \<Rightarrow> duration \<Rightarrow> 'w st \<Rightarrow> go_error option \<times> 'w st" where
  "loop_sleep L t s = (if sint t \<le> 0 then (None, s) else invoke (ld_sleep (le_loop L) t) (Sleep t) s)"

section \<open>One iteration\<close>

datatype loop_exit = Continue | Return "go_error option"

definition tell :: "('w \<Rightarrow> 'w) \<Rightarrow> 'w st \<Rightarrow> 'w st" where
  "tell f s = s\<lparr>st_world := f (st_world s)\<rparr>"

text \<open>\<open>if releaseErr := outcome.ReleaseLock(...)\<close>: the error to go on with.\<close>

definition join_error :: "go_error \<Rightarrow> go_error option \<Rightarrow> go_error" where
  "join_error e rel = (case rel of None \<Rightarrow> e | Some r \<Rightarrow> Joined [e, r])"

definition after_error :: "'w loop_env \<Rightarrow> outcome \<Rightarrow> go_error \<Rightarrow> 'w loop_st \<Rightarrow> loop_exit \<times> 'w loop_st" where
  "after_error L out e x =
     (let (rel, out, s) = ReleaseLock (le_deps L) (le_runner L) out (lp_st x);
          s = tell (ld_errorHandler (le_loop L) (join_error e rel)) s;
          (delay, x) = nextErrorDelay L (x\<lparr>lp_st := s\<rparr>)
      in if 0 < sint delay then
           (let (err, s) = loop_sleep L delay (lp_st x) in
            (case err of Some e \<Rightarrow> Return (Some e) | None \<Rightarrow> Continue, x\<lparr>lp_st := s\<rparr>))
         else (Continue, x))"

definition after_ready :: "'w loop_env \<Rightarrow> outcome \<Rightarrow> 'w loop_st \<Rightarrow> loop_exit \<times> 'w loop_st" where
  "after_ready L out x =
     (let d = le_deps L; r = le_runner L in
      if out_DryRun out \<or> Command out = [] then
        (let (rel, out, s) = ReleaseLock d r out (lp_st x) in (Return rel, x\<lparr>lp_st := s\<rparr>))
      else
        (let (cd, out, s) = startCooldown d r out (lp_st x) in
         case cd of
           Some e \<Rightarrow>
             (let (rel, out, s) = ReleaseLock d r out s in (Return (Some (join_error e rel)), x\<lparr>lp_st := s\<rparr>))
         | None \<Rightarrow>
             (let (ex, s) = invoke (ld_execute (le_loop L) (Command out)) (Execute (Command out)) s in
              case ex of
                Some e \<Rightarrow>
                  (let (rel, out, s) = ReleaseLock d r out s in
                   (Return (Some (join_error (Wrapf ''execute reboot command'' e) rel)), x\<lparr>lp_st := s\<rparr>))
              | None \<Rightarrow> (Return None, x\<lparr>lp_st := s\<rparr>))))"

definition after_other :: "'w loop_env \<Rightarrow> outcome \<Rightarrow> 'w loop_st \<Rightarrow> loop_exit \<times> 'w loop_st" where
  "after_other L out x =
     (let (rel, out, s) = ReleaseLock (le_deps L) (le_runner L) out (lp_st x) in
      case rel of
        Some e \<Rightarrow> (Return (Some e), x\<lparr>lp_st := s\<rparr>)
      | None \<Rightarrow>
        (let (err, s) = loop_sleep L (l_interval (le_cfg L)) s in
         (case err of Some e \<Rightarrow> Return (Some e) | None \<Rightarrow> Continue, x\<lparr>lp_st := s\<rparr>)))"

definition loop_iteration :: "'w loop_env \<Rightarrow> 'w loop_st \<Rightarrow> loop_exit \<times> 'w loop_st" where
  "loop_iteration L x =
     (case silent (ld_ctx_err (le_loop L)) (lp_st x) of
        (Some e, s) \<Rightarrow> (Return (Some e), x\<lparr>lp_st := s\<rparr>)
      | (None, s) \<Rightarrow>
        (let (out, err, s) = RunOnce (le_deps L) (le_runner L) s in
         case err of
           Some e \<Rightarrow> after_error L out e (x\<lparr>lp_st := s\<rparr>)
         | None \<Rightarrow>
           (let x = x\<lparr>lp_st := tell (ld_hook (le_loop L) out) s, lp_backoff := 0\<rparr> in
            if Status out = Some OutcomeReady then after_ready L out x else after_other L out x)))"

partial_function (option) loop_Run :: "'w loop_env \<Rightarrow> 'w loop_st \<Rightarrow> (go_error option \<times> 'w loop_st) option" where
  "loop_Run L x =
     (case loop_iteration L x of
        (Return e, y) \<Rightarrow> Some (e, y)
      | (Continue, y) \<Rightarrow> loop_Run L y)"

declare loop_Run.simps [code]

section \<open>The step relation\<close>

inductive loop_runs :: "'w loop_env \<Rightarrow> 'w loop_st \<Rightarrow> 'w loop_st \<Rightarrow> bool" for L where
  start: "loop_runs L x x"
| again: "loop_runs L x y \<Longrightarrow> loop_iteration L y = (Continue, z) \<Longrightarrow> loop_runs L x z"

lemma loop_runs_first:
  assumes "loop_iteration L x = (Continue, y)" "loop_runs L y z"
  shows "loop_runs L x z"
  using assms(2,1) by (induction rule: loop_runs.induct) (auto intro: loop_runs.intros)

lemma loop_Run_runs:
  assumes "loop_Run L x = Some res"
  shows "\<exists>y. loop_runs L x y \<and> loop_iteration L y = (Return (fst res), snd res)"
proof -
  let ?P = "\<lambda>L x res. \<exists>y. loop_runs L x y \<and> loop_iteration L y = (Return (fst res), snd res)"
  have "case_prod ?P (L, x) res"
  proof (rule loop_Run.raw_induct [of ?P "(L, x)"])
    fix run L x res
    assume IH: "\<And>L x res. run L x = Some res \<Longrightarrow> ?P L x res"
      and step: "(case loop_iteration L x of (Continue, y) \<Rightarrow> run L y | (Return e, y) \<Rightarrow> Some (e, y)) = Some res"
    obtain q y where it: "loop_iteration L x = (q, y)" by (metis surj_pair)
    show "?P L x res"
    proof (cases q)
      case Continue
      with step it have "run L y = Some res" by simp
      from IH [OF this] it Continue show ?thesis by (auto intro: loop_runs_first)
    next
      case (Return v)
      with step it have "res = (v, y)" by simp
      with it Return show ?thesis by (auto intro: loop_runs.start)
    qed
  qed (simp add: assms)
  then show ?thesis by simp
qed

lemma loop_runs_Run: "loop_runs L x y \<Longrightarrow> loop_Run L x = loop_Run L y"
  by (induction rule: loop_runs.induct) (simp_all add: loop_Run.simps)

section \<open>The trace of an iteration\<close>

text \<open>An iteration that goes on neither executes anything nor starts a cooldown, and keeps no lease.\<close>

fun is_execute :: "call \<Rightarrow> bool" where
  "is_execute (Execute c e) = True"
| "is_execute _ = False"

fun is_cooldown_start :: "call \<Rightarrow> bool" where
  "is_cooldown_start (CooldownStart t e) = True"
| "is_cooldown_start _ = False"

definition harmless :: "call list \<Rightarrow> bool" where
  "harmless cs \<longleftrightarrow> list_all (\<lambda>c. \<not> is_execute c \<and> \<not> is_cooldown_start c) cs \<and> granted cs = released cs"

lemma harmless_append: "harmless cs \<Longrightarrow> harmless ds \<Longrightarrow> harmless (cs @ ds)"
  by (simp add: harmless_def)

lemma harmless_Nil [simp]: "harmless []"
  by (simp add: harmless_def)

lemma harmless_Sleep [simp]: "harmless [Sleep t e]"
  by (simp add: harmless_def)

lemma tell_calls [frame_simps]: "st_calls (tell f s) = st_calls s"
  by (simp add: tell_def)

lemma ReleaseLock_calls:
  assumes "ReleaseLock d r out s = (rel, out', s')"
  shows "\<exists>e. st_calls s' = st_calls s @ (case lockRelease out of None \<Rightarrow> [] | Some l \<Rightarrow> [Release l e])"
proof (cases "lockRelease out")
  case (Some l)
  obtain e s1 where r: "releaseLease d r l s = (e, s1)" by (metis surj_pair)
  from releaseLease_calls [OF r] r assms Some show ?thesis by (auto simp: ReleaseLock_def)
qed (use assms in \<open>simp add: ReleaseLock_def\<close>)

lemma nextErrorDelay_calls:
  "nextErrorDelay L x = (t, y) \<Longrightarrow> st_calls (lp_st y) = st_calls (lp_st x)"
  using silent_rest(1)
  by (auto simp: nextErrorDelay_def Let_def split_beta split: if_splits)

lemma loop_sleep_calls:
  "loop_sleep L t s = (err, s') \<Longrightarrow> \<exists>cs. st_calls s' = st_calls s @ cs \<and> harmless cs"
  using invoke_calls [of "ld_sleep (le_loop L) t" "Sleep t" s]
  by (auto simp: loop_sleep_def split: if_splits)

lemma lock_free_harmless: "list_all lock_free cs \<Longrightarrow> harmless cs"
  using lock_free_granted [of cs]
  by (auto simp: harmless_def list_all_iff elim!: is_execute.elims is_cooldown_start.elims)

lemma executes_lock_free: "lock_free c \<or> c \<in> range Acquire \<Longrightarrow> \<not> is_execute c \<and> \<not> is_cooldown_start c"
  by (cases c) auto

lemma lock_gate_calls:
  "lock_gate r l n cs \<Longrightarrow> c \<in> set cs \<Longrightarrow> \<not> is_execute c \<and> \<not> is_cooldown_start c"
  by (auto simp: lock_gate_def)

text \<open>The calls of the pass inside an iteration.\<close>

definition full_gates :: "'w deps \<Rightarrow> runner \<Rightarrow> lease \<Rightarrow> call list \<Rightarrow> bool" where
  "full_gates d r l cs \<longleftrightarrow>
     (\<exists>n. gates (pre_lock_gates (d_unrepresentable d) r @ lock_gate r l n #
                 under_lock_gates (d_unrepresentable d) r n) cs)"

definition cooldown_interval :: "runner \<Rightarrow> duration option" where
  "cooldown_interval r =
     (if r_cooldown r \<and> 0 < sint (r_cooldownWindow r) then Some (r_cooldownWindow r) else None)"

lemma pass_calls:
  assumes "honest_random d" "0 < r_maxLockTries r" "RunOnce d r s = (out, err, s')"
  obtains cs where "st_calls s' = st_calls s @ cs"
    "list_all (\<lambda>c. \<not> is_execute c \<and> \<not> is_cooldown_start c) cs"
    "granted cs = released cs @ (case lockRelease out of None \<Rightarrow> [] | Some l \<Rightarrow> [l])"
    "(lockRelease out \<noteq> None) = executable out"
    "executable out \<Longrightarrow> err = None \<and> cooldownStart out = cooldown_interval r \<and>
       \<not> DryRun (r_cfg r) \<and> full_gates d r (the (lockRelease out)) cs"
    "Status out = Some OutcomeReady \<Longrightarrow> out_DryRun out = DryRun (r_cfg r) \<and>
       (\<exists>t. Command out = expandCommand d r t (RebootCommand (r_cfg r)))"
  using assms
proof (cases rule: RunOnce_cases)
  case (unlocked cs)
  show thesis
  proof (rule that [of cs])
    show "list_all (\<lambda>c. \<not> is_execute c \<and> \<not> is_cooldown_start c) cs"
      using unlocked(5) executes_lock_free unfolding list_all_iff by blast
  qed (use unlocked in \<open>auto simp: stopped_def carries_nothing_def executable_def\<close>)
next
  case (locked pre acq post l n e)
  let ?rel = "if lockRelease out = None then [Release l e] else []"
  note free = lock_free_granted [OF locked(2)] lock_free_granted [OF locked(3)]
  show thesis
  proof (rule that [of "pre @ acq @ post @ ?rel"])
    have "list_all (\<lambda>c. \<not> is_execute c \<and> \<not> is_cooldown_start c) (pre @ acq @ post)"
      using lock_free_harmless [OF locked(2)] lock_free_harmless [OF locked(3)]
        lock_gate_calls [OF locked(5)] by (auto simp: harmless_def list_all_iff)
    then show "list_all (\<lambda>c. \<not> is_execute c \<and> \<not> is_cooldown_start c) (pre @ acq @ post @ ?rel)"
      by simp
    show "granted (pre @ acq @ post @ ?rel) =
        released (pre @ acq @ post @ ?rel) @ (case lockRelease out of None \<Rightarrow> [] | Some l \<Rightarrow> [l])"
      using free locked(6,7,8) by auto
    assume ex: "executable out"
    then have "gates (pre_lock_gates (d_unrepresentable d) r @ lock_gate r l n #
        under_lock_gates (d_unrepresentable d) r n) (pre @ acq @ post)"
      by (intro gates_append_left gates_Cons) (use locked in \<open>simp_all add: executable_def\<close>)
    with ex locked(8,9,11,12) show "err = None \<and> cooldownStart out = cooldown_interval r \<and>
        \<not> DryRun (r_cfg r) \<and> full_gates d r (the (lockRelease out)) (pre @ acq @ post @ ?rel)"
      unfolding full_gates_def by (auto simp: cooldown_interval_def executable_def)
  qed (use locked in auto)
qed

text \<open>The calls of an iteration that tries to reboot: a pass through every gate with the lease still
  held, the cooldown if there is one, and if that could be started the command; the lease is given
  back unless the command succeeded.\<close>

definition reboot_calls :: "'w deps \<Rightarrow> runner \<Rightarrow> call list \<Rightarrow> bool" where
  "reboot_calls d r cs \<longleftrightarrow> \<not> DryRun (r_cfg r) \<and>
     (\<exists>pass l cmd ex e t. full_gates d r l pass \<and> granted pass = released pass @ [l] \<and>
        cmd = expandCommand d r t (RebootCommand (r_cfg r)) \<and> cmd \<noteq> [] \<and>
        list_all (\<lambda>c. \<not> is_execute c \<and> \<not> is_cooldown_start c) pass \<and>
        (cs = pass @ (case cooldown_interval r of None \<Rightarrow> [] | Some t \<Rightarrow> [CooldownStart t None]) @
              Execute cmd ex # (if ex = None then [] else [Release l e])))"

definition failed_start_calls :: "runner \<Rightarrow> call list \<Rightarrow> bool" where
  "failed_start_calls r cs \<longleftrightarrow> \<not> DryRun (r_cfg r) \<and>
     (\<exists>pass t x l e. cs = pass @ [CooldownStart t (Some x), Release l e] \<and>
        cooldown_interval r = Some t \<and>
        list_all (\<lambda>c. \<not> is_execute c \<and> \<not> is_cooldown_start c) pass \<and> granted pass = released pass @ [l])"

lemma startCooldown_calls:
  assumes "startCooldown d r out s = (err, out', s')"
  shows "lockRelease out' = lockRelease out \<and> Command out' = Command out \<and>
    (case cooldownStart out of None \<Rightarrow> err = None \<and> st_calls s' = st_calls s
     | Some t \<Rightarrow> \<exists>x. st_calls s' = st_calls s @ [CooldownStart t x] \<and> (err = None) = (x = None))"
proof (cases "cooldownStart out")
  case (Some t)
  obtain x s1 where inv: "invoke (d_cooldownStart d t) (CooldownStart t) s = (x, s1)" by (metis surj_pair)
  then have "st_calls s1 = st_calls s @ [CooldownStart t x]"
    using invoke_calls [of "d_cooldownStart d t" "CooldownStart t" s] by simp
  with assms Some inv show ?thesis
    by (auto simp: startCooldown_def Let_def record_calls split: option.splits)
qed (use assms in \<open>simp add: startCooldown_def\<close>)

lemma after_ready_calls:
  assumes run: "after_ready L out x = (q, y)"
    and lr: "(lockRelease out \<noteq> None) = executable out" "Status out = Some OutcomeReady"
    and cd: "executable out \<Longrightarrow> cooldownStart out = cooldown_interval (le_runner L)"
  obtains cs where "q \<noteq> Continue" "st_calls (lp_st y) = st_calls (lp_st x) @ cs"
    "\<not> executable out \<longrightarrow> cs = []"
    "executable out \<longrightarrow> Command out \<noteq> [] \<and> (\<exists>l ex e t z. lockRelease out = Some l \<and>
       (cs = (case cooldown_interval (le_runner L) of None \<Rightarrow> [] | Some t \<Rightarrow> [CooldownStart t None]) @
          Execute (Command out) ex # (if ex = None then [] else [Release l e]) \<or>
        cs = [CooldownStart t (Some z), Release l e] \<and> cooldown_interval (le_runner L) = Some t))"
    "executable out \<longrightarrow> (q = Return None) = (\<exists>c. Execute c None \<in> set cs)"
proof (cases "executable out")
  case False
  with lr have none: "out_DryRun out \<or> Command out = []" "lockRelease out = None"
    by (auto simp: executable_def)
  with run have "q \<noteq> Continue" "st_calls (lp_st y) = st_calls (lp_st x)"
    by (auto simp: after_ready_def ReleaseLock_def)
  with False show thesis by (intro that [of "[]"]) simp_all
next
  case True
  let ?d = "le_deps L" and ?r = "le_runner L"
  obtain l where l: "lockRelease out = Some l" using True lr(1) by auto
  have cmd: "\<not> (out_DryRun out \<or> Command out = [])" using True by (simp add: executable_def)
  obtain cdErr o1 s1 where st: "startCooldown ?d ?r out (lp_st x) = (cdErr, o1, s1)" by (metis surj_pair)
  note S = startCooldown_calls [OF st]
  show thesis
  proof (cases cdErr)
    case (Some e)
    obtain rel o2 s2 where rl: "ReleaseLock ?d ?r o1 s1 = (rel, o2, s2)" by (metis surj_pair)
    from ReleaseLock_calls [OF rl] S l obtain e2 where r: "st_calls s2 = st_calls s1 @ [Release l e2]" by auto
    from S Some cd [OF True] obtain t z where t: "st_calls s1 = st_calls (lp_st x) @ [CooldownStart t (Some z)]"
      "cooldown_interval ?r = Some t"
      by (auto split: option.splits)
    have "q \<noteq> Continue" "q \<noteq> Return None" "lp_st y = s2"
      using run cmd st Some rl by (auto simp: after_ready_def Let_def)
    with r t l True cmd show thesis
      by (intro that [of "[CooldownStart t (Some z), Release l e2]"]) auto
  next
    case None
    let ?cd = "case cooldown_interval ?r of None \<Rightarrow> [] | Some t \<Rightarrow> [CooldownStart t None]"
    have c1: "st_calls s1 = st_calls (lp_st x) @ ?cd"
      using S None cd [OF True] by (auto split: option.splits)
    obtain ex s2 where inv: "invoke (ld_execute (le_loop L) (Command out)) (Execute (Command out)) s1 = (ex, s2)"
      by (metis surj_pair)
    then have c2: "st_calls s2 = st_calls s1 @ [Execute (Command out) ex]"
      using invoke_calls [of "ld_execute (le_loop L) (Command out)" "Execute (Command out)" s1] by simp
    show thesis
    proof (cases ex)
      case exNone: None
      have "q = Return None" "lp_st y = s2"
        using run cmd st None inv exNone S by (auto simp: after_ready_def Let_def)
      with c1 c2 l cmd True exNone show thesis
        by (intro that [of "?cd @ [Execute (Command out) None]"]) auto
    next
      case (Some e)
      obtain rel o2 s3 where rl: "ReleaseLock ?d ?r o1 s2 = (rel, o2, s3)" by (metis surj_pair)
      from ReleaseLock_calls [OF rl] S l obtain e2 where r: "st_calls s3 = st_calls s2 @ [Release l e2]" by auto
      have "q \<noteq> Continue" "q \<noteq> Return None" "lp_st y = s3"
        using run cmd st None inv Some S rl by (auto simp: after_ready_def Let_def)
      with c1 c2 r l cmd True Some show thesis
        by (intro that [of "?cd @ [Execute (Command out) (Some e), Release l e2]"]) auto
    qed
  qed
qed

end
