(* ===== verification/LoopSafety.thy ===== *)
theory LoopSafety
  imports Loop
begin

text \<open>
  What the loop of \<open>pkg/orchestrator/loop.go\<close> guarantees over a whole run, on the trace of the calls
  it makes: it reboots at most once, only through every gate and after the cooldown has been started,
  it keeps no lease behind, and it goes on waiting within the bounds of its configuration.
\<close>

section \<open>One iteration\<close>

lemma reboot_callsI:
  assumes "\<not> DryRun (r_cfg r)" "full_gates d r l pass" "granted pass = released pass @ [l]"
    and "\<exists>t. cmd = expandCommand d r t (RebootCommand (r_cfg r))" "cmd \<noteq> []"
    and "list_all (\<lambda>c. \<not> is_execute c \<and> \<not> is_cooldown_start c) pass"
    and "cs = pass @ (case cooldown_interval r of None \<Rightarrow> [] | Some t \<Rightarrow> [CooldownStart t None]) @
           Execute cmd ex # (if ex = None then [] else [Release l e])"
  shows "reboot_calls d r cs"
  using assms unfolding reboot_calls_def by blast

lemma harmless_no_execute: "harmless cs \<Longrightarrow> Execute c e \<notin> set cs"
  by (auto simp: harmless_def list_all_iff)

lemma after_error_calls:
  assumes "after_error L out e x = (q, y)" "lockRelease out = None"
  shows "\<exists>cs. st_calls (lp_st y) = st_calls (lp_st x) @ cs \<and> harmless cs \<and> q \<noteq> Return None"
proof -
  let ?x = "x\<lparr>lp_st := tell (ld_errorHandler (le_loop L) e) (lp_st x)\<rparr>"
  obtain t z where delay: "nextErrorDelay L ?x = (t, z)" by (metis surj_pair)
  then have z: "st_calls (lp_st z) = st_calls (lp_st x)"
    using nextErrorDelay_calls [OF delay] by (simp add: tell_calls)
  have run: "after_error L out e x = (if 0 < sint t then
      (let (err, s) = loop_sleep L t (lp_st z) in
       (case err of Some e \<Rightarrow> Return (Some e) | None \<Rightarrow> Continue, z\<lparr>lp_st := s\<rparr>)) else (Continue, z))"
    using assms(2) delay by (simp add: after_error_def ReleaseLock_def join_error_def)
  show ?thesis
  proof (cases "0 < sint t")
    case True
    obtain err s where sl: "loop_sleep L t (lp_st z) = (err, s)" by (metis surj_pair)
    from loop_sleep_calls [OF sl] True run assms(1) z sl show ?thesis
      by (auto split: option.splits)
  next
    case False
    with run assms(1) z show ?thesis by (intro exI [of _ "[]"]) auto
  qed
qed

lemma after_other_calls:
  assumes "after_other L out x = (q, y)" "lockRelease out = None"
  shows "\<exists>cs. st_calls (lp_st y) = st_calls (lp_st x) @ cs \<and> harmless cs \<and> q \<noteq> Return None"
proof -
  obtain err s where sl: "loop_sleep L (l_interval (le_cfg L)) (lp_st x) = (err, s)" by (metis surj_pair)
  from loop_sleep_calls [OF sl] assms sl show ?thesis
    by (auto simp: after_other_def ReleaseLock_def split: option.splits)
qed

lemma iteration_calls:
  fixes L :: "'w loop_env"
  assumes "honest_random (le_deps L)" "0 < r_maxLockTries (le_runner L)"
    and it: "loop_iteration L x = (q, y)"
  obtains cs where "st_calls (lp_st y) = st_calls (lp_st x) @ cs"
    "harmless cs \<or> reboot_calls (le_deps L) (le_runner L) cs \<or> failed_start_calls (le_runner L) cs"
    "q = Continue \<Longrightarrow> harmless cs"
    "(\<exists>c. Execute c None \<in> set cs) \<Longrightarrow> q = Return None"
    "q = Return None \<Longrightarrow> (\<exists>c. Execute c None \<in> set cs) \<or> DryRun (r_cfg (le_runner L)) \<or>
       RebootCommand (r_cfg (le_runner L)) = []"
proof -
  let ?d = "le_deps L" and ?r = "le_runner L"
  obtain ctx s0 where ctx: "silent (ld_ctx_err (le_loop L)) (lp_st x) = (ctx, s0)" by (metis surj_pair)
  have c0: "st_calls s0 = st_calls (lp_st x)" using silent_rest(1) [of "ld_ctx_err (le_loop L)" "lp_st x"] ctx by simp
  show thesis
  proof (cases ctx)
    case (Some e)
    with it ctx c0 show thesis by (intro that [of "[]"]) (auto simp: loop_iteration_def)
  next
    case None
    obtain out err s1 where run: "RunOnce ?d ?r s0 = (out, err, s1)" by (metis prod_cases3)
    from pass_calls [OF assms(1,2) run] obtain cs where cs: "st_calls s1 = st_calls s0 @ cs"
      "list_all (\<lambda>c. \<not> is_execute c \<and> \<not> is_cooldown_start c) cs"
      "granted cs = released cs @ (case lockRelease out of None \<Rightarrow> [] | Some l \<Rightarrow> [l])"
      "(lockRelease out \<noteq> None) = executable out"
      "executable out \<Longrightarrow> err = None \<and> cooldownStart out = cooldown_interval ?r \<and>
         \<not> DryRun (r_cfg ?r) \<and> full_gates ?d ?r (the (lockRelease out)) cs"
      "Status out = Some OutcomeReady \<Longrightarrow> out_DryRun out = DryRun (r_cfg ?r) \<and>
         (\<exists>t. Command out = expandCommand ?d ?r t (RebootCommand (r_cfg ?r)))" by blast
    have no_ex: "\<nexists>c. Execute c None \<in> set cs" using cs(2) by (auto simp: list_all_iff)
    have idle: "harmless cs" if "\<not> executable out"
      using that cs(2,3,4) by (auto simp: harmless_def)
    let ?x = "x\<lparr>lp_st := tell (ld_hook (le_loop L) out) s1, lp_backoff := 0\<rparr>"
    have cx: "st_calls (lp_st ?x) = st_calls (lp_st x) @ cs" using cs(1) c0 by (simp add: tell_calls)
    show thesis
    proof (cases err)
      case (Some e)
      then have nx: "\<not> executable out" using cs(5) by auto
      with cs(4) have "lockRelease out = None" by auto
      moreover have "after_error L out e (x\<lparr>lp_st := s1\<rparr>) = (q, y)"
        using it ctx None run Some by (simp add: loop_iteration_def)
      ultimately obtain ds where "st_calls (lp_st y) = st_calls s1 @ ds" "harmless ds" "q \<noteq> Return None"
        using after_error_calls [of L out e "x\<lparr>lp_st := s1\<rparr>"] by auto
      with cs(1) c0 idle [OF nx] show thesis
        by (intro that [of "cs @ ds"]) (auto simp: harmless_append dest: harmless_no_execute)
    next
      case no_error: None
      show thesis
      proof (cases "Status out = Some OutcomeReady")
        case False
        then have nx: "\<not> executable out" by (simp add: executable_def)
        with cs(4) have "lockRelease out = None" by auto
        moreover have "after_other L out ?x = (q, y)"
          using it ctx None run no_error False by (simp add: loop_iteration_def)
        ultimately obtain ds where "st_calls (lp_st y) = st_calls (lp_st ?x) @ ds" "harmless ds" "q \<noteq> Return None"
          using after_other_calls [of L out ?x] by auto
        with cx idle [OF nx] show thesis
          by (intro that [of "cs @ ds"]) (auto simp: harmless_append dest: harmless_no_execute)
      next
        case True
        have ar: "after_ready L out ?x = (q, y)"
          using it ctx None run no_error True by (simp add: loop_iteration_def)
        have cd: "executable out \<Longrightarrow> cooldownStart out = cooldown_interval ?r" using cs(5) by simp
        obtain ds where ds: "q \<noteq> Continue"
          "st_calls (lp_st y) = st_calls (lp_st ?x) @ ds" "\<not> executable out \<longrightarrow> ds = []"
          "executable out \<longrightarrow> Command out \<noteq> [] \<and> (\<exists>l ex e t z. lockRelease out = Some l \<and>
             (ds = (case cooldown_interval ?r of None \<Rightarrow> [] | Some t \<Rightarrow> [CooldownStart t None]) @
                Execute (Command out) ex # (if ex = None then [] else [Release l e]) \<or>
              ds = [CooldownStart t (Some z), Release l e] \<and> cooldown_interval ?r = Some t))"
          "executable out \<longrightarrow> (q = Return None) = (\<exists>c. Execute c None \<in> set ds)"
          by (rule after_ready_calls [OF ar cs(4) True cd])
        note ready = True
        have "harmless (cs @ ds) \<or> reboot_calls ?d ?r (cs @ ds) \<or> failed_start_calls ?r (cs @ ds)"
        proof (cases "executable out")
          case False
          with idle ds(3) show ?thesis by simp
        next
          case True
          from mp [OF ds(4) True] obtain l ex e t z where l: "Command out \<noteq> []" "lockRelease out = Some l" and
            alt: "ds = (case cooldown_interval ?r of None \<Rightarrow> [] | Some t \<Rightarrow> [CooldownStart t None]) @
                Execute (Command out) ex # (if ex = None then [] else [Release l e]) \<or>
              ds = [CooldownStart t (Some z), Release l e] \<and> cooldown_interval ?r = Some t" by blast
          from cs(3) l(2) have g: "granted cs = released cs @ [l]" by simp
          from alt show ?thesis
          proof
            assume "ds = (case cooldown_interval ?r of None \<Rightarrow> [] | Some t \<Rightarrow> [CooldownStart t None]) @
                Execute (Command out) ex # (if ex = None then [] else [Release l e])"
            with cs(2) cs(5) [OF True] cs(6) [OF ready] l g have "reboot_calls ?d ?r (cs @ ds)"
              by (intro reboot_callsI [of ?r ?d l cs "Command out" "cs @ ds" ex e]) auto
            then show ?thesis by blast
          next
            assume "ds = [CooldownStart t (Some z), Release l e] \<and> cooldown_interval ?r = Some t"
            with cs(2) cs(5) [OF True] g have "failed_start_calls ?r (cs @ ds)"
              unfolding failed_start_calls_def by auto
            then show ?thesis by blast
          qed
        qed
        moreover have "(\<exists>c. Execute c None \<in> set (cs @ ds)) \<Longrightarrow> q = Return None"
          using ds(3,5) no_ex by (cases "executable out") auto
        moreover have "q = Return None \<Longrightarrow> (\<exists>c. Execute c None \<in> set (cs @ ds)) \<or> DryRun (r_cfg ?r) \<or>
            RebootCommand (r_cfg ?r) = []"
          using ds(5) ready cs(6) [OF ready]
          by (cases "executable out") (auto simp: executable_def expandCommand_def)
        ultimately show thesis using cx ds(1,2) by (intro that [of "cs @ ds"]) simp_all
      qed
    qed
  qed
qed

lemma loop_runs_harmless:
  assumes "honest_random (le_deps L)" "0 < r_maxLockTries (le_runner L)" "loop_runs L x y"
  shows "\<exists>cs. st_calls (lp_st y) = st_calls (lp_st x) @ cs \<and> harmless cs"
  using assms(3)
proof induction
  case (start x)
  show ?case by (intro exI [of _ "[]"]) simp
next
  case (again x y z)
  from again.IH obtain cs where cs: "st_calls (lp_st y) = st_calls (lp_st x) @ cs" "harmless cs" by blast
  from iteration_calls [OF assms(1,2) again.hyps(2)] obtain ds where
    ds: "st_calls (lp_st z) = st_calls (lp_st y) @ ds" "harmless ds" by blast
  with cs show ?case by (intro exI [of _ "cs @ ds"]) (simp add: harmless_append)
qed

lemma loop_calls:
  fixes L :: "'w loop_env"
  assumes "honest_random (le_deps L)" "0 < r_maxLockTries (le_runner L)"
    and "loop_runs L x y" "loop_iteration L y = (q, z)"
  obtains idle cs where "st_calls (lp_st z) = st_calls (lp_st x) @ idle @ cs" "harmless idle"
    "harmless cs \<or> reboot_calls (le_deps L) (le_runner L) cs \<or> failed_start_calls (le_runner L) cs"
    "(\<exists>c. Execute c None \<in> set cs) \<Longrightarrow> q = Return None"
    "q = Return None \<Longrightarrow> (\<exists>c. Execute c None \<in> set cs) \<or> DryRun (r_cfg (le_runner L)) \<or>
       RebootCommand (r_cfg (le_runner L)) = []"
proof -
  from loop_runs_harmless [OF assms(1-3)] obtain idle where
    idle: "st_calls (lp_st y) = st_calls (lp_st x) @ idle" "harmless idle" by blast
  show thesis
  proof (rule iteration_calls [OF assms(1,2,4)])
    fix cs
    assume "st_calls (lp_st z) = st_calls (lp_st y) @ cs"
      "harmless cs \<or> reboot_calls (le_deps L) (le_runner L) cs \<or> failed_start_calls (le_runner L) cs"
      "(\<exists>c. Execute c None \<in> set cs) \<Longrightarrow> q = Return None"
      "q = Return None \<Longrightarrow> (\<exists>c. Execute c None \<in> set cs) \<or> DryRun (r_cfg (le_runner L)) \<or>
         RebootCommand (r_cfg (le_runner L)) = []"
    with idle show thesis by (intro that [of idle cs]) simp_all
  qed
qed

section \<open>Leases and executions\<close>

definition executions :: "call list \<Rightarrow> nat" where
  "executions cs = length (List.filter is_execute cs)"

lemma executions_append [simp]: "executions (xs @ ys) = executions xs + executions ys"
  by (simp add: executions_def)

lemma executions_none: "list_all (\<lambda>c. \<not> is_execute c \<and> \<not> is_cooldown_start c) cs \<Longrightarrow> executions cs = 0"
  by (induction cs) (auto simp: executions_def)

lemma executions_harmless: "harmless cs \<Longrightarrow> executions cs = 0"
  by (simp add: harmless_def executions_none)

lemma reboot_calls_clean:
  assumes "reboot_calls d r cs"
  shows "executions cs = 1"
    and "\<exists>l. granted cs = released cs @ (if \<exists>c. Execute c None \<in> set cs then [l] else [])"
proof -
  from assms obtain pass l cmd ex e where g: "granted pass = released pass @ [l]"
    and p: "list_all (\<lambda>c. \<not> is_execute c \<and> \<not> is_cooldown_start c) pass"
    and cs: "cs = pass @ (case cooldown_interval r of None \<Rightarrow> [] | Some t \<Rightarrow> [CooldownStart t None]) @
      Execute cmd ex # (if ex = None then [] else [Release l e])"
    unfolding reboot_calls_def by blast
  show "executions cs = 1"
    using executions_none [OF p] cs by (auto simp: executions_def split: option.splits)
  have "Execute c None \<notin> set pass" for c using p by (auto simp: list_all_iff)
  then show "\<exists>l. granted cs = released cs @ (if \<exists>c. Execute c None \<in> set cs then [l] else [])"
    using g cs by (intro exI [of _ l]) (auto split: option.splits)
qed

lemma failed_start_clean:
  assumes "failed_start_calls r cs"
  shows "executions cs = 0" "granted cs = released cs" "\<nexists>c. Execute c None \<in> set cs"
proof -
  from assms obtain pass t x l e where g: "granted pass = released pass @ [l]"
    and p: "list_all (\<lambda>c. \<not> is_execute c \<and> \<not> is_cooldown_start c) pass"
    and cs: "cs = pass @ [CooldownStart t (Some x), Release l e]"
    unfolding failed_start_calls_def by blast
  show "executions cs = 0" using executions_none [OF p] cs by (simp add: executions_def)
  show "granted cs = released cs" using g cs by simp
  show "\<nexists>c. Execute c None \<in> set cs" using p cs by (auto simp: list_all_iff)
qed

lemma iteration_clean:
  assumes "harmless cs \<or> reboot_calls d r cs \<or> failed_start_calls r cs"
  shows "executions cs \<le> 1 \<and> (\<exists>l. granted cs = released cs @ (if \<exists>c. Execute c None \<in> set cs then [l] else []))"
  using assms
proof (elim disjE)
  assume "harmless cs"
  then show ?thesis using executions_harmless [of cs] harmless_no_execute [of cs] by (simp add: harmless_def)
next
  assume "reboot_calls d r cs"
  from reboot_calls_clean [OF this] show ?thesis by simp
next
  assume "failed_start_calls r cs"
  from failed_start_clean [OF this] show ?thesis by simp
qed

section \<open>Settings and delays\<close>

lemma sint_defaults: "sint (5 * Second) = 5000000000" "sint Minute = 60000000000"
  by code_simp+

definition sane_loop :: "loop_cfg \<Rightarrow> bool" where
  "sane_loop l \<longleftrightarrow> 0 < sint (l_interval l) \<and> 0 < sint (l_errorMinDelay l) \<and>
     sint (l_errorMinDelay l) \<le> sint (l_errorMaxDelay l)"

lemma NewLoop_sane: "sane_loop (NewLoop cfg opts)"
proof -
  define l0 where "l0 = fold (\<lambda>opt. opt) opts
    \<lparr>l_interval = CheckInterval cfg, l_errorMinDelay = 5 * Second, l_errorMaxDelay = Minute\<rparr>"
  show ?thesis
    unfolding NewLoop_def l0_def [symmetric] sane_loop_def Let_def
    by (simp add: sint_defaults not_le)
qed

lemma raise_backoff_bounds:
  assumes "sane_loop l"
  shows "sint (l_errorMinDelay l) \<le> sint (raise_backoff l b) \<and> sint (raise_backoff l b) \<le> sint (l_errorMaxDelay l)"
  using assms by (auto simp: raise_backoff_def sane_loop_def Let_def)

definition honest_loop_random :: "'w loop_deps \<Rightarrow> bool" where
  "honest_loop_random ld \<longleftrightarrow> (\<forall>n w. 0 < n \<longrightarrow> 0 \<le> fst (ld_random ld n w) \<and> fst (ld_random ld n w) < n)"

lemma nextErrorDelay_bounds:
  assumes "honest_loop_random (le_loop L)" "sane_loop (le_cfg L)" "nextErrorDelay L x = (t, y)"
  shows "in_bounds (l_errorMinDelay (le_cfg L)) (lp_backoff y) t \<and>
    lp_backoff y = raise_backoff (le_cfg L) (lp_backoff x)"
proof -
  let ?b = "raise_backoff (le_cfg L) (lp_backoff x)" and ?mn = "l_errorMinDelay (le_cfg L)"
  note R = raise_backoff_bounds [OF assms(2), of "lp_backoff x"]
  have pos: "0 < sint ?mn" using assms(2) by (simp add: sane_loop_def)
  show ?thesis
  proof (cases "sint ?b \<le> sint ?mn")
    case True
    then show ?thesis using assms(3) pos R by (auto simp: nextErrorDelay_def Let_def in_bounds_def)
  next
    case False
    note J = jitter_bounds [OF pos, of ?b]
    define j where "j = fst (silent (ld_random (le_loop L) (sint (?b - ?mn + 1))) (lp_st x))"
    have "0 < sint (?b - ?mn + 1)" using False J(2) by simp
    then have "0 \<le> j" "j < sint (?b - ?mn + 1)"
      using assms(1) by (simp_all add: honest_loop_random_def j_def silent_def split_beta)
    then have "in_bounds ?mn ?b (?mn + word_of_int j)"
      using False J(3) by (simp add: in_bounds_def)
    then show ?thesis
      using assms(3) pos False J(1) by (auto simp: nextErrorDelay_def Let_def split_beta j_def)
  qed
qed

text \<open>The \<open>k\<close>-th error in a row: the back-off doubles until it reaches the maximum.\<close>

lemma raise_backoff_step:
  assumes "sane_loop l" "2 * sint (l_errorMaxDelay l) < 2 ^ 63"
    and "sint (l_errorMinDelay l) \<le> sint b" "sint b \<le> sint (l_errorMaxDelay l)"
  shows "sint (raise_backoff l b) = min (sint (l_errorMaxDelay l)) (2 * sint b)"
proof -
  have "sint (b * 2) = 2 * sint b"
    using sint_times_int64 [of b 2] assms by (simp add: in_int64_def sane_loop_def)
  then show ?thesis using assms by (auto simp: raise_backoff_def sane_loop_def Let_def)
qed

lemma raise_backoff_power:
  assumes "sane_loop l" "2 * sint (l_errorMaxDelay l) < 2 ^ 63"
  shows "sint ((raise_backoff l ^^ Suc k) 0) = min (sint (l_errorMaxDelay l)) (sint (l_errorMinDelay l) * 2 ^ k)"
proof (induction k)
  case 0
  then show ?case using assms(1) by (auto simp: raise_backoff_def sane_loop_def Let_def)
next
  case (Suc k)
  let ?b = "(raise_backoff l ^^ Suc k) 0" and ?mx = "sint (l_errorMaxDelay l)" and ?mn = "sint (l_errorMinDelay l)"
  have "?mn \<le> sint ?b" "sint ?b \<le> ?mx" using raise_backoff_bounds [OF assms(1)] by simp_all
  from raise_backoff_step [OF assms this] Suc.IH
  have "sint (raise_backoff l ?b) = min ?mx (2 * min ?mx (?mn * 2 ^ k))" by simp
  moreover have "0 < ?mx" using assms(1) by (simp add: sane_loop_def)
  ultimately show ?case by (simp add: min_def)
qed

section \<open>Progress\<close>

text \<open>The context goes on, the cooldown can be started, and the command runs without an error.\<close>

definition calm_loop :: "'w loop_env \<Rightarrow> bool" where
  "calm_loop L \<longleftrightarrow> calm_world (le_deps L) (le_runner L) \<and> permissive (le_deps L) (le_runner L) \<and>
     \<not> DryRun (r_cfg (le_runner L)) \<and> RebootCommand (r_cfg (le_runner L)) \<noteq> [] \<and>
     (\<forall>w. fst (ld_ctx_err (le_loop L) w) = None) \<and>
     (\<forall>t w. fst (d_cooldownStart (le_deps L) t w) = None) \<and>
     (\<forall>c w. fst (ld_execute (le_loop L) c w) = None)"

lemma startCooldown_succeeds:
  assumes "\<forall>t w. fst (d_cooldownStart d t w) = None"
  shows "\<exists>out' s'. startCooldown d r out s = (None, out', s')"
proof (cases "cooldownStart out")
  case (Some t)
  have "fst (invoke (d_cooldownStart d t) (CooldownStart t) s) = None"
    using assms by (simp add: invoke_fst)
  with Some show ?thesis by (simp add: startCooldown_def Let_def split_beta)
qed (simp add: startCooldown_def)

lemma calm_iteration:
  assumes "calm_loop L"
  shows "\<exists>y. loop_iteration L x = (Return None, y)"
proof -
  let ?d = "le_deps L" and ?r = "le_runner L"
  have calm: "calm_world ?d ?r" "permissive ?d ?r" "\<not> DryRun (r_cfg ?r) \<and> RebootCommand (r_cfg ?r) \<noteq> []"
    "\<forall>w. fst (ld_ctx_err (le_loop L) w) = None" "\<forall>t w. fst (d_cooldownStart ?d t w) = None"
    "\<forall>c w. fst (ld_execute (le_loop L) c w) = None"
    using assms by (simp_all add: calm_loop_def)
  obtain s0 where s0: "silent (ld_ctx_err (le_loop L)) (lp_st x) = (None, s0)"
    using calm(4) by (simp add: silent_def split_beta)
  obtain out s1 where run: "RunOnce ?d ?r s0 = (out, None, s1)" and
    out: "Status out = Some OutcomeReady" "executable out"
    using calm_pass [OF calm(1,2), of s0] calm(3) by auto
  let ?x = "x\<lparr>lp_st := tell (ld_hook (le_loop L) out) s1, lp_backoff := 0\<rparr>"
  obtain o1 s2 where start: "startCooldown ?d ?r out (lp_st ?x) = (None, o1, s2)"
    using startCooldown_succeeds [OF calm(5)] by metis
  from startCooldown_calls [OF start] have "Command o1 = Command out" by simp
  moreover have "fst (invoke (ld_execute (le_loop L) c) (Execute c) s2) = None" for c
    using calm(6) by (simp add: invoke_fst)
  ultimately show ?thesis
    using s0 run out start
    by (simp add: loop_iteration_def after_ready_def executable_def Let_def split_beta)
qed

lemma loop_Run_Return: "loop_iteration L x = (Return e, y) \<Longrightarrow> loop_Run L x = Some (e, y)"
  by (simp add: loop_Run.simps)

lemma calm_loop_returns: "calm_loop L \<Longrightarrow> \<exists>y. loop_Run L x = Some (None, y)"
  using calm_iteration loop_Run_Return by metis

lemma loop_Run_nil:
  fixes L :: "'w loop_env"
  assumes "honest_random (le_deps L)" "0 < r_maxLockTries (le_runner L)" "loop_Run L x = Some (None, y)"
    and "\<not> DryRun (r_cfg (le_runner L))" "RebootCommand (r_cfg (le_runner L)) \<noteq> []"
  shows "\<exists>idle cs c. st_calls (lp_st y) = st_calls (lp_st x) @ idle @ cs \<and> harmless idle \<and>
    reboot_calls (le_deps L) (le_runner L) cs \<and> Execute c None \<in> set cs"
proof -
  from loop_Run_runs [OF assms(3)] obtain z where z: "loop_runs L x z" "loop_iteration L z = (Return None, y)" by auto
  show ?thesis
  proof (rule loop_calls [OF assms(1,2) z])
    fix idle cs
    assume cs: "st_calls (lp_st y) = st_calls (lp_st x) @ idle @ cs" "harmless idle"
      "harmless cs \<or> reboot_calls (le_deps L) (le_runner L) cs \<or> failed_start_calls (le_runner L) cs"
      and ret: "Return None = Return None \<Longrightarrow> (\<exists>c. Execute c None \<in> set cs) \<or>
        DryRun (r_cfg (le_runner L)) \<or> RebootCommand (r_cfg (le_runner L)) = []"
    from ret assms(4,5) obtain c where "Execute c None \<in> set cs" by auto
    with cs failed_start_clean(3) [of "le_runner L" cs] harmless_no_execute [of cs c None] show ?thesis by blast
  qed
qed

section \<open>Properties\<close>

text \<open>C2: The loop never reboots unsafely, and at most once.  Whatever happens in a run, the calls of
  the iterations that went on neither execute a command nor start a cooldown and keep no lease.  In the
  last iteration either nothing happens as well; or, outside a dry run, a pass went through every gate
  and ends with the lease in hand, the configured cooldown was then started, and only then the
  configured command, expanded, was executed, and the lease was released if that failed; or the
  cooldown could not be started, and the lease was released without executing anything.\<close>

theorem loop_reboots_safely:
  assumes "honest_random (le_deps L)" "0 < r_maxLockTries (le_runner L)"
    and "loop_runs L x y" "loop_iteration L y = (q, z)"
  shows "\<exists>idle cs. st_calls (lp_st z) = st_calls (lp_st x) @ idle @ cs \<and> harmless idle \<and>
    (harmless cs \<or> reboot_calls (le_deps L) (le_runner L) cs \<or> failed_start_calls (le_runner L) cs)"
  by (rule loop_calls [OF assms]) blast

text \<open>C10: The loop leaves nothing behind.  When it returns, it has executed at most one command, and
  every lease it was granted has been released, except the one under which the command was executed
  without an error, which is left to end with the node; in that case the loop returns nil.\<close>

theorem loop_ends_clean:
  assumes "honest_random (le_deps L)" "0 < r_maxLockTries (le_runner L)" "loop_Run L x = Some (res, y)"
  shows "\<exists>cs l. st_calls (lp_st y) = st_calls (lp_st x) @ cs \<and> executions cs \<le> 1 \<and>
    granted cs = released cs @ (if \<exists>c. Execute c None \<in> set cs then [l] else []) \<and>
    ((\<exists>c. Execute c None \<in> set cs) \<longrightarrow> res = None)"
proof -
  from loop_Run_runs [OF assms(3)] obtain z where z: "loop_runs L x z" "loop_iteration L z = (Return res, y)" by auto
  show ?thesis
  proof (rule loop_calls [OF assms(1,2) z])
    fix idle cs
    assume cs: "st_calls (lp_st y) = st_calls (lp_st x) @ idle @ cs" "harmless idle"
      "harmless cs \<or> reboot_calls (le_deps L) (le_runner L) cs \<or> failed_start_calls (le_runner L) cs"
      and ret: "(\<exists>c. Execute c None \<in> set cs) \<Longrightarrow> Return res = Return None"
    have "executions cs \<le> 1 \<and> (\<exists>l. granted cs = released cs @ (if \<exists>c. Execute c None \<in> set cs then [l] else []))"
      using cs(3) by (rule iteration_clean)
    then obtain l where "executions cs \<le> 1"
      "granted cs = released cs @ (if \<exists>c. Execute c None \<in> set cs then [l] else [])" by blast
    moreover have "(\<exists>c. Execute c None \<in> set (idle @ cs)) = (\<exists>c. Execute c None \<in> set cs)"
      "granted idle = released idle" "executions idle = 0"
      using cs(2) harmless_no_execute [of idle] executions_harmless [of idle] by (auto simp: harmless_def)
    ultimately show ?thesis using cs(1) ret
      by (intro exI [of _ "idle @ cs"] exI [of _ l]) simp
  qed
qed


text \<open>C20: A dry run changes nothing.  With \<open>dry_run\<close> set, no iteration of the loop ever executes a
  command or starts a cooldown, and every lease is given back.\<close>

theorem dry_run_loop_harmless:
  assumes "honest_random (le_deps L)" "0 < r_maxLockTries (le_runner L)" "DryRun (r_cfg (le_runner L))"
    and "loop_runs L x y" "loop_iteration L y = (q, z)"
  shows "\<exists>cs. st_calls (lp_st z) = st_calls (lp_st x) @ cs \<and> harmless cs"
proof (rule loop_calls [OF assms(1,2,4,5)])
  fix idle cs
  assume "st_calls (lp_st z) = st_calls (lp_st x) @ idle @ cs" "harmless idle"
    "harmless cs \<or> reboot_calls (le_deps L) (le_runner L) cs \<or> failed_start_calls (le_runner L) cs"
  with assms(3) show ?thesis
    by (intro exI [of _ "idle @ cs"]) (auto simp: harmless_append reboot_calls_def failed_start_calls_def)
qed



section \<open>Witnesses\<close>

definition demo_loop :: "unit loop_env" where
  "demo_loop = \<lparr>le_deps = demo_deps, le_runner = demo_r,
     le_loop = \<lparr>ld_ctx_err = \<lambda>w. (None, w), ld_execute = \<lambda>c w. (None, w), ld_hook = \<lambda>out w. w,
       ld_errorHandler = \<lambda>e w. w, ld_sleep = \<lambda>t w. (None, w), ld_random = \<lambda>n w. (0, w)\<rparr>,
     le_cfg = NewLoop demo_cfg []\<rparr>"

definition demo_start :: "unit loop_st" where
  "demo_start = \<lparr>lp_st = demo_st, lp_backoff = 0\<rparr>"

lemma demo_loop_parts:
  "le_deps demo_loop = demo_deps" "le_runner demo_loop = demo_r" "le_cfg demo_loop = NewLoop demo_cfg []"
  "st_calls (lp_st demo_start) = []" "lp_backoff demo_start = 0"
  by (simp_all add: demo_loop_def demo_start_def demo_st_def)

lemma demo_loop_calm: "calm_loop demo_loop" "honest_random (le_deps demo_loop)"
  "0 < r_maxLockTries (le_runner demo_loop)" "honest_loop_random (le_loop demo_loop)"
  using demo_calm demo_executable
  by (simp_all add: calm_loop_def demo_loop_parts, simp_all add: demo_loop_def demo_deps_def honest_loop_random_def)

lemma demo_loop_run:
  obtains y where "loop_Run demo_loop demo_start = Some (None, y)"
    "loop_iteration demo_loop demo_start = (Return None, y)"
  using calm_iteration [OF demo_loop_calm(1), of demo_start] loop_Run_Return by metis

theorem loop_reboots_safely_witness:
  "\<exists>y idle cs. loop_Run demo_loop demo_start = Some (None, y) \<and> st_calls (lp_st y) = idle @ cs \<and>
     harmless idle \<and> (harmless cs \<or> reboot_calls demo_deps demo_r cs \<or> failed_start_calls demo_r cs)"
proof -
  obtain y where y: "loop_Run demo_loop demo_start = Some (None, y)"
    "loop_iteration demo_loop demo_start = (Return None, y)" by (rule demo_loop_run)
  with loop_reboots_safely [OF demo_loop_calm(2,3) loop_runs.start y(2)] show ?thesis
    by (simp add: demo_loop_parts)
qed

theorem loop_ends_clean_witness:
  "\<exists>y. loop_Run demo_loop demo_start = Some (None, y) \<and> executions (st_calls (lp_st y)) \<le> 1"
proof -
  obtain y where y: "loop_Run demo_loop demo_start = Some (None, y)" by (rule demo_loop_run)
  from loop_ends_clean [OF demo_loop_calm(2,3) y] y show ?thesis by (auto simp: demo_loop_parts)
qed



text \<open>The same loop as a dry run.\<close>

definition demo_dry_r :: runner where
  "demo_dry_r = demo_r\<lparr>r_cfg := demo_cfg\<lparr>DryRun := True\<rparr>\<rparr>"

theorem dry_run_loop_harmless_witness:
  "harmless (st_calls (lp_st (snd (loop_iteration (demo_loop\<lparr>le_runner := demo_dry_r\<rparr>) demo_start))))"
proof -
  let ?L = "demo_loop\<lparr>le_runner := demo_dry_r\<rparr>"
  have "honest_random (le_deps ?L)" "0 < r_maxLockTries (le_runner ?L)" "DryRun (r_cfg (le_runner ?L))"
    using demo_calm by (simp_all add: demo_loop_parts demo_dry_r_def)
  from dry_run_loop_harmless [OF this loop_runs.start, of demo_start "fst (loop_iteration ?L demo_start)"
      "snd (loop_iteration ?L demo_start)"]
  show ?thesis by (auto simp: demo_loop_parts)
qed


end
