(* ===== verification/GoJson.thy ===== *)
theory GoJson
  imports GoErrors
begin

text \<open>
  \<open>encoding/json\<close>, as far as the program uses it: compact printing of values, with the escapes the
  package writes, and the parser with its treatment of white space, escapes, surrogates and invalid
  UTF-8.  A structure is decoded member by member: unknown keys are ignored, \<open>null\<close> changes nothing,
  and a value of the wrong type is an error.
\<close>

datatype json =
    JNull | JBool bool | JNum string | JStr string | JArr "json list" | JObj "(string \<times> json) list"

section \<open>UTF-8\<close>

definition byte :: "char \<Rightarrow> nat" where
  "byte c = of_char c"

definition byte_in :: "nat \<Rightarrow> nat \<Rightarrow> char \<Rightarrow> bool" where
  "byte_in lo hi c \<longleftrightarrow> lo \<le> byte c \<and> byte c \<le> hi"

definition cont :: "char \<Rightarrow> bool" where
  "cont c \<longleftrightarrow> byte_in 0x80 0xBF c"

text \<open>Length of the encoding of a code point at the start of a string, 0 when there is none.\<close>

definition two_bytes :: "char \<Rightarrow> char \<Rightarrow> bool" where
  "two_bytes a b \<longleftrightarrow> byte_in 0xC2 0xDF a \<and> cont b"

definition three_bytes :: "char \<Rightarrow> char \<Rightarrow> char \<Rightarrow> bool" where
  "three_bytes a b c \<longleftrightarrow> byte_in 0xE0 0xEF a \<and>
     byte_in (if byte a = 0xE0 then 0xA0 else 0x80) (if byte a = 0xED then 0x9F else 0xBF) b \<and> cont c"

definition four_bytes :: "char \<Rightarrow> char \<Rightarrow> char \<Rightarrow> char \<Rightarrow> bool" where
  "four_bytes a b c d \<longleftrightarrow> byte_in 0xF0 0xF4 a \<and>
     byte_in (if byte a = 0xF0 then 0x90 else 0x80) (if byte a = 0xF4 then 0x8F else 0xBF) b \<and> cont c \<and> cont d"

fun utf8_len :: "string \<Rightarrow> nat" where
  "utf8_len [] = 0"
| "utf8_len (a # r) =
     (if byte a < 0x80 then 1
      else case r of
        [] \<Rightarrow> 0
      | b # r2 \<Rightarrow>
        if two_bytes a b then 2
        else case r2 of
          [] \<Rightarrow> 0
        | c # r3 \<Rightarrow>
          if three_bytes a b c then 3
          else case r3 of [] \<Rightarrow> 0 | d # r4 \<Rightarrow> if four_bytes a b c d then 4 else 0)"

definition utf8_size :: "string \<Rightarrow> nat" where
  "utf8_size s = (if utf8_len s = 0 then 1 else utf8_len s)"

function valid_utf8 :: "string \<Rightarrow> bool" where
  "valid_utf8 s =
     (if s = [] then True else if utf8_len s = 0 then False else valid_utf8 (drop (utf8_len s) s))"
  by pat_completeness auto
termination
  by (relation "measure length") auto

declare valid_utf8.simps [simp del]

text \<open>The encoding of a code point, and of the replacement character.\<close>

definition encode_rune :: "nat \<Rightarrow> string" where
  "encode_rune n =
     (if n < 0x80 then [char_of n]
      else if n < 0x800 then [char_of (0xC0 + n div 64), char_of (0x80 + n mod 64)]
      else if n < 0x10000 then
        [char_of (0xE0 + n div 4096), char_of (0x80 + n div 64 mod 64), char_of (0x80 + n mod 64)]
      else [char_of (0xF0 + n div 262144), char_of (0x80 + n div 4096 mod 64),
            char_of (0x80 + n div 64 mod 64), char_of (0x80 + n mod 64)])"

definition replacement :: string where
  "replacement = [CHR 0xEF, CHR 0xBF, CHR 0xBD]"

section \<open>Printing\<close>

definition safe_byte :: "char \<Rightarrow> bool" where
  "safe_byte c \<longleftrightarrow> 0x20 \<le> byte c \<and> byte c < 0x80 \<and>
     c \<noteq> CHR 0x22 \<and> c \<noteq> CHR 0x5C \<and> c \<noteq> CHR ''<'' \<and> c \<noteq> CHR ''>'' \<and> c \<noteq> CHR ''&''"

definition escape_byte :: "char \<Rightarrow> string" where
  "escape_byte c =
     (if c = CHR 0x22 \<or> c = CHR 0x5C then [CHR 0x5C, c]
      else if byte c = 8 then [CHR 0x5C, CHR ''b''] else if byte c = 12 then [CHR 0x5C, CHR ''f'']
      else if byte c = 10 then [CHR 0x5C, CHR ''n''] else if byte c = 13 then [CHR 0x5C, CHR ''r'']
      else if byte c = 9 then [CHR 0x5C, CHR ''t'']
      else [CHR 0x5C, CHR ''u'', CHR ''0'', CHR ''0'', hex_char (byte c div 16), hex_char (byte c mod 16)])"

text \<open>U+2028 and U+2029 are escaped as well.\<close>

definition escape_seq :: "string \<Rightarrow> string" where
  "escape_seq e =
     (if e = [CHR 0xE2, CHR 0x80, CHR 0xA8] then CHR 0x5C # ''u2028''
      else if e = [CHR 0xE2, CHR 0x80, CHR 0xA9] then CHR 0x5C # ''u2029''
      else e)"

function json_chars :: "string \<Rightarrow> string" where
  "json_chars s =
     (case s of
        [] \<Rightarrow> []
      | c # cs \<Rightarrow>
        if byte c < 0x80 then (if safe_byte c then [c] else escape_byte c) @ json_chars cs
        else if utf8_len s = 0 then CHR 0x5C # ''ufffd'' @ json_chars cs
        else escape_seq (take (utf8_len s) s) @ json_chars (drop (utf8_len s) s))"
  by pat_completeness auto
termination
  by (relation "measure length") auto

declare json_chars.simps [simp del]

definition json_string :: "string \<Rightarrow> string" where
  "json_string s = CHR 0x22 # json_chars s @ [CHR 0x22]"

fun json_print :: "json \<Rightarrow> string" where
  "json_print JNull = ''null''"
| "json_print (JBool b) = FormatBool b"
| "json_print (JNum n) = n"
| "json_print (JStr s) = json_string s"
| "json_print (JArr vs) = ''['' @ Join (map json_print vs) '','' @ '']''"
| "json_print (JObj ms) = ''{'' @ Join (map (\<lambda>(k, v). json_string k @ '':'' @ json_print v) ms) '','' @ ''}''"

section \<open>Parsing\<close>

definition skip_ws :: "string \<Rightarrow> string" where
  "skip_ws s = dropWhile (\<lambda>c. c = CHR 0x20 \<or> c = CHR 0x09 \<or> c = CHR 0x0A \<or> c = CHR 0x0D) s"

text \<open>What follows the next byte that is no white space, when that is the expected one.\<close>

definition expect :: "char \<Rightarrow> string \<Rightarrow> string option" where
  "expect x s = (case skip_ws s of [] \<Rightarrow> None | c # r \<Rightarrow> if c = x then Some r else None)"

definition hex_value :: "char \<Rightarrow> nat option" where
  "hex_value c =
     (if is_digit c then Some (digit_value c)
      else if byte_in 97 102 c then Some (byte c - 87)
      else if byte_in 65 70 c then Some (byte c - 55) else None)"

fun hex4 :: "string \<Rightarrow> nat option" where
  "hex4 (a # b # c # d # r) =
     (case (hex_value a, hex_value b, hex_value c, hex_value d) of
        (Some w, Some x, Some y, Some z) \<Rightarrow> Some (4096 * w + 256 * x + 16 * y + z)
      | _ \<Rightarrow> None)"
| "hex4 _ = None"

text \<open>A \<open>\u\<close> escape after its \<open>u\<close>: the bytes it stands for and the number of bytes it takes up,
  two escapes for a pair of surrogates.\<close>

definition unescape_u :: "string \<Rightarrow> (string \<times> nat) option" where
  "unescape_u r =
     (case hex4 r of
        None \<Rightarrow> None
      | Some n \<Rightarrow>
        if n < 0xD800 \<or> 0xE000 \<le> n then Some (encode_rune n, 4)
        else if 0xDC00 \<le> n then Some (replacement, 4)
        else if take 2 (drop 4 r) = [CHR 0x5C, CHR ''u''] then
          (case hex4 (drop 6 r) of
             Some m \<Rightarrow>
               if 0xDC00 \<le> m \<and> m < 0xE000
               then Some (encode_rune (0x10000 + (n - 0xD800) * 1024 + (m - 0xDC00)), 10)
               else Some (replacement, 4)
           | None \<Rightarrow> Some (replacement, 4))
        else Some (replacement, 4))"

definition unescape :: "char \<Rightarrow> char option" where
  "unescape e =
     (if e = CHR 0x22 \<or> e = CHR 0x5C \<or> e = CHR ''/'' then Some e
      else if e = CHR ''b'' then Some (CHR 0x08) else if e = CHR ''f'' then Some (CHR 0x0C)
      else if e = CHR ''n'' then Some (CHR 0x0A) else if e = CHR ''r'' then Some (CHR 0x0D)
      else if e = CHR ''t'' then Some (CHR 0x09) else None)"

text \<open>A string after its opening quote: what it stands for, and what follows its closing quote.\<close>

function read_string :: "string \<Rightarrow> string \<Rightarrow> (string \<times> string) option" where
  "read_string acc s =
     (case s of
        [] \<Rightarrow> None
      | c # r \<Rightarrow>
        if c = CHR 0x22 then Some (acc, r)
        else if c = CHR 0x5C then
          (case r of
             [] \<Rightarrow> None
           | e # r2 \<Rightarrow>
             if e = CHR ''u'' then
               (case unescape_u r2 of None \<Rightarrow> None | Some (x, n) \<Rightarrow> read_string (acc @ x) (drop n r2))
             else (case unescape e of None \<Rightarrow> None | Some x \<Rightarrow> read_string (acc @ [x]) r2))
        else if byte c < 0x20 then None
        else if utf8_len s = 0 then read_string (acc @ replacement) r
        else read_string (acc @ take (utf8_len s) s) (drop (utf8_len s) s))"
  by pat_completeness auto
termination
  by (relation "measure (\<lambda>(acc, s). length s)") auto

declare read_string.simps [simp del]

text \<open>A number: its text, and what follows it.\<close>

definition take_digits :: "string \<Rightarrow> string \<times> string" where
  "take_digits s = (takeWhile is_digit s, dropWhile is_digit s)"

definition read_int_part :: "string \<Rightarrow> (string \<times> string) option" where
  "read_int_part s =
     (case s of
        [] \<Rightarrow> None
      | c # r \<Rightarrow> if c = CHR ''0'' then Some ([c], r) else if is_digit c then Some (take_digits s) else None)"

definition read_fraction :: "string \<Rightarrow> (string \<times> string) option" where
  "read_fraction s =
     (if take 1 s = ''.'' then
        (let (ds, r) = take_digits (drop 1 s) in if ds = [] then None else Some (CHR ''.'' # ds, r))
      else Some ([], s))"

definition read_exponent :: "string \<Rightarrow> (string \<times> string) option" where
  "read_exponent s =
     (case s of
        [] \<Rightarrow> Some ([], s)
      | e # r \<Rightarrow>
        if e = CHR ''e'' \<or> e = CHR ''E'' then
          (let (sign, r2) = (case r of c # r' \<Rightarrow> if c = CHR ''+'' \<or> c = CHR ''-'' then ([c], r') else ([], r) | [] \<Rightarrow> ([], r));
               (ds, r3) = take_digits r2
           in if ds = [] then None else Some (e # sign @ ds, r3))
        else Some ([], s))"

definition read_number :: "string \<Rightarrow> (string \<times> string) option" where
  "read_number s =
     (let (sign, s1) = (case s of c # r \<Rightarrow> if c = CHR ''-'' then ([c], r) else ([], s) | [] \<Rightarrow> ([], s)) in
      case read_int_part s1 of
        None \<Rightarrow> None
      | Some (i, s2) \<Rightarrow>
        (case read_fraction s2 of
           None \<Rightarrow> None
         | Some (f, s3) \<Rightarrow>
           (case read_exponent s3 of None \<Rightarrow> None | Some (x, s4) \<Rightarrow> Some (sign @ i @ f @ x, s4))))"

text \<open>Values, the members of an object and the elements of an array.  Every call reads at least one
  byte before the next, so the length of the text is enough fuel.\<close>

fun json_value :: "nat \<Rightarrow> string \<Rightarrow> (json \<times> string) option"
  and json_members :: "nat \<Rightarrow> (string \<times> json) list \<Rightarrow> string \<Rightarrow> (json \<times> string) option"
  and json_elements :: "nat \<Rightarrow> json list \<Rightarrow> string \<Rightarrow> (json \<times> string) option" where
  "json_value 0 s = None"
| "json_value (Suc n) s =
     (case skip_ws s of
        [] \<Rightarrow> None
      | c # r \<Rightarrow>
        if c = CHR 0x22 then map_option (\<lambda>(x, r). (JStr x, r)) (read_string [] r)
        else if c = CHR ''{'' then
          (case expect (CHR ''}'') r of Some r2 \<Rightarrow> Some (JObj [], r2) | None \<Rightarrow> json_members n [] r)
        else if c = CHR ''['' then
          (case expect (CHR '']'') r of Some r2 \<Rightarrow> Some (JArr [], r2) | None \<Rightarrow> json_elements n [] r)
        else if HasPrefix (c # r) ''true'' then Some (JBool True, drop 4 (c # r))
        else if HasPrefix (c # r) ''false'' then Some (JBool False, drop 5 (c # r))
        else if HasPrefix (c # r) ''null'' then Some (JNull, drop 4 (c # r))
        else map_option (\<lambda>(x, r). (JNum x, r)) (read_number (c # r)))"
| "json_members 0 acc s = None"
| "json_members (Suc n) acc s =
     (case expect (CHR 0x22) s of
        None \<Rightarrow> None
      | Some r \<Rightarrow>
        (case read_string [] r of
           None \<Rightarrow> None
         | Some (k, r2) \<Rightarrow>
           (case expect (CHR '':'') r2 of
              None \<Rightarrow> None
            | Some r3 \<Rightarrow>
              (case json_value n r3 of
                 None \<Rightarrow> None
               | Some (v, r4) \<Rightarrow>
                 (case expect (CHR '','') r4 of
                    Some r5 \<Rightarrow> json_members n (acc @ [(k, v)]) r5
                  | None \<Rightarrow> map_option (\<lambda>r5. (JObj (acc @ [(k, v)]), r5)) (expect (CHR ''}'') r4))))))"
| "json_elements 0 acc s = None"
| "json_elements (Suc n) acc s =
     (case json_value n s of
        None \<Rightarrow> None
      | Some (v, r) \<Rightarrow>
        (case expect (CHR '','') r of
           Some r2 \<Rightarrow> json_elements n (acc @ [v]) r2
         | None \<Rightarrow> map_option (\<lambda>r2. (JArr (acc @ [v]), r2)) (expect (CHR '']'') r)))"

definition json_parse :: "string \<Rightarrow> json option" where
  "json_parse s =
     (case json_value (2 * length s + 1) s of
        Some (v, r) \<Rightarrow> if skip_ws r = [] then Some v else None
      | None \<Rightarrow> None)"

section \<open>Structures\<close>

text \<open>A key names a field if it is its name, up to letter case; U+017F and U+212A count as \<open>s\<close> and
  \<open>k\<close>.\<close>

fun json_fold :: "string \<Rightarrow> string" where
  "json_fold [] = []"
| "json_fold (c # cs) =
     (if c = CHR 0xC5 \<and> take 1 cs = [CHR 0xBF] then CHR ''s'' # json_fold (drop 1 cs)
      else if c = CHR 0xE2 \<and> take 2 cs = [CHR 0x84, CHR 0xAA] then CHR ''k'' # json_fold (drop 2 cs)
      else lower_byte c # json_fold cs)"

definition json_field :: "string list \<Rightarrow> string \<Rightarrow> string option" where
  "json_field names k =
     (if k \<in> set names then Some k else find (\<lambda>n. n = json_fold k) names)"

text \<open>Members are assigned in order; the assignment of a field may fail on the type of the value.\<close>

fun assign_members :: "string list \<Rightarrow> (string \<Rightarrow> json \<Rightarrow> 'a \<Rightarrow> 'a option) \<Rightarrow> (string \<times> json) list \<Rightarrow> 'a \<Rightarrow> 'a option" where
  "assign_members names set_field [] a = Some a"
| "assign_members names set_field ((k, v) # ms) a =
     (case json_field names k of
        None \<Rightarrow> assign_members names set_field ms a
      | Some f \<Rightarrow>
        if v = JNull then assign_members names set_field ms a
        else case set_field f v a of None \<Rightarrow> None | Some b \<Rightarrow> assign_members names set_field ms b)"

definition unmarshal :: "string list \<Rightarrow> (string \<Rightarrow> json \<Rightarrow> 'a \<Rightarrow> 'a option) \<Rightarrow> 'a \<Rightarrow> string \<Rightarrow> 'a option" where
  "unmarshal names set_field zero s =
     (case json_parse s of
        Some (JObj ms) \<Rightarrow> assign_members names set_field ms zero
      | Some JNull \<Rightarrow> Some zero
      | _ \<Rightarrow> None)"

fun json_int64 :: "json \<Rightarrow> int option" where
  "json_int64 (JNum n) = Atoi n"
| "json_int64 _ = None"

fun json_str :: "json \<Rightarrow> string option" where
  "json_str (JStr s) = Some s"
| "json_str _ = None"

fun json_bool :: "json \<Rightarrow> bool option" where
  "json_bool (JBool b) = Some b"
| "json_bool _ = None"

section \<open>A string survives printing and reading\<close>

lemma utf8_len_le: "utf8_len s \<le> length s"
  by (induction s rule: utf8_len.induct) (auto split: list.splits)

lemma utf8_len_append: "utf8_len s \<noteq> 0 \<Longrightarrow> utf8_len (take (utf8_len s) s @ t) = utf8_len s"
  by (induction s rule: utf8_len.induct) (auto split: list.splits if_splits)

lemma utf8_len_ascii [simp]: "byte c < 0x80 \<Longrightarrow> utf8_len (c # r) = 1"
  by simp

declare utf8_len.simps [simp del]
declare utf8_len.simps(1) [simp]

lemma byte_char_of [simp]: "n < 256 \<Longrightarrow> byte (char_of n) = n"
  by (simp add: byte_def)

lemma char_of_byte [simp]: "char_of (byte c) = c"
  by (simp add: byte_def)

lemma byte_eq: "byte c = byte d \<Longrightarrow> c = d"
  by (simp add: byte_def)

lemma bytes_of_escapes: "byte (CHR 0x08) = 8" "byte (CHR 0x09) = 9" "byte (CHR 0x0A) = 10"
  "byte (CHR 0x0C) = 12" "byte (CHR 0x0D) = 13"
  by (simp_all add: byte_def)

lemma hex_value_hex_char: "n < 16 \<Longrightarrow> hex_value (hex_char n) = Some n"
proof -
  assume "n < 16"
  then have "n \<in> set [0..<16]" by simp
  moreover have "list_all (\<lambda>n. hex_value (hex_char n) = Some n) [0..<16]" by code_simp
  ultimately show ?thesis by (simp only: list_all_iff)
qed

lemma read_string_quote: "read_string acc (CHR 0x22 # r) = Some (acc, r)"
  by (simp add: read_string.simps)

lemma read_string_copy:
  assumes "utf8_len s \<noteq> 0" "byte (hd s) \<ge> 0x20" "hd s \<noteq> CHR 0x22" "hd s \<noteq> CHR 0x5C"
  shows "read_string acc (take (utf8_len s) s @ t) = read_string (acc @ take (utf8_len s) s) t"
proof -
  obtain c r where s: "s = c # r" using assms(1) by (cases s) auto
  let ?x = "take (utf8_len s) s"
  obtain c' r' where x: "?x @ t = c # r'" using assms(1) s by (cases "utf8_len s") auto
  have len: "utf8_len (?x @ t) = utf8_len s" by (rule utf8_len_append [OF assms(1)])
  have "take (utf8_len s) (?x @ t) = ?x" "drop (utf8_len s) (?x @ t) = t"
    using utf8_len_le [of s] by simp_all
  with assms s x len show ?thesis
    by (simp add: x read_string.simps [of acc "c # r'"])
qed

lemma read_string_escape:
  assumes "byte c < 0x80" "\<not> safe_byte c"
  shows "read_string acc (escape_byte c @ t) = read_string (acc @ [c]) t"
proof (cases "c = CHR 0x22 \<or> c = CHR 0x5C \<or> byte c \<in> {8, 9, 10, 12, 13}")
  case True
  then have "c \<in> {CHR 0x22, CHR 0x5C, CHR 0x08, CHR 0x09, CHR 0x0A, CHR 0x0C, CHR 0x0D}"
    using byte_eq [of c "CHR 0x08"] byte_eq [of c "CHR 0x09"] byte_eq [of c "CHR 0x0A"]
      byte_eq [of c "CHR 0x0C"] byte_eq [of c "CHR 0x0D"]
    unfolding bytes_of_escapes by blast
  moreover have "escape_byte (CHR 0x22) = [CHR 0x5C, CHR 0x22]" "escape_byte (CHR 0x5C) = [CHR 0x5C, CHR 0x5C]"
    "escape_byte (CHR 0x08) = [CHR 0x5C, CHR ''b'']" "escape_byte (CHR 0x09) = [CHR 0x5C, CHR ''t'']"
    "escape_byte (CHR 0x0A) = [CHR 0x5C, CHR ''n'']" "escape_byte (CHR 0x0C) = [CHR 0x5C, CHR ''f'']"
    "escape_byte (CHR 0x0D) = [CHR 0x5C, CHR ''r'']" by code_simp+
  moreover have "read_string acc (CHR 0x5C # e # t) = read_string (acc @ [x]) t"
    if "unescape e = Some x" "e \<noteq> CHR ''u''" for e x
    using that by (simp add: read_string.simps [of acc "CHR 0x5C # _"])
  moreover have "unescape (CHR 0x22) = Some (CHR 0x22)" "unescape (CHR 0x5C) = Some (CHR 0x5C)"
    "unescape (CHR ''b'') = Some (CHR 0x08)" "unescape (CHR ''t'') = Some (CHR 0x09)"
    "unescape (CHR ''n'') = Some (CHR 0x0A)" "unescape (CHR ''f'') = Some (CHR 0x0C)"
    "unescape (CHR ''r'') = Some (CHR 0x0D)" by code_simp+
  ultimately show ?thesis by auto
next
  case False
  let ?n = "byte c"
  have h: "hex_value (hex_char (?n div 16)) = Some (?n div 16)" "hex_value (hex_char (?n mod 16)) = Some (?n mod 16)"
    using assms(1) by (simp_all add: hex_value_hex_char)
  have h0: "hex_value (CHR ''0'') = Some 0" by code_simp
  have "hex4 (''00'' @ hex_char (?n div 16) # hex_char (?n mod 16) # t) = Some ?n"
    using h h0 by simp
  then have "unescape_u (''00'' @ hex_char (?n div 16) # hex_char (?n mod 16) # t) = Some ([c], 4)"
    using assms(1) by (simp add: unescape_u_def encode_rune_def)
  then show ?thesis
    using False by (simp add: escape_byte_def read_string.simps [of acc "CHR 0x5C # _"])
qed

lemma read_json_chars:
  "valid_utf8 s \<Longrightarrow> read_string acc (json_chars s @ CHR 0x22 # r) = Some (acc @ s, r)"
proof (induction s arbitrary: acc rule: valid_utf8.induct)
  case (1 s)
  show ?case
  proof (cases s)
    case Nil
    then show ?thesis by (simp add: json_chars.simps read_string_quote)
  next
    case (Cons c cs)
    have len: "utf8_len s \<noteq> 0" and rest: "valid_utf8 (drop (utf8_len s) s)"
      using "1.prems" Cons valid_utf8.simps [of s] by (auto split: if_splits)
    have IH: "read_string acc (json_chars (drop (utf8_len s) s) @ CHR 0x22 # r) = Some (acc @ drop (utf8_len s) s, r)"
      for acc using "1.IH" [OF _ len rest] Cons by simp
    show ?thesis
    proof (cases "byte c < 0x80")
      case True
      then have n: "utf8_len s = 1" using Cons by simp
      show ?thesis
      proof (cases "safe_byte c")
        case safe: True
        then have "read_string acc (take (utf8_len s) s @ json_chars cs @ CHR 0x22 # r) =
            read_string (acc @ take (utf8_len s) s) (json_chars cs @ CHR 0x22 # r)"
          using Cons by (intro read_string_copy [OF len]) (simp_all add: safe_byte_def)
        with IH n True safe Cons show ?thesis by (simp add: json_chars.simps [of "c # cs"])
      next
        case False
        from read_string_escape [OF True False, of acc "json_chars cs @ CHR 0x22 # r"] IH n True False Cons
        show ?thesis by (simp add: json_chars.simps [of "c # cs"])
      qed
    next
      case False
      let ?e = "take (utf8_len s) s" and ?t = "json_chars (drop (utf8_len s) s) @ CHR 0x22 # r"
      have "read_string acc (escape_seq ?e @ ?t) = read_string (acc @ ?e) ?t"
      proof (cases "?e \<in> {[CHR 0xE2, CHR 0x80, CHR 0xA8], [CHR 0xE2, CHR 0x80, CHR 0xA9]}")
        case True
        have "hex4 (''2028'' @ t) = Some 0x2028" "hex4 (''2029'' @ t) = Some 0x2029" for t
          by (simp_all add: hex_value_def is_digit_def digit_value_def)
        moreover have "encode_rune 0x2028 = [CHR 0xE2, CHR 0x80, CHR 0xA8]"
          "encode_rune 0x2029 = [CHR 0xE2, CHR 0x80, CHR 0xA9]" by code_simp+
        ultimately show ?thesis
          using True by (auto simp: escape_seq_def read_string.simps [of acc "CHR 0x5C # _"] unescape_u_def)
      next
        case noesc: False
        have "escape_seq ?e = ?e" using noesc by (simp add: escape_seq_def)
        moreover have "hd s \<noteq> CHR 0x22" "hd s \<noteq> CHR 0x5C" "byte (hd s) \<ge> 0x20"
          using False Cons by (auto simp: byte_def)
        ultimately show ?thesis by (simp add: read_string_copy [OF len])
      qed
      with IH [of "acc @ ?e"] False len Cons show ?thesis
        by (simp add: json_chars.simps [of "c # cs"])
    qed
  qed
qed

lemma read_json_string:
  "valid_utf8 s \<Longrightarrow> read_string [] (json_chars s @ CHR 0x22 # r) = Some (s, r)"
  using read_json_chars [of s "[]" r] by simp

section \<open>A flat object survives printing and parsing\<close>

definition simple_json :: "json \<Rightarrow> bool" where
  "simple_json v = (case v of JStr s \<Rightarrow> valid_utf8 s | JNum n \<Rightarrow> \<exists>i. n = Itoa i | JBool b \<Rightarrow> True | _ \<Rightarrow> False)"

lemma skip_ws_other: "c \<notin> {CHR 0x20, CHR 0x09, CHR 0x0A, CHR 0x0D} \<Longrightarrow> skip_ws (c # r) = c # r"
  by (simp add: skip_ws_def)

lemma expect_hit: "x \<notin> {CHR 0x20, CHR 0x09, CHR 0x0A, CHR 0x0D} \<Longrightarrow> expect x (x # r) = Some r"
  by (simp add: expect_def skip_ws_other)

lemma expect_miss: "y \<notin> {CHR 0x20, CHR 0x09, CHR 0x0A, CHR 0x0D} \<Longrightarrow> x \<noteq> y \<Longrightarrow> expect x (y # r) = None"
  by (simp add: expect_def skip_ws_other)

lemma hd_show_nat_zero: "0 < n \<Longrightarrow> hd (show_nat n) \<noteq> CHR ''0''"
proof (induction n rule: show_nat.induct)
  case (1 n)
  show ?case
  proof (cases "n < 10")
    case True
    have z: "digit_value (CHR ''0'') = 0" by code_simp
    have "digit_char n \<noteq> CHR ''0''"
    proof
      assume "digit_char n = CHR ''0''"
      then have "n = 0" using digit_value_digit_char [OF True] z by simp
      with "1.prems" show False by simp
    qed
    then show ?thesis using True by (simp add: show_nat.simps [of n])
  next
    case False
    with 1 show ?thesis by (simp add: show_nat.simps [of n])
  qed
qed

lemma show_nat_0: "show_nat 0 = ''0''"
  by code_simp

definition ends_number :: "char \<Rightarrow> bool" where
  "ends_number x \<longleftrightarrow> \<not> is_digit x \<and> x \<noteq> CHR ''.'' \<and> x \<noteq> CHR ''e'' \<and> x \<noteq> CHR ''E''"

lemma take_digits_append:
  "list_all is_digit ds \<Longrightarrow> ends_number x \<Longrightarrow> take_digits (ds @ x # r) = (ds, x # r)"
  by (induction ds) (auto simp: take_digits_def ends_number_def)

lemma read_int_part_show_nat:
  assumes "ends_number x"
  shows "read_int_part (show_nat n @ x # r) = Some (show_nat n, x # r)"
proof (cases "n = 0")
  case True
  then show ?thesis by (simp add: read_int_part_def show_nat_0)
next
  case False
  obtain c cs where c: "show_nat n = c # cs" using show_nat_not_Nil [of n] by (cases "show_nat n") auto
  with False show ?thesis
    using take_digits_append [OF show_nat_digits assms, of n r] hd_show_nat_zero [of n] hd_show_nat_digit [of n]
    by (simp add: read_int_part_def)
qed

lemma read_number_Itoa:
  assumes "ends_number x"
  shows "read_number (Itoa i @ x # r) = Some (Itoa i, x # r)"
proof -
  have rest: "read_fraction (x # r) = Some ([], x # r)" "read_exponent (x # r) = Some ([], x # r)"
    using assms by (simp_all add: read_fraction_def read_exponent_def ends_number_def)
  show ?thesis
  proof (cases "i < 0")
    case True
    then show ?thesis
      using rest read_int_part_show_nat [OF assms, of "nat (- i)" r]
      by (simp add: Itoa_def read_number_def)
  next
    case False
    obtain c cs where c: "show_nat (nat i) = c # cs" using show_nat_not_Nil by (cases "show_nat (nat i)") auto
    moreover have "c \<noteq> CHR ''-''" using hd_show_nat_digit [of "nat i"] sign_not_digit c by auto
    ultimately show ?thesis
      using False rest read_int_part_show_nat [OF assms, of "nat i" r]
      by (simp add: Itoa_def read_number_def)
  qed
qed

lemma Itoa_hd: obtains c cs where "Itoa i = c # cs" "is_digit c \<or> c = CHR ''-''"
proof (cases "i < 0")
  case True
  then show thesis by (intro that [of "CHR ''-''"]) (simp_all add: Itoa_def)
next
  case False
  have "show_nat (nat i) = hd (show_nat (nat i)) # tl (show_nat (nat i))" by simp
  with False show thesis
    using hd_show_nat_digit [of "nat i"] by (intro that [of "hd (show_nat (nat i))" "tl (show_nat (nat i))"]) (simp_all add: Itoa_def)
qed

lemma digit_not_special:
  "is_digit c \<or> c = CHR ''-'' \<Longrightarrow> c \<notin> {CHR 0x20, CHR 0x09, CHR 0x0A, CHR 0x0D} \<and>
    c \<noteq> CHR 0x22 \<and> c \<noteq> CHR ''{'' \<and> c \<noteq> CHR ''['' \<and> c \<noteq> CHR ''t'' \<and> c \<noteq> CHR ''f'' \<and> c \<noteq> CHR ''n''"
  by (auto simp: is_digit_def)

lemma json_value_simple:
  assumes "simple_json v" "ends_number x"
  shows "json_value (Suc n) (json_print v @ x # r) = Some (v, x # r)"
proof (cases v)
  case (JStr s)
  have "skip_ws (CHR 0x22 # t) = CHR 0x22 # t" for t by (rule skip_ws_other) simp
  with JStr assms show ?thesis
    by (simp add: simple_json_def json_string_def read_json_string)
next
  case (JNum t)
  then obtain i where t: "t = Itoa i" using assms(1) by (auto simp: simple_json_def)
  obtain c cs where c: "Itoa i = c # cs" "is_digit c \<or> c = CHR ''-''" by (rule Itoa_hd)
  note sp = digit_not_special [OF c(2)]
  have "read_number (c # cs @ x # r) = Some (c # cs, x # r)"
    using read_number_Itoa [OF assms(2), of i r] c(1) by simp
  moreover have "skip_ws (c # cs @ x # r) = c # cs @ x # r" using sp by (intro skip_ws_other) simp
  ultimately show ?thesis using JNum t c(1) sp by (simp add: HasPrefix_def)
next
  case (JBool b)
  have "skip_ws (CHR ''t'' # t) = CHR ''t'' # t" "skip_ws (CHR ''f'' # t) = CHR ''f'' # t" for t
    by (rule skip_ws_other, simp)+
  with JBool show ?thesis by (cases b) (simp_all add: FormatBool_def HasPrefix_def)
qed (use assms(1) in \<open>simp_all add: simple_json_def\<close>)

definition json_member :: "string \<times> json \<Rightarrow> string" where
  "json_member = (\<lambda>(k, v). json_string k @ '':'' @ json_print v)"

definition flat_members :: "(string \<times> json) list \<Rightarrow> bool" where
  "flat_members ms \<longleftrightarrow> list_all (\<lambda>(k, v). valid_utf8 k \<and> simple_json v) ms"

lemma ends_number_seps: "ends_number (CHR '','')" "ends_number (CHR ''}'')"
  by code_simp+

lemma json_members_flat:
  "flat_members ms \<Longrightarrow> ms \<noteq> [] \<Longrightarrow> length ms < n \<Longrightarrow>
    json_members n acc (Join (map json_member ms) '','' @ CHR ''}'' # r) = Some (JObj (acc @ ms), r)"
proof (induction ms arbitrary: n acc)
  case Nil
  then show ?case by simp
next
  case (Cons m ms)
  obtain k v where m: "m = (k, v)" by (cases m)
  obtain n' where n: "n = Suc (Suc n')" using Cons.prems(3) by (cases n; cases "n - 1") auto
  have kv: "valid_utf8 k" "simple_json v" "flat_members ms" using Cons.prems(1) m by (simp_all add: flat_members_def)
  have str: "read_string [] (json_chars k @ CHR 0x22 # t) = Some (k, t)" for t
    by (rule read_json_string [OF kv(1)])
  have hits: "expect (CHR 0x22) (CHR 0x22 # t) = Some t" "expect (CHR '':'') (CHR '':'' # t) = Some t"
    "expect (CHR '','') (CHR '','' # t) = Some t" "expect (CHR ''}'') (CHR ''}'' # t) = Some t"
    "expect (CHR '','') (CHR ''}'' # t) = None" for t
    by (simp_all add: expect_hit expect_miss)
  note val = json_value_simple [OF kv(2) ends_number_seps(1)] json_value_simple [OF kv(2) ends_number_seps(2)]
  show ?case
  proof (cases ms)
    case Nil
    then show ?thesis using n m str hits val by (simp add: json_member_def json_string_def)
  next
    case (Cons m' ms')
    then have J: "Join (map json_member (m # ms)) '','' = json_member m @ CHR '','' # Join (map json_member ms) '',''"
      by simp
    have "length ms < Suc n'" using Cons.prems(3) n by simp
    with Cons.IH [OF kv(3), of "Suc n'" "acc @ [m]"] Cons have
      IH: "json_members (Suc n') (acc @ [m]) (Join (map json_member ms) '','' @ CHR ''}'' # r) = Some (JObj (acc @ m # ms), r)"
      by simp
    show ?thesis
      unfolding J n using IH m str hits val by (simp add: json_member_def json_string_def del: json_members.simps(1) json_value.simps)
  qed
qed

lemma Join_members_hd:
  "json_member (k, v) = CHR 0x22 # t \<Longrightarrow> \<exists>t'. Join (map json_member ((k, v) # ms)) '','' = CHR 0x22 # t'"
  by (cases ms) simp_all

lemma length_Join_members: "length ms \<le> length (Join (map json_member ms) '','')"
proof (induction ms)
  case (Cons m ms)
  then show ?case by (cases ms) (auto simp: json_member_def json_string_def split: prod.splits)
qed simp

lemma json_parse_print:
  assumes "flat_members ms"
  shows "json_parse (json_print (JObj ms)) = Some (JObj ms)"
proof -
  let ?body = "Join (map json_member ms) '',''"
  have pr: "json_print (JObj ms) = CHR ''{'' # ?body @ ''}''"
    by (simp add: json_member_def [abs_def])
  have ws: "skip_ws (CHR ''{'' # t) = CHR ''{'' # t" for t by (rule skip_ws_other) simp
  have "json_value (Suc n) (CHR ''{'' # ?body @ ''}'') = Some (JObj ms, [])" if "length ms < n" for n
  proof (cases "ms = []")
    case True
    then show ?thesis using ws by (simp add: expect_hit)
  next
    case False
    then obtain m ms' where ms: "ms = m # ms'" by (cases ms) auto
    obtain k v where m: "m = (k, v)" by (cases m)
    have "json_member (k, v) = CHR 0x22 # tl (json_member (k, v))"
      by (simp add: json_member_def json_string_def)
    from Join_members_hd [OF this, of ms'] obtain t where t: "?body = CHR 0x22 # t"
      unfolding ms m by blast
    have "expect (CHR ''}'') (?body @ ''}'') = None" unfolding t by (simp add: expect_miss)
    with json_members_flat [OF assms False that, of "[]" "[]"] ws show ?thesis by simp
  qed
  from this [of "2 * length (CHR ''{'' # ?body @ ''}'')"] length_Join_members [of ms]
  show ?thesis unfolding pr by (simp add: json_parse_def skip_ws_def)
qed

end
