(* ===== verification/GoTimeFormat.thy ===== *)
theory GoTimeFormat
  imports GoTime GoErrors "HOL-Library.Monad_Syntax"
begin

text \<open>
  \<open>time.Parse(time.RFC3339Nano, s)\<close>, and that it reads back what \<open>Format\<close> prints of a time in UTC
  between the years 0 and 9999: the calendar computation is inverted, and the text is parsed field by
  field.
\<close>

section \<open>The calendar\<close>

definition march_start :: "int \<Rightarrow> int" where
  "march_start yoe = 365 * yoe + yoe div 4 - yoe div 100"

definition day_number :: "int \<Rightarrow> int \<Rightarrow> int \<Rightarrow> int" where
  "day_number y m d =
     (let y' = (if m \<le> 2 then y - 1 else y); mp = (if m \<le> 2 then m + 9 else m - 3)
      in y' div 400 * 146097 + march_start (y' mod 400) + (153 * mp + 2) div 5 + d - 1 - 306)"

definition leap_year :: "int \<Rightarrow> bool" where
  "leap_year y \<longleftrightarrow> y mod 4 = 0 \<and> (y mod 100 \<noteq> 0 \<or> y mod 400 = 0)"

definition days_in :: "int \<Rightarrow> int \<Rightarrow> int" where
  "days_in m y =
     (if m = 2 then if leap_year y then 29 else 28
      else if m \<in> {4, 6, 9, 11} then 30 else 31)"

lemma short_cycles_4:
  assumes "0 < len" "0 \<le> d" "d \<le> 4 * len"
  shows "0 \<le> short_cycles len d" "short_cycles len d \<le> 3" "0 \<le> d - len * short_cycles len d"
    "d - len * short_cycles len d \<le> len"
    "d - len * short_cycles len d = len \<Longrightarrow> short_cycles len d = 3"
proof -
  have d: "len * (d div len) \<le> d" "d < len * (d div len) + len"
    using mult_div_mod_eq [of len d] pos_mod_bound [OF assms(1), of d] pos_mod_sign [OF assms(1), of d]
    by linarith+
  have "0 \<le> d div len" using assms by (simp add: pos_imp_zdiv_nonneg_iff)
  moreover have "d div len \<le> 4"
    using zdiv_mono1 [OF assms(3,1)] assms(1) by simp
  ultimately consider "d div len \<le> 3" "0 \<le> d div len" | "d div len = 4" by linarith
  then have "0 \<le> short_cycles len d \<and> short_cycles len d \<le> 3 \<and> 0 \<le> d - len * short_cycles len d \<and>
      d - len * short_cycles len d \<le> len \<and> (d - len * short_cycles len d = len \<longrightarrow> short_cycles len d = 3)"
  proof cases
    case 1
    then have "short_cycles len d = d div len" by (simp add: short_cycles_def)
    with 1 d show ?thesis by (auto simp: algebra_simps)
  next
    case 2
    then have "short_cycles len d = 3" by (simp add: short_cycles_def)
    moreover have "len * (d div len) = 4 * len" using 2 by simp
    ultimately show ?thesis using 2 d assms by simp
  qed
  then show "0 \<le> short_cycles len d" "short_cycles len d \<le> 3" "0 \<le> d - len * short_cycles len d"
    "d - len * short_cycles len d \<le> len"
    "d - len * short_cycles len d = len \<Longrightarrow> short_cycles len d = 3" by blast+
qed

lemma year_of_era:
  assumes "year_of_era doe = (yoe, doy)" "0 \<le> doe" "doe < 146097"
  shows "doe = march_start yoe + doy" "0 \<le> yoe" "yoe \<le> 399" "0 \<le> doy" "doy \<le> 365"
    "doy = 365 \<Longrightarrow> leap_year (yoe + 1)"
proof -
  define c where "c = short_cycles 36524 doe"
  define r1 where "r1 = doe - 36524 * c"
  define q where "q = r1 div 1461"
  define r2 where "r2 = r1 - 1461 * q"
  define e where "e = short_cycles 365 r2"
  have c: "0 \<le> c" "c \<le> 3" "0 \<le> r1" "r1 \<le> 36524" "r1 = 36524 \<Longrightarrow> c = 3"
    using short_cycles_4 [of 36524 doe] assms(2,3) by (simp_all add: c_def r1_def)
  have q: "0 \<le> q" "q \<le> 24" "0 \<le> r2" "r2 \<le> 1460"
    using c(3,4) by (simp_all add: q_def r2_def minus_mult_div_eq_mod) 
  have r2: "r2 = 1460 \<Longrightarrow> q = 24 \<Longrightarrow> c = 3" using c(5) by (simp add: r2_def)
  have e: "0 \<le> e" "e \<le> 3" "0 \<le> r2 - 365 * e" "r2 - 365 * e \<le> 365" "r2 - 365 * e = 365 \<Longrightarrow> e = 3"
    using short_cycles_4 [of 365 r2] q(3,4) by (simp_all add: e_def)
  have y: "yoe = 100 * c + 4 * q + e" "doy = r2 - 365 * e"
    using assms(1) by (simp_all add: year_of_era_def Let_def c_def r1_def q_def r2_def e_def)
  have "yoe div 100 = c" "yoe div 4 = 25 * c + q"
    using y(1) q e by (simp_all add: div_pos_geq) 
  then show "doe = march_start yoe + doy"
    using y by (simp add: march_start_def r1_def r2_def)
  show "0 \<le> yoe" "yoe \<le> 399" "0 \<le> doy" "doy \<le> 365" using y c q e by linarith+
  show "leap_year (yoe + 1)" if "doy = 365"
  proof -
    have "e = 3" using e(5) y(2) that by simp
    then have y1: "yoe + 1 = 100 * c + 4 * (q + 1)" and "r2 = 1460" using y that by simp_all
    then have "q = 24 \<Longrightarrow> c = 3" using r2 by simp
    have "(yoe + 1) mod 100 = 4 * (q + 1) mod 100" unfolding y1 by simp
    moreover have "yoe + 1 = 4 * (25 * c + q + 1)" using y1 by simp
    then have "(yoe + 1) mod 4 = 0" by (simp only: mod_mult_self1_is_0)
    moreover have "4 * (q + 1) mod 100 = 4 * (q + 1)" if "q < 24"
      using that q by (intro mod_pos_pos_trivial) simp_all
    moreover have "q = 24 \<Longrightarrow> (yoe + 1) mod 400 = 0" using y1 \<open>q = 24 \<Longrightarrow> c = 3\<close> by simp
    ultimately show ?thesis
      using q by (cases "q = 24") (simp_all add: leap_year_def)
  qed
qed


text \<open>The month and the day of a day of the year that starts in March.\<close>

lemma march_month:
  fixes doy :: int
  assumes "0 \<le> doy" "doy \<le> 365"
  defines "mp \<equiv> (5 * doy + 2) div 153"
  shows "0 \<le> mp" "mp \<le> 11" "1 \<le> doy - (153 * mp + 2) div 5 + 1"
    "mp \<in> {0, 2, 4, 5, 7, 9, 10} \<Longrightarrow> doy - (153 * mp + 2) div 5 + 1 \<le> 31"
    "mp \<in> {1, 3, 6, 8} \<Longrightarrow> doy - (153 * mp + 2) div 5 + 1 \<le> 30"
    "mp = 11 \<Longrightarrow> doy - (153 * mp + 2) div 5 + 1 \<le> (if doy = 365 then 29 else 28)"
proof -
  have m: "153 * mp \<le> 5 * doy + 2" "5 * doy + 2 < 153 * mp + 153"
    unfolding mp_def using mult_div_mod_eq [of 153 "5 * doy + 2"]
      pos_mod_bound [of 153 "5 * doy + 2"] pos_mod_sign [of 153 "5 * doy + 2"] by linarith+
  then show "0 \<le> mp" "mp \<le> 11" using assms(1,2) by linarith+
  have "5 * ((153 * mp + 2) div 5) \<le> 153 * mp + 2" using div_mult_mod_eq [of "153 * mp + 2" 5] by simp
  with m(1) have "5 * ((153 * mp + 2) div 5) \<le> 5 * doy + 4" by linarith
  then show "1 \<le> doy - (153 * mp + 2) div 5 + 1" by arith
  show "mp \<in> {0, 2, 4, 5, 7, 9, 10} \<Longrightarrow> doy - (153 * mp + 2) div 5 + 1 \<le> 31"
    "mp \<in> {1, 3, 6, 8} \<Longrightarrow> doy - (153 * mp + 2) div 5 + 1 \<le> 30"
    "mp = 11 \<Longrightarrow> doy - (153 * mp + 2) div 5 + 1 \<le> (if doy = 365 then 29 else 28)"
    using m assms(2) by auto
qed

lemma civil_date_valid:
  assumes "civil_date days = (y, m, d)"
  shows "day_number y m d = days" "1 \<le> m" "m \<le> 12" "1 \<le> d" "d \<le> days_in m y"
proof -
  let ?z = "days + 306"
  obtain yoe doy where yd: "year_of_era (?z mod 146097) = (yoe, doy)" by (cases "year_of_era (?z mod 146097)")
  define era where "era = ?z div 146097"
  define mp where "mp = (5 * doy + 2) div 153"
  note Y = year_of_era [OF yd]
  have doe: "0 \<le> ?z mod 146097" "?z mod 146097 < 146097" by simp_all
  note Y = Y [OF doe]
  note M = march_month [OF Y(4,5), folded mp_def]
  define m' where "m' = (if mp < 10 then mp + 3 else mp - 9)"
  have dt: "(yoe + era * 400 + (if m' \<le> 2 then 1 else 0), m', doy - (153 * mp + 2) div 5 + 1) = (y, m, d)"
    using assms unfolding civil_date_def Let_def yd m'_def mp_def era_def prod.case .
  have eq: "m = (if mp < 10 then mp + 3 else mp - 9)" "d = doy - (153 * mp + 2) div 5 + 1"
    "y = yoe + era * 400 + (if m \<le> 2 then 1 else 0)"
    using dt by (auto simp: m'_def [symmetric])
  show m: "1 \<le> m" "m \<le> 12" using eq M(1,2) by auto
  show "1 \<le> d" using eq M(3) by simp
  have mp: "mp = (if m \<le> 2 then m + 9 else m - 3)" using eq(1) M(1,2) by auto
  have y: "(if m \<le> 2 then y - 1 else y) = era * 400 + yoe" using eq(3) by simp
  have "(era * 400 + yoe) div 400 = era" "(era * 400 + yoe) mod 400 = yoe" using Y(2,3) by simp_all
  then have "day_number y m d = era * 146097 + march_start yoe + doy - 306"
    using eq(2) unfolding day_number_def Let_def y mp [symmetric] by simp
  with Y(1) show "day_number y m d = days"
    using mult_div_mod_eq [of 146097 ?z] by (simp add: era_def)
  show "d \<le> days_in m y"
  proof (cases "m = 2")
    case True
    then have mp11: "mp = 11" and y': "y = era * 400 + (yoe + 1)" using eq(3) mp by simp_all
    have e4: "era * 400 = 4 * (100 * era)" and e100: "era * 400 = 100 * (4 * era)"
      and e400: "era * 400 = 400 * era" by simp_all
    have "(era * 400 + x) mod 4 = x mod 4" for x unfolding e4 by (rule mod_mult_self4)
    moreover have "(era * 400 + x) mod 100 = x mod 100" for x unfolding e100 by (rule mod_mult_self4)
    moreover have "(era * 400 + x) mod 400 = x mod 400" for x unfolding e400 by (rule mod_mult_self4)
    ultimately have "leap_year y = leap_year (yoe + 1)" unfolding y' leap_year_def by (simp only:)
    then show ?thesis using M(6) [OF mp11] True eq(2) Y(6) by (auto simp: days_in_def split: if_splits)
  next
    case False
    have "mp \<in> {0, 2, 4, 5, 7, 9, 10} \<or> mp \<in> {1, 3, 6, 8}"
      using mp m False by (simp split: if_splits) arith+
    then show ?thesis
    proof
      assume long: "mp \<in> {0, 2, 4, 5, 7, 9, 10}"
      then have "m \<notin> {4, 6, 9, 11}" using mp by (auto split: if_splits)
      then have "days_in m y = 31" using False by (simp add: days_in_def)
      with M(4) [OF long] eq(2) show ?thesis by (simp only:)
    next
      assume short: "mp \<in> {1, 3, 6, 8}"
      have "30 \<le> days_in m y" using False by (simp add: days_in_def)
      with M(5) [OF short] eq(2) show ?thesis by linarith
    qed
  qed
qed


section \<open>Parsing\<close>

fun getnum :: "bool \<Rightarrow> string \<Rightarrow> (int \<times> string) option" where
  "getnum fixed (a # b # r) =
     (if \<not> is_digit a then None
      else if is_digit b then Some (int (10 * digit_value a + digit_value b), r)
      else if fixed then None else Some (int (digit_value a), b # r))"
| "getnum fixed [a] = (if is_digit a \<and> \<not> fixed then Some (int (digit_value a), []) else None)"
| "getnum fixed [] = None"

definition read_year :: "string \<Rightarrow> (int \<times> string) option" where
  "read_year s =
     (if 4 \<le> length s \<and> list_all is_digit (take 4 s) then Some (int (digits_value (take 4 s)), drop 4 s)
      else None)"

definition skip_byte :: "char \<Rightarrow> string \<Rightarrow> string option" where
  "skip_byte c s = (case s of [] \<Rightarrow> None | x # r \<Rightarrow> if x = c then Some r else None)"

definition in_range :: "int \<Rightarrow> int \<Rightarrow> int \<times> string \<Rightarrow> (int \<times> string) option" where
  "in_range lo hi x = (if lo \<le> fst x \<and> fst x \<le> hi then Some x else None)"

text \<open>A fraction of any length may follow the seconds; nine of its digits count.\<close>

definition nanos :: "string \<Rightarrow> int" where
  "nanos ds = int (digits_value (take 9 ds)) * 10 ^ (9 - length (take 9 ds))"

definition read_nanos :: "string \<Rightarrow> int \<times> string" where
  "read_nanos s =
     (case s of
        c # d # r \<Rightarrow>
          if (c = CHR ''.'' \<or> c = CHR '','') \<and> is_digit d
          then (nanos (takeWhile is_digit (d # r)), dropWhile is_digit (d # r)) else (0, s)
      | _ \<Rightarrow> (0, s))"

text \<open>A zone: \<open>Z\<close>, or a sign, hours and minutes.\<close>

definition read_zone :: "string \<Rightarrow> (int \<times> string) option" where
  "read_zone s =
     (if take 1 s = ''Z'' then Some (0, drop 1 s)
      else if length s < 6 \<or> s ! 3 \<noteq> CHR '':'' then None
      else do {
        (hh, _) \<leftarrow> getnum True (take 2 (drop 1 s)) \<bind> in_range 0 24;
        (mm, _) \<leftarrow> getnum True (take 2 (drop 4 s)) \<bind> in_range 0 60;
        let off = (hh * 60 + mm) * 60;
        if s ! 0 = CHR ''+'' then Some (off, drop 6 s)
        else if s ! 0 = CHR ''-'' then Some (- off, drop 6 s) else None
      })"

definition time_Parse :: "string \<Rightarrow> gotime option" where
  "time_Parse s = do {
     (y, s) \<leftarrow> read_year s;
     s \<leftarrow> skip_byte (CHR ''-'') s;
     (m, s) \<leftarrow> getnum True s \<bind> in_range 1 12;
     s \<leftarrow> skip_byte (CHR ''-'') s;
     (d, s) \<leftarrow> getnum True s;
     s \<leftarrow> skip_byte (CHR ''T'') s;
     (hour, s) \<leftarrow> getnum False s \<bind> in_range 0 23;
     s \<leftarrow> skip_byte (CHR '':'') s;
     (mins, s) \<leftarrow> getnum True s \<bind> in_range 0 59;
     s \<leftarrow> skip_byte (CHR '':'') s;
     (secs, s) \<leftarrow> getnum True s \<bind> in_range 0 59;
     let (ns, s) = read_nanos s;
     (off, s) \<leftarrow> read_zone s;
     if s = [] \<and> 1 \<le> d \<and> d \<le> days_in m y
     then Some \<lparr>t_ns = (day_number y m d * 86400 + hour * 3600 + mins * 60 + secs - off) * 1000000000 + ns,
                t_offset = off\<rparr>
     else None
   }"

section \<open>Reading back what was printed\<close>

lemma length_show_nat: "k < 10 ^ n \<Longrightarrow> 0 < n \<Longrightarrow> length (show_nat k) \<le> n"
proof (induction n arbitrary: k)
  case (Suc n)
  show ?case
  proof (cases "k < 10")
    case True
    then show ?thesis by (simp add: show_nat.simps [of k])
  next
    case False
    then have n: "0 < n" using Suc.prems by (cases n) auto
    have "k div 10 < 10 ^ n" using Suc.prems(1) by (simp add: less_mult_imp_div_less)
    from Suc.IH [OF this n] False show ?thesis by (simp add: show_nat.simps [of k])
  qed
qed simp

lemma digits_value_zeros: "digits_value (replicate n (CHR ''0'') @ ds) = digits_value ds"
proof -
  have z: "digit_value (CHR ''0'') = 0" by code_simp
  have "digits_value (replicate n (CHR ''0'')) = 0"
    by (induction n) (simp_all add: digits_value_def z)
  then show ?thesis by (simp add: digits_value_def)
qed

declare pad_left.simps [simp del]

lemma all_digits_zeros: "list_all is_digit ds \<Longrightarrow> list_all is_digit (replicate n (CHR ''0'') @ ds)"
proof -
  assume "list_all is_digit ds"
  moreover have "is_digit (CHR ''0'')" by code_simp
  then have "list_all is_digit (replicate n (CHR ''0''))" by (induction n) simp_all
  ultimately show ?thesis by simp
qed

lemma pad_left_props:
  assumes "k < 10 ^ n" "0 < n"
  shows "length (pad_left n (show_nat k)) = n" "list_all is_digit (pad_left n (show_nat k))"
    "digits_value (pad_left n (show_nat k)) = k"
  using length_show_nat [OF assms] all_digits_zeros [OF show_nat_digits]
  by (simp_all add: pad_left.simps digits_value_zeros)

lemma list_of_2: "length xs = 2 \<Longrightarrow> \<exists>a b. xs = [a, b]"
  by (auto simp: length_Suc_conv numeral_2_eq_2)

lemma getnum_pad_int:
  assumes "0 \<le> i" "i < 100"
  shows "getnum fixed (pad_int 2 i @ r) = Some (i, r)"
proof -
  have "nat i < 10 ^ 2" using assms by simp
  note P = pad_left_props [OF this]
  obtain a b where ab: "pad_int 2 i = [a, b]"
    using list_of_2 [of "pad_int 2 i"] P(1) by (auto simp: pad_int_def)
  have "is_digit a" "is_digit b" "10 * digit_value a + digit_value b = nat i"
    using P(2,3) ab by (simp_all add: pad_int_def digits_value_def)
  then show ?thesis using assms(1) by (simp add: ab)
qed

lemma read_year_pad_int:
  assumes "0 \<le> y" "y \<le> 9999"
  shows "read_year (pad_int 4 y @ r) = Some (y, r)"
proof -
  have "nat y < 10 ^ 4" using assms by simp
  note P = pad_left_props [OF this]
  with assms(1) show ?thesis by (simp add: read_year_def pad_int_def)
qed

lemma TrimRightByte_zeros:
  obtains k where "ds = TrimRightByte (CHR ''0'') ds @ replicate k (CHR ''0'')"
proof -
  let ?P = "\<lambda>x. x = CHR ''0''"
  let ?t = "takeWhile ?P (rev ds)"
  have "ds = rev (dropWhile ?P (rev ds)) @ rev ?t"
    using takeWhile_dropWhile_id [of ?P "rev ds"] by (metis rev_append rev_rev_ident)
  moreover have "?t = replicate (length ?t) (CHR ''0'')"
    using set_takeWhileD [of _ ?P "rev ds"] by (intro replicate_eqI) simp_all
  then have "rev ?t = replicate (length ?t) (CHR ''0'')" by (metis rev_replicate)
  ultimately have "ds = TrimRightByte (CHR ''0'') ds @ replicate (length ?t) (CHR ''0'')"
    unfolding TrimRightByte_def by simp
  then show thesis by (rule that)
qed

lemma digits_value_trailing: "digits_value (ds @ replicate k (CHR ''0'')) = digits_value ds * 10 ^ k"
proof -
  have z: "digit_value (CHR ''0'') = 0" by code_simp
  show ?thesis
  proof (induction k)
    case (Suc k)
    have "ds @ replicate (Suc k) (CHR ''0'') = (ds @ replicate k (CHR ''0'')) @ [CHR ''0'']"
      by (simp add: replicate_append_same)
    then show ?case using Suc by (simp only: digits_value_append z) simp
  qed simp
qed

lemma takeWhile_digits: "list_all is_digit ds \<Longrightarrow> \<not> is_digit x \<Longrightarrow>
    takeWhile is_digit (ds @ x # r) = ds \<and> dropWhile is_digit (ds @ x # r) = x # r"
  by (induction ds) auto

lemma read_nanos_frac_digits:
  assumes "v < 1000000000"
  shows "read_nanos (frac_digits v 9 @ ''Z'') = (int v, ''Z'')"
proof (cases "v = 0")
  case True
  then show ?thesis by (simp add: frac_digits_def read_nanos_def)
next
  case False
  let ?all = "pad_left 9 (show_nat v)" and ?ds = "TrimRightByte (CHR ''0'') (pad_left 9 (show_nat v))"
  have "v < 10 ^ 9" using assms by simp
  note P = pad_left_props [OF this]
  obtain k where k: "?all = ?ds @ replicate k (CHR ''0'')" by (rule TrimRightByte_zeros)
  have len: "length ?ds + k = 9" using P(1) arg_cong [OF k, of length] by simp
  have dig: "list_all is_digit ?ds" using P(2) k by (metis list_all_append zero_less_numeral)
  have val: "digits_value ?ds * 10 ^ k = v" using P(3) digits_value_trailing [of ?ds k] k by simp
  have "?ds \<noteq> []" using val False by (auto simp: digits_value_def)
  then obtain d ds where ds: "?ds = d # ds" by (cases ?ds) auto
  have "\<not> is_digit (CHR ''Z'')" by code_simp
  from takeWhile_digits [OF dig this, of "[]"] have
    tw: "takeWhile is_digit (d # ds @ ''Z'') = ?ds" "dropWhile is_digit (d # ds @ ''Z'') = ''Z''"
    unfolding ds by simp_all
  have "frac_digits v 9 = CHR ''.'' # d # ds"
    using False assms ds by (simp add: frac_digits_def)
  moreover have "is_digit d" using dig ds by simp
  moreover have "nanos ?ds = int v"
  proof -
    have "take 9 ?ds = ?ds" "9 - length ?ds = k" using len by simp_all
    then show ?thesis unfolding nanos_def using val by (metis of_nat_mult of_nat_numeral of_nat_power)
  qed
  ultimately show ?thesis using tw by (simp add: read_nanos_def)
qed


text \<open>The times whose year has four digits.\<close>

definition t_year :: "gotime \<Rightarrow> int" where
  "t_year t = fst (civil_date (t_ns t div 1000000000 div 86400))"

definition four_digit_year :: "gotime \<Rightarrow> bool" where
  "four_digit_year t \<longleftrightarrow> 0 \<le> t_year t \<and> t_year t \<le> 9999"

lemma skip_byte_hit [simp]: "skip_byte c (c # r) = Some r"
  by (simp add: skip_byte_def)

lemma split_day_seconds:
  assumes "0 \<le> s" "s < (86400 :: int)"
  shows "0 \<le> s div 3600" "s div 3600 \<le> 23" "0 \<le> s mod 3600 div 60" "s mod 3600 div 60 \<le> 59"
    "0 \<le> s mod 60" "s mod 60 \<le> 59" "s div 3600 * 3600 + s mod 3600 div 60 * 60 + s mod 60 = s"
proof -
  have "s mod 3600 mod 60 = s mod 60" by (simp add: mod_mod_cancel)
  with div_mult_mod_eq [of "s mod 3600" 60] div_mult_mod_eq [of s 3600] show "s div 3600 * 3600 + s mod 3600 div 60 * 60 + s mod 60 = s"
    by linarith
  show "0 \<le> s div 3600" "0 \<le> s mod 3600 div 60" "0 \<le> s mod 60" "s mod 60 \<le> 59"
    using assms by (simp_all add: pos_imp_zdiv_nonneg_iff)
  show "s div 3600 \<le> 23" using zdiv_mono1 [of s 86399 3600] assms by simp
  show "s mod 3600 div 60 \<le> 59" using zdiv_mono1 [of "s mod 3600" 3599 60] by simp
qed

lemma time_Parse_format:
  assumes "four_digit_year t"
  shows "time_Parse (format_RFC3339Nano t) = Some \<lparr>t_ns = t_ns t, t_offset = 0\<rparr>"
proof -
  define secs where "secs = t_ns t div 1000000000"
  define s where "s = secs mod 86400"
  define ns where "ns = t_ns t mod 1000000000"
  obtain y m d where c: "civil_date (secs div 86400) = (y, m, d)" by (cases "civil_date (secs div 86400)")
  note C = civil_date_valid [OF c]
  have y: "0 \<le> y" "y \<le> 9999" using assms c by (simp_all add: four_digit_year_def t_year_def secs_def)
  have d: "d < 100" using C(5) by (auto simp: days_in_def split: if_splits)
  have s: "0 \<le> s" "s < 86400" by (simp_all add: s_def)
  note S = split_day_seconds [OF s]
  have ns: "nat ns < 1000000000" "0 \<le> ns" by (simp_all add: ns_def nat_less_iff)
  have fmt: "format_RFC3339Nano t = pad_int 4 y @ CHR ''-'' # pad_int 2 m @ CHR ''-'' # pad_int 2 d @
      CHR ''T'' # pad_int 2 (s div 3600) @ CHR '':'' # pad_int 2 (s mod 3600 div 60) @ CHR '':'' #
      pad_int 2 (s mod 60) @ frac_digits (nat ns) 9 @ ''Z''"
    using c by (simp add: format_RFC3339Nano_def Let_def secs_def s_def ns_def)
  have z: "read_zone ''Z'' = Some (0, [])" by (simp add: read_zone_def)
  have "(day_number y m d * 86400 + s div 3600 * 3600 + s mod 3600 div 60 * 60 + s mod 60) = secs"
    using S(7) div_mult_mod_eq [of secs 86400] unfolding s_def C(1) by linarith
  moreover have "secs * 1000000000 + ns = t_ns t"
    using div_mult_mod_eq [of "t_ns t" 1000000000] by (simp add: secs_def ns_def)
  ultimately have total: "(day_number y m d * 86400 + s div 3600 * 3600 + s mod 3600 div 60 * 60 + s mod 60) *
      1000000000 + ns = t_ns t" by simp
  have dn: "0 \<le> d" using C(4) by simp
  have mn: "0 \<le> m" "m < 100" using C(2,3) by simp_all
  have sn: "s div 3600 < 100" "s mod 3600 div 60 < 100" "s mod 60 < 100" using S(2,4,6) by simp_all
  note num = getnum_pad_int [OF mn] getnum_pad_int [OF dn d] getnum_pad_int [OF S(1) sn(1)]
    getnum_pad_int [OF S(3) sn(2)] getnum_pad_int [OF S(5) sn(3)]
  have ranges: "in_range 1 12 (m, r) = Some (m, r)" "in_range 0 23 (s div 3600, r) = Some (s div 3600, r)"
    "in_range 0 59 (s mod 3600 div 60, r) = Some (s mod 3600 div 60, r)"
    "in_range 0 59 (s mod 60, r) = Some (s mod 60, r)" for r
    using C(2,3) S(1-6) by (simp_all add: in_range_def)
  show ?thesis
    unfolding time_Parse_def fmt read_year_pad_int [OF y] bind.bind_lunit prod.case skip_byte_hit num ranges
      append.simps Let_def read_nanos_frac_digits [OF ns(1)] z
    using C(4,5) total ns(2) by simp
qed

end
