(* ===== verification/EtcdClient.thy ===== *)
theory EtcdClient
  imports RunnerBase GoJson GoTimeFormat
begin

text \<open>
  The etcd client library, as the three managers (\<open>pkg/lock/etcd_manager.go\<close>, \<open>pkg/cooldown/etcd.go\<close>,
  \<open>pkg/clusterhealth/etcd.go\<close>) use it: an argument of the model, a record of functions that pass the
  world along.  What the managers rely on is stated as properties of such a record.  The helpers the
  three packages share are here as well: keys, and the error idiom.
\<close>

section \<open>The client\<close>

text \<open>A key with its value and the lease it is attached to, 0 for none.\<close>

record kv =
  kv_Key :: string
  kv_Value :: string
  kv_Lease :: int

type_synonym session = nat

record tls_config =
  tc_Certificate :: string
  tc_RootCAs :: string
  tc_MinVersion :: nat
  tc_InsecureSkipVerify :: bool

record dial_config =
  di_Endpoints :: "string list"
  di_DialTimeout :: duration
  di_TLS :: "tls_config option"

text \<open>
  \<open>ec_list\<close> is \<open>Get\<close> with a prefix; the mutex of a session on a key prefix has a key of its own,
  \<open>ec_mutexKey\<close>.
\<close>

record 'w etcd =
  ec_get :: "string \<Rightarrow> 'w \<Rightarrow> (go_error + kv list) \<times> 'w"
  ec_list :: "string \<Rightarrow> 'w \<Rightarrow> (go_error + kv list) \<times> 'w"
  ec_put :: "string \<Rightarrow> string \<Rightarrow> int \<Rightarrow> 'w \<Rightarrow> go_error option \<times> 'w"
  ec_delete :: "string \<Rightarrow> 'w \<Rightarrow> go_error option \<times> 'w"
  ec_grant :: "int \<Rightarrow> 'w \<Rightarrow> (go_error + int) \<times> 'w"
  ec_revoke :: "int \<Rightarrow> 'w \<Rightarrow> go_error option \<times> 'w"
  ec_ttl :: "int \<Rightarrow> 'w \<Rightarrow> (go_error + int) \<times> 'w"
  ec_newSession :: "int \<Rightarrow> 'w \<Rightarrow> (go_error + session) \<times> 'w"
  ec_sessionLease :: "session \<Rightarrow> int"
  ec_tryLock :: "session \<Rightarrow> string \<Rightarrow> 'w \<Rightarrow> go_error option \<times> 'w"
  ec_unlock :: "session \<Rightarrow> string \<Rightarrow> 'w \<Rightarrow> go_error option \<times> 'w"
  ec_mutexKey :: "session \<Rightarrow> string \<Rightarrow> string"
  ec_closeSession :: "session \<Rightarrow> 'w \<Rightarrow> go_error option \<times> 'w"
  ec_close :: "'w \<Rightarrow> go_error option \<times> 'w"

text \<open>Dialling: \<open>clientv3.New\<close>.\<close>

type_synonym 'w dialer = "dial_config \<Rightarrow> 'w \<Rightarrow> (go_error + 'w etcd) \<times> 'w"

definition dial_timeout :: "duration \<Rightarrow> duration" where
  "dial_timeout t = (if sint t \<le> 0 then 5 * Second else t)"

section \<open>Payloads\<close>

text \<open>The payloads are JSON texts of flat structures.\<close>

record lease_annotation =
  la_Node :: string
  la_PID :: int
  la_AcquiredAt :: string

record cooldown_record =
  cdr_Node :: string
  cdr_StartedAt :: string
  cdr_DurationSec :: int

record health_payload =
  pl_Node :: string
  pl_Healthy :: bool
  pl_Stage :: string
  pl_Reason :: string
  pl_ReportedAt :: string

text \<open>What the library says of a text it cannot decode, or a timestamp it cannot parse.\<close>

record parse_texts =
  pt_json :: "string \<Rightarrow> string"
  pt_time :: "string \<Rightarrow> string"

definition json_Marshal :: "json \<Rightarrow> go_error + string" where
  "json_Marshal j = Inr (json_print j)"

definition annotation_json :: "lease_annotation \<Rightarrow> json" where
  "annotation_json a = JObj
     [(''node'', JStr (la_Node a)), (''pid'', JNum (Itoa (la_PID a))), (''acquired_at'', JStr (la_AcquiredAt a))]"

definition cooldown_json :: "cooldown_record \<Rightarrow> json" where
  "cooldown_json c = JObj
     [(''node'', JStr (cdr_Node c)), (''started_at'', JStr (cdr_StartedAt c)),
      (''duration_sec'', JNum (Itoa (cdr_DurationSec c)))]"

definition cooldown_zero :: cooldown_record where
  "cooldown_zero = \<lparr>cdr_Node = [], cdr_StartedAt = [], cdr_DurationSec = 0\<rparr>"

definition cooldown_field :: "string \<Rightarrow> json \<Rightarrow> cooldown_record \<Rightarrow> cooldown_record option" where
  "cooldown_field f v c =
     (if f = ''node'' then map_option (\<lambda>x. c\<lparr>cdr_Node := x\<rparr>) (json_str v)
      else if f = ''started_at'' then map_option (\<lambda>x. c\<lparr>cdr_StartedAt := x\<rparr>) (json_str v)
      else map_option (\<lambda>x. c\<lparr>cdr_DurationSec := x\<rparr>) (json_int64 v))"

definition or_text :: "go_error \<Rightarrow> 'a option \<Rightarrow> go_error + 'a" where
  "or_text e x = (case x of None \<Rightarrow> Inl e | Some a \<Rightarrow> Inr a)"

definition cooldown_Unmarshal :: "parse_texts \<Rightarrow> string \<Rightarrow> go_error + cooldown_record" where
  "cooldown_Unmarshal T s = or_text (ErrMsg (pt_json T s))
     (unmarshal [''node'', ''started_at'', ''duration_sec''] cooldown_field cooldown_zero s)"

text \<open>The stage and the reason are left out when they are empty.\<close>

definition health_json :: "health_payload \<Rightarrow> json" where
  "health_json p = JObj
     ([(''node'', JStr (pl_Node p)), (''healthy'', JBool (pl_Healthy p))] @
      (if pl_Stage p = [] then [] else [(''stage'', JStr (pl_Stage p))]) @
      (if pl_Reason p = [] then [] else [(''reason'', JStr (pl_Reason p))]) @
      [(''reported_at'', JStr (pl_ReportedAt p))])"

definition health_zero :: health_payload where
  "health_zero = \<lparr>pl_Node = [], pl_Healthy = False, pl_Stage = [], pl_Reason = [], pl_ReportedAt = []\<rparr>"

definition health_field :: "string \<Rightarrow> json \<Rightarrow> health_payload \<Rightarrow> health_payload option" where
  "health_field f v p =
     (if f = ''node'' then map_option (\<lambda>x. p\<lparr>pl_Node := x\<rparr>) (json_str v)
      else if f = ''healthy'' then map_option (\<lambda>x. p\<lparr>pl_Healthy := x\<rparr>) (json_bool v)
      else if f = ''stage'' then map_option (\<lambda>x. p\<lparr>pl_Stage := x\<rparr>) (json_str v)
      else if f = ''reason'' then map_option (\<lambda>x. p\<lparr>pl_Reason := x\<rparr>) (json_str v)
      else map_option (\<lambda>x. p\<lparr>pl_ReportedAt := x\<rparr>) (json_str v))"

definition health_Unmarshal :: "parse_texts \<Rightarrow> string \<Rightarrow> go_error + health_payload" where
  "health_Unmarshal T s = or_text (ErrMsg (pt_json T s))
     (unmarshal [''node'', ''healthy'', ''stage'', ''reason'', ''reported_at''] health_field health_zero s)"

definition parse_timestamp :: "parse_texts \<Rightarrow> string \<Rightarrow> go_error + gotime" where
  "parse_timestamp T s = or_text (ErrMsg (pt_time T s)) (time_Parse s)"

text \<open>Round trips.\<close>

definition ascii :: "string \<Rightarrow> bool" where
  "ascii s = list_all (\<lambda>c. byte c < 0x80) s"

lemma ascii_simps [simp]: "ascii []" "ascii (c # s) \<longleftrightarrow> byte c < 0x80 \<and> ascii s"
  "ascii (s @ s') \<longleftrightarrow> ascii s \<and> ascii s'"
  by (simp_all add: ascii_def)

lemma valid_utf8_ascii: "ascii s \<Longrightarrow> valid_utf8 s"
  by (induction s) (simp_all add: valid_utf8.simps)

lemma ascii_digits: "list_all is_digit ds \<Longrightarrow> ascii ds"
  by (auto simp: ascii_def list_all_iff is_digit_def byte_def)

lemma ascii_pad_int: "ascii (pad_int n i)"
  unfolding pad_int_def pad_left.simps
  by (rule ascii_digits [OF all_digits_zeros [OF show_nat_digits]])

lemma ascii_frac_digits: "ascii (frac_digits v n)"
proof -
  let ?all = "pad_left n (show_nat (v mod 10 ^ n))"
  have "list_all is_digit ?all"
    unfolding pad_left.simps by (rule all_digits_zeros [OF show_nat_digits])
  moreover have "set (TrimRightByte (CHR ''0'') ?all) \<subseteq> set ?all"
    by (auto simp: TrimRightByte_def dest: set_dropWhileD)
  ultimately have "list_all is_digit (TrimRightByte (CHR ''0'') ?all)" by (auto simp: list_all_iff)
  from ascii_digits [OF this] show ?thesis by (simp add: frac_digits_def Let_def byte_def)
qed

lemma valid_utf8_format: "valid_utf8 (format_RFC3339Nano t)"
proof (rule valid_utf8_ascii)
  show "ascii (format_RFC3339Nano t)"
    unfolding format_RFC3339Nano_def Let_def
    by (simp add: ascii_pad_int ascii_frac_digits byte_def split: prod.split)
qed

definition in_UTC :: "gotime \<Rightarrow> gotime" where
  "in_UTC t = t\<lparr>t_offset := 0\<rparr>"

lemma parse_timestamp_format: "four_digit_year t \<Longrightarrow> parse_timestamp T (format_RFC3339Nano t) = Inr (in_UTC t)"
  by (simp add: parse_timestamp_def or_text_def time_Parse_format in_UTC_def)

lemma plain_names: "valid_utf8 ''node''" "valid_utf8 ''healthy''" "valid_utf8 ''stage''" "valid_utf8 ''reason''"
  "valid_utf8 ''reported_at''" "valid_utf8 ''started_at''" "valid_utf8 ''duration_sec''"
  by (rule valid_utf8_ascii, simp add: byte_def)+

lemma unmarshal_print:
  "flat_members ms \<Longrightarrow> unmarshal names set_field zero (json_print (JObj ms)) = assign_members names set_field ms zero"
  by (simp add: unmarshal_def json_parse_print del: json_print.simps)

lemma cooldown_roundtrip:
  assumes "valid_utf8 (cdr_Node c)" "valid_utf8 (cdr_StartedAt c)" "in_int64 (cdr_DurationSec c)"
  shows "cooldown_Unmarshal T (json_print (cooldown_json c)) = Inr c"
proof -
  let ?ms = "[(''node'', JStr (cdr_Node c)), (''started_at'', JStr (cdr_StartedAt c)),
    (''duration_sec'', JNum (Itoa (cdr_DurationSec c)))]"
  have fl: "flat_members ?ms" using assms(1,2) plain_names by (auto simp: flat_members_def simple_json_def)
  show ?thesis
    unfolding cooldown_Unmarshal_def cooldown_json_def unmarshal_print [OF fl]
    using Atoi_Itoa [OF assms(3)]
    by (simp add: json_field_def cooldown_field_def cooldown_zero_def or_text_def)
qed

lemma health_roundtrip:
  assumes "valid_utf8 (pl_Node p)" "valid_utf8 (pl_Stage p)" "valid_utf8 (pl_Reason p)" "valid_utf8 (pl_ReportedAt p)"
  shows "health_Unmarshal T (json_print (health_json p)) = Inr p"
proof -
  let ?ms = "[(''node'', JStr (pl_Node p)), (''healthy'', JBool (pl_Healthy p))] @
      (if pl_Stage p = [] then [] else [(''stage'', JStr (pl_Stage p))]) @
      (if pl_Reason p = [] then [] else [(''reason'', JStr (pl_Reason p))]) @
      [(''reported_at'', JStr (pl_ReportedAt p))]"
  have fl: "flat_members ?ms" using assms plain_names by (auto simp: flat_members_def simple_json_def)
  show ?thesis
    unfolding health_Unmarshal_def health_json_def unmarshal_print [OF fl]
    by (cases "pl_Stage p = []"; cases "pl_Reason p = []")
      (simp_all add: json_field_def health_field_def health_zero_def or_text_def)
qed

section \<open>Keys\<close>

definition applyNamespace :: "string \<Rightarrow> string \<Rightarrow> string" where
  "applyNamespace namespace key =
     (let normalizedKey = ''/'' @ TrimLeftByte (CHR ''/'') key;
          trimmedNamespace = TrimByte (CHR ''/'') namespace
      in if trimmedNamespace = [] then normalizedKey else ''/'' @ trimmedNamespace @ normalizedKey)"

text \<open>\<open>path.Join\<close>, with the lexical simplification of \<open>path.Clean\<close>.\<close>

fun clean_parts :: "bool \<Rightarrow> string list \<Rightarrow> string list \<Rightarrow> string list" where
  "clean_parts rooted acc [] = rev acc"
| "clean_parts rooted acc (x # xs) =
     (if x = [] \<or> x = ''.'' then clean_parts rooted acc xs
      else if x = ''..'' then
        (case acc of
           [] \<Rightarrow> clean_parts rooted (if rooted then [] else [x]) xs
         | y # ys \<Rightarrow> clean_parts rooted (if y = ''..'' then x # acc else ys) xs)
      else clean_parts rooted (x # acc) xs)"

definition path_Clean :: "string \<Rightarrow> string" where
  "path_Clean p =
     (let rooted = (p \<noteq> [] \<and> hd p = CHR ''/'');
          body = Join (clean_parts rooted [] (Split (CHR ''/'') p)) ''/''
      in if rooted then ''/'' @ body else if body = [] then ''.'' else body)"

definition path_Join :: "string list \<Rightarrow> string" where
  "path_Join es =
     (let ne = List.filter (\<lambda>e. e \<noteq> []) es in if ne = [] then [] else path_Clean (Join ne ''/''))"

lemma dropWhile_not_hd: "dropWhile P xs \<noteq> [] \<Longrightarrow> \<not> P (hd (dropWhile P xs))"
  by (rule hd_dropWhile)

text \<open>A key always starts with exactly one slash, whatever the operator wrote.\<close>

lemma applyNamespace_one_slash:
  "\<exists>rest. applyNamespace ns key = CHR ''/'' # rest \<and> (rest = [] \<or> hd rest \<noteq> CHR ''/'')"
proof (cases "TrimByte (CHR ''/'') ns = []")
  case True
  then show ?thesis
    using dropWhile_not_hd [of "\<lambda>x. x = CHR ''/''" key]
    by (auto simp: applyNamespace_def TrimLeftByte_def)
next
  case False
  let ?l = "TrimLeftByte (CHR ''/'') ns"
  obtain zs where zs: "?l = TrimByte (CHR ''/'') ns @ zs"
    unfolding TrimByte_def TrimRightByte_def
    by (metis rev_append rev_rev_ident takeWhile_dropWhile_id)
  with False have "hd (TrimByte (CHR ''/'') ns) = hd ?l" "?l \<noteq> []" by auto
  then show ?thesis
    using False dropWhile_not_hd [of "\<lambda>x. x = CHR ''/''" ns]
    by (auto simp: applyNamespace_def Let_def TrimLeftByte_def)
qed

section \<open>Paths of nodes\<close>

text \<open>A clean path: what \<open>path.Clean\<close> leaves alone.\<close>

definition plain_segment :: "string \<Rightarrow> bool" where
  "plain_segment x \<longleftrightarrow> x \<noteq> [] \<and> x \<noteq> ''.'' \<and> x \<noteq> ''..'' \<and> CHR ''/'' \<notin> set x"

lemma clean_parts_plain:
  "list_all (\<lambda>x. x \<noteq> [] \<and> x \<noteq> ''.'' \<and> x \<noteq> ''..'') xs \<Longrightarrow> clean_parts rooted acc xs = rev acc @ xs"
  by (induction xs arbitrary: acc) auto

lemma Split_Join_slash:
  "xs \<noteq> [] \<Longrightarrow> list_all (\<lambda>x. CHR ''/'' \<notin> set x) xs \<Longrightarrow> Split (CHR ''/'') (Join xs ''/'') = xs"
proof (induction xs)
  case (Cons x xs)
  then show ?case
    by (cases xs) (simp_all add: Split_no_sep Split_append)
qed simp

lemma Join_append_last: "xs \<noteq> [] \<Longrightarrow> Join (xs @ [y]) sep = Join xs sep @ sep @ y"
proof (induction xs)
  case (Cons x xs)
  then show ?case by (cases xs) simp_all
qed simp

lemma path_Join_plain:
  assumes "xs \<noteq> []" "list_all plain_segment xs" "plain_segment n"
  shows "path_Join [''/'' @ Join xs ''/'', n] = ''/'' @ Join xs ''/'' @ ''/'' @ n"
proof -
  let ?p = "''/'' @ Join (xs @ [n]) ''/''"
  have ok: "list_all plain_segment (xs @ [n])" using assms by simp
  have "Split (CHR ''/'') ?p = [] # Split (CHR ''/'') (Join (xs @ [n]) ''/'')"
    using Split_append [of "CHR ''/''" "[]" "Join (xs @ [n]) ''/''"] by simp
  also have "Split (CHR ''/'') (Join (xs @ [n]) ''/'') = xs @ [n]"
    by (rule Split_Join_slash) (use ok in \<open>auto simp: list_all_iff plain_segment_def\<close>)
  finally have "clean_parts True [] (Split (CHR ''/'') ?p) = xs @ [n]"
    using clean_parts_plain [of "xs @ [n]" True "[]"] ok
    by (simp add: list_all_iff plain_segment_def)
  then have "path_Clean ?p = ?p" by (simp add: path_Clean_def Let_def)
  moreover have "n \<noteq> []" using assms(3) by (simp add: plain_segment_def)
  ultimately show ?thesis
    using Join_append_last [OF assms(1), of n "''/''"] by (simp add: path_Join_def)
qed

end
