(* ===== verification/LockManager.thy ===== *)
theory LockManager
  imports EtcdClient
begin

text \<open>
  \<open>pkg/lock\<close>: the manager that always grants the lock, and the one backed by an etcd mutex whose
  session ends with the process.  A lease of the latter is its session; the mutex is determined by
  the session and the manager's key.
\<close>

section \<open>The manager without coordination\<close>

definition noop_Acquire :: "'w os \<Rightarrow> 'w \<Rightarrow> (go_error + lease) \<times> 'w" where
  "noop_Acquire os w = (case os_ctx_err os w of (Some e, w) \<Rightarrow> (Inl e, w) | (None, w) \<Rightarrow> (Inr 0, w))"

definition noop_Release :: "lease \<Rightarrow> 'w \<Rightarrow> go_error option \<times> 'w" where
  "noop_Release l w = (None, w)"

section \<open>The etcd manager\<close>

record lock_options =
  lo_Endpoints :: "string list"
  lo_DialTimeout :: duration
  lo_LockKey :: string
  lo_Namespace :: string
  lo_TTL :: duration
  lo_TLS :: "tls_config option"
  lo_NodeName :: string
  lo_ProcessID :: int

record 'w lock_manager =
  lm_client :: "'w etcd"
  lm_key :: string
  lm_ttlSeconds :: int
  lm_nodeName :: string
  lm_pid :: int
  lm_now :: "'w \<Rightarrow> gotime \<times> 'w"

text \<open>\<open>int(math.Ceil(ttl.Seconds()))\<close>.\<close>

definition ceil_seconds :: "int \<Rightarrow> duration \<Rightarrow> int" where
  "ceil_seconds u t = int_of_float u (float_Ceil (Seconds t))"

definition lock_options_error :: "int \<Rightarrow> lock_options \<Rightarrow> string option" where
  "lock_options_error u opts =
     (if lo_Endpoints opts = [] then Some ''etcd lock manager requires at least one endpoint''
      else if TrimSpace (lo_LockKey opts) = [] then Some ''etcd lock manager requires a non-empty lock key''
      else if sint (lo_TTL opts) \<le> 0 then Some ''etcd lock manager requires a positive TTL''
      else if TrimSpace (lo_NodeName opts) = [] then
        Some ''etcd lock manager requires a non-empty node name for metadata''
      else if ceil_seconds u (lo_TTL opts) \<le> 0 then Some ''etcd lock manager TTL must be at least 1 second''
      else None)"

definition NewLockManager :: "int \<Rightarrow> 'w dialer \<Rightarrow> int \<Rightarrow> ('w \<Rightarrow> gotime \<times> 'w) \<Rightarrow> lock_options \<Rightarrow> 'w
    \<Rightarrow> (go_error + 'w lock_manager) \<times> 'w" where
  "NewLockManager u dial getpid now opts w =
     (case lock_options_error u opts of
        Some msg \<Rightarrow> (Inl (ErrMsg msg), w)
      | None \<Rightarrow>
        (case dial \<lparr>di_Endpoints = lo_Endpoints opts, di_DialTimeout = dial_timeout (lo_DialTimeout opts),
                    di_TLS = lo_TLS opts\<rparr> w of
           (Inl e, w) \<Rightarrow> (Inl (Wrapf ''create etcd client'' e), w)
         | (Inr client, w) \<Rightarrow>
           (Inr \<lparr>lm_client = client, lm_key = applyNamespace (lo_Namespace opts) (TrimSpace (lo_LockKey opts)),
                 lm_ttlSeconds = ceil_seconds u (lo_TTL opts), lm_nodeName = TrimSpace (lo_NodeName opts),
                 lm_pid = (if lo_ProcessID opts \<le> 0 then getpid else lo_ProcessID opts), lm_now = now\<rparr>, w)))"

definition lock_Close :: "'w lock_manager \<Rightarrow> 'w \<Rightarrow> go_error option \<times> 'w" where
  "lock_Close m w = ec_close (lm_client m) w"

definition annotateLease :: "'w lock_manager \<Rightarrow> session \<Rightarrow> 'w \<Rightarrow> go_error option \<times> 'w" where
  "annotateLease m s w =
     (let (t, w) = lm_now m w in
      case json_Marshal (annotation_json \<lparr>la_Node = lm_nodeName m, la_PID = lm_pid m,
             la_AcquiredAt = format_RFC3339Nano t\<rparr>) of
        Inl e \<Rightarrow> (Some e, w)
      | Inr payload \<Rightarrow>
          ec_put (lm_client m) (ec_mutexKey (lm_client m) s (lm_key m)) payload
            (ec_sessionLease (lm_client m) s) w)"

text \<open>What is left of a session whose mutex could not be locked, or not annotated.\<close>

definition abandon_session :: "'w lock_manager \<Rightarrow> session \<Rightarrow> 'w \<Rightarrow> 'w" where
  "abandon_session m s w = snd (ec_closeSession (lm_client m) s w)"

definition abandon_lock :: "'w lock_manager \<Rightarrow> session \<Rightarrow> 'w \<Rightarrow> 'w" where
  "abandon_lock m s w = abandon_session m s (snd (ec_unlock (lm_client m) s (lm_key m) w))"

definition lock_Acquire :: "'w lock_manager \<Rightarrow> 'w \<Rightarrow> (go_error + session) \<times> 'w" where
  "lock_Acquire m w =
     (case ec_newSession (lm_client m) (lm_ttlSeconds m) w of
        (Inl e, w) \<Rightarrow> (Inl (wrap_unless_context ''create session'' e), w)
      | (Inr s, w) \<Rightarrow>
        (case ec_tryLock (lm_client m) s (lm_key m) w of
           (Some e, w) \<Rightarrow>
             (Inl (if errors_Is e ErrLocked then Sentinel ErrNotAcquired
                   else wrap_unless_context ''try lock'' e), abandon_session m s w)
         | (None, w) \<Rightarrow>
           (case annotateLease m s w of
              (Some e, w) \<Rightarrow> (Inl (wrap_unless_context ''annotate lock'' e), abandon_lock m s w)
            | (None, w) \<Rightarrow> (Inr s, w))))"

definition lease_Release :: "'w lock_manager \<Rightarrow> session \<Rightarrow> 'w \<Rightarrow> go_error option \<times> 'w" where
  "lease_Release m s w =
     (let (unlockErr, w) = ec_unlock (lm_client m) s (lm_key m) w;
          (closeErr, w) = ec_closeSession (lm_client m) s w
      in (case unlockErr of
            Some e \<Rightarrow>
              if \<not> errors_Is e ErrLockReleased then Some (wrap_unless_context ''unlock'' e)
              else map_option (wrap_unless_context ''close session'') closeErr
          | None \<Rightarrow> map_option (wrap_unless_context ''close session'') closeErr, w))"

section \<open>Sessions\<close>

text \<open>
  The sessions the process keeps alive, as the library documents it: opening one adds a new session,
  closing one ends it whether or not the server could be told, and nothing else opens or ends any.
\<close>

definition tracks_sessions :: "'w etcd \<Rightarrow> ('w \<Rightarrow> session set) \<Rightarrow> bool" where
  "tracks_sessions E opens \<longleftrightarrow>
     (\<forall>ttl w. case ec_newSession E ttl w of
        (Inl e, w') \<Rightarrow> opens w' = opens w
      | (Inr s, w') \<Rightarrow> s \<notin> opens w \<and> opens w' = insert s (opens w)) \<and>
     (\<forall>s k w. opens (snd (ec_tryLock E s k w)) = opens w) \<and>
     (\<forall>s k w. opens (snd (ec_unlock E s k w)) = opens w) \<and>
     (\<forall>k v l w. opens (snd (ec_put E k v l w)) = opens w) \<and>
     (\<forall>s w. opens (snd (ec_closeSession E s w)) = opens w - {s})"

definition clock_keeps :: "('w \<Rightarrow> 'a) \<Rightarrow> 'w lock_manager \<Rightarrow> bool" where
  "clock_keeps f m \<longleftrightarrow> (\<forall>w. f (snd (lm_now m w)) = f w)"

lemma annotateLease_keeps:
  assumes "\<forall>k v l w. f (snd (ec_put (lm_client m) k v l w)) = f w" "clock_keeps f m"
  shows "f (snd (annotateLease m s w)) = f w"
  using assms by (simp add: annotateLease_def clock_keeps_def split_beta split: sum.splits)

lemma lock_Acquire_sessions:
  assumes "tracks_sessions (lm_client m) opens" "clock_keeps opens m" "lock_Acquire m w = (res, w')"
  shows "opens w' = (case res of Inl e \<Rightarrow> opens w | Inr s \<Rightarrow> insert s (opens w)) \<and>
    (case res of Inl e \<Rightarrow> True | Inr s \<Rightarrow> s \<notin> opens w)"
proof -
  let ?E = "lm_client m"
  note T = assms(1) [unfolded tracks_sessions_def]
  obtain ns w1 where ns: "ec_newSession ?E (lm_ttlSeconds m) w = (ns, w1)" by (metis surj_pair)
  show ?thesis
  proof (cases ns)
    case (Inl e)
    have "opens w1 = opens w"
      using T [THEN conjunct1, THEN spec, of "lm_ttlSeconds m", THEN spec, of w] ns Inl by simp
    with assms(3) ns Inl show ?thesis by (auto simp: lock_Acquire_def)
  next
    case (Inr s)
    have s: "s \<notin> opens w" "opens w1 = insert s (opens w)"
      using T [THEN conjunct1, THEN spec, of "lm_ttlSeconds m", THEN spec, of w] ns Inr by simp_all
    obtain le w2 where tl: "ec_tryLock ?E s (lm_key m) w1 = (le, w2)" by (metis surj_pair)
    then have o2: "opens w2 = opens w1" using T by (metis snd_conv)
    have close: "opens (abandon_session m s v) = opens v - {s}" for v
      using T by (simp add: abandon_session_def)
    show ?thesis
    proof (cases le)
      case (Some e)
      with assms(3) ns Inr tl have "w' = abandon_session m s w2" "\<exists>e. res = Inl e"
        by (auto simp: lock_Acquire_def)
      with s o2 close [of w2] show ?thesis by auto
    next
      case None
      obtain ae w3 where an: "annotateLease m s w2 = (ae, w3)" by (metis surj_pair)
      have o3: "opens w3 = opens w2"
        using annotateLease_keeps [of opens m s w2] T assms(2) an by simp
      show ?thesis
      proof (cases ae)
        case (Some e)
        with assms(3) ns Inr tl None an have r: "w' = abandon_lock m s w3" "\<exists>e. res = Inl e"
          by (auto simp: lock_Acquire_def)
        have "opens (snd (ec_unlock ?E s (lm_key m) w3)) = opens w3" using T by blast
        with r s o2 o3 close show ?thesis by (auto simp: abandon_lock_def)
      next
        case None
        with assms(3) ns Inr tl \<open>le = None\<close> an have "res = Inr s" "w' = w3" by (auto simp: lock_Acquire_def)
        with s o2 o3 show ?thesis by simp
      qed
    qed
  qed
qed

lemma lease_Release_sessions:
  assumes "tracks_sessions (lm_client m) opens"
  shows "opens (snd (lease_Release m s w)) = opens w - {s}"
  using assms by (simp add: lease_Release_def tracks_sessions_def split_beta)

section \<open>Mutual exclusion\<close>

text \<open>
  Nodes that share a lock: each holds a lease or none.  A node may be granted or refused the lock,
  release its lease, or go away with the lease unreleased; and the lease of a node that is gone may
  expire.  \<open>holder\<close> is the lease under which the lock is taken.
\<close>

inductive lock_step :: "('n \<Rightarrow> 'w \<Rightarrow> (go_error + lease) \<times> 'w) \<Rightarrow> ('n \<Rightarrow> lease \<Rightarrow> 'w \<Rightarrow> go_error option \<times> 'w)
    \<Rightarrow> ('w \<Rightarrow> lease option) \<Rightarrow> 'w \<times> ('n \<Rightarrow> lease option) \<Rightarrow> 'w \<times> ('n \<Rightarrow> lease option) \<Rightarrow> bool"
  for acquire release holder where
  is_granted: "held n = None \<Longrightarrow> acquire n w = (Inr l, w') \<Longrightarrow>
    lock_step acquire release holder (w, held) (w', held(n := Some l))"
| is_refused: "held n = None \<Longrightarrow> acquire n w = (Inl e, w') \<Longrightarrow>
    lock_step acquire release holder (w, held) (w', held)"
| gives_back: "held n = Some l \<Longrightarrow> release n l w = (e, w') \<Longrightarrow>
    lock_step acquire release holder (w, held) (w', held(n := None))"
| goes_away: "lock_step acquire release holder (w, held) (w, held(n := None))"
| expires: "\<forall>n. held n \<noteq> holder w \<Longrightarrow> holder w' = None \<Longrightarrow>
    lock_step acquire release holder (w, held) (w', held)"
| elsewhere: "holder w' = holder w \<Longrightarrow> lock_step acquire release holder (w, held) (w', held)"

inductive_cases lock_stepE: "lock_step acquire release holder (w, held) y"

text \<open>The contract of a lock manager.\<close>

locale lock_service =
  fixes acquire :: "'n \<Rightarrow> 'w \<Rightarrow> (go_error + lease) \<times> 'w"
    and release :: "'n \<Rightarrow> lease \<Rightarrow> 'w \<Rightarrow> go_error option \<times> 'w"
    and holder :: "'w \<Rightarrow> lease option"
  assumes grant: "acquire n w = (Inr l, w') \<Longrightarrow> holder w = None \<and> holder w' = Some l"
    and refuse: "acquire n w = (Inl e, w') \<Longrightarrow> holder w = None \<or> holder w' = holder w"
    and give_back: "release n l w = (r, w') \<Longrightarrow> holder w' = holder w \<or> holder w = Some l \<and> holder w' = None"
begin

definition exclusive :: "'w \<times> ('n \<Rightarrow> lease option) \<Rightarrow> bool" where
  "exclusive = (\<lambda>(w, held). (\<forall>n l. held n = Some l \<longrightarrow> holder w = Some l) \<and>
     (\<forall>n n'. held n \<noteq> None \<and> held n' \<noteq> None \<longrightarrow> n = n'))"

lemma exclusive_start: "exclusive (w, \<lambda>_. None)"
  by (simp add: exclusive_def)

lemma exclusive_step:
  assumes "lock_step acquire release holder x y" "exclusive x"
  shows "exclusive y"
  using assms
proof cases
  case (is_granted held n w l w')
  from grant [OF is_granted(4)] is_granted assms(2) have "\<forall>m. held m = None"
    by (auto simp: exclusive_def)
  with grant [OF is_granted(4)] is_granted show ?thesis by (simp add: exclusive_def)
next
  case (is_refused held n w e w')
  from refuse [OF is_refused(4)] is_refused assms(2) show ?thesis by (auto simp: exclusive_def)
next
  case (gives_back held n l w e w')
  from give_back [OF gives_back(4)] gives_back assms(2) show ?thesis
    by (auto simp: exclusive_def)
next
  case (goes_away w held n)
  with assms(2) show ?thesis by (auto simp: exclusive_def)
next
  case (expires held w w')
  with assms(2) have "held n = None" for n by (cases "held n") (auto simp: exclusive_def)
  with expires show ?thesis by (simp add: exclusive_def)
next
  case (elsewhere w' w held)
  with assms(2) show ?thesis by (auto simp: exclusive_def)
qed

lemma exclusive_reachable:
  "(lock_step acquire release holder)\<^sup>*\<^sup>* x y \<Longrightarrow> exclusive x \<Longrightarrow> exclusive y"
  by (induction rule: rtranclp_induct) (auto intro: exclusive_step)

lemma one_holder:
  assumes "(lock_step acquire release holder)\<^sup>*\<^sup>* (w, \<lambda>_. None) (w', held)"
    and "held n = Some l" "held n' = Some l'"
  shows "n = n'" "holder w' = Some l"
  using exclusive_reachable [OF assms(1) exclusive_start] assms(2,3) by (auto simp: exclusive_def)

end

text \<open>
  The laws of the mutexes of the library: a new session holds nothing; \<open>TryLock\<close> succeeds only on a
  lock that is free or held by the session itself; when it fails it leaves another holder alone; and
  unlocking or closing a session affects only what the session holds.
\<close>

definition etcd_mutex :: "'w etcd \<Rightarrow> ('w \<Rightarrow> string \<Rightarrow> session option) \<Rightarrow> bool" where
  "etcd_mutex E holder \<longleftrightarrow>
     (\<forall>ttl w x w'. ec_newSession E ttl w = (x, w') \<longrightarrow> holder w' = holder w \<and>
        (\<forall>s k. x = Inr s \<longrightarrow> holder w k \<noteq> Some s)) \<and>
     (\<forall>s k w w'. ec_tryLock E s k w = (None, w') \<longrightarrow>
        (holder w k = None \<or> holder w k = Some s) \<and> holder w' k = Some s) \<and>
     (\<forall>s k w e w'. ec_tryLock E s k w = (Some e, w') \<longrightarrow> holder w' k = holder w k \<or> holder w k = None) \<and>
     (\<forall>s k w. holder (snd (ec_unlock E s k w)) k = holder w k \<or>
        holder w k = Some s \<and> holder (snd (ec_unlock E s k w)) k = None) \<and>
     (\<forall>k v l w. holder (snd (ec_put E k v l w)) = holder w) \<and>
     (\<forall>s k w. holder (snd (ec_closeSession E s w)) k = holder w k \<or>
        holder w k = Some s \<and> holder (snd (ec_closeSession E s w)) k = None)"

lemma etcd_mutexD:
  assumes "etcd_mutex E holder"
  shows "ec_newSession E ttl w = (x, w') \<Longrightarrow> holder w' = holder w"
    and "ec_newSession E ttl w = (Inr s, w') \<Longrightarrow> holder w k \<noteq> Some s"
    and "ec_tryLock E s k w = (None, w') \<Longrightarrow> (holder w k = None \<or> holder w k = Some s) \<and> holder w' k = Some s"
    and "ec_tryLock E s k w = (Some e, w') \<Longrightarrow> holder w' k = holder w k \<or> holder w k = None"
    and "holder (snd (ec_unlock E s k w)) k = holder w k \<or>
        holder w k = Some s \<and> holder (snd (ec_unlock E s k w)) k = None"
    and "holder (snd (ec_put E k' v l w)) = holder w"
    and "holder (snd (ec_closeSession E s w)) k = holder w k \<or>
        holder w k = Some s \<and> holder (snd (ec_closeSession E s w)) k = None"
  using assms [unfolded etcd_mutex_def, THEN conjunct1]
    assms [unfolded etcd_mutex_def, THEN conjunct2, THEN conjunct1]
    assms [unfolded etcd_mutex_def, THEN conjunct2, THEN conjunct2, THEN conjunct1]
    assms [unfolded etcd_mutex_def, THEN conjunct2, THEN conjunct2, THEN conjunct2, THEN conjunct1]
    assms [unfolded etcd_mutex_def, THEN conjunct2, THEN conjunct2, THEN conjunct2, THEN conjunct2]
  by (metis, metis, metis, metis, metis, metis, metis)

lemma lock_Acquire_holder:
  assumes "etcd_mutex (lm_client m) holder" "clock_keeps holder m" "lock_Acquire m w = (res, w')"
  shows "case res of Inr s \<Rightarrow> holder w (lm_key m) = None \<and> holder w' (lm_key m) = Some s
    | Inl e \<Rightarrow> holder w (lm_key m) = None \<or> holder w' (lm_key m) = holder w (lm_key m)"
proof -
  let ?E = "lm_client m" and ?k = "lm_key m"
  note D = etcd_mutexD [OF assms(1)]
  obtain ns w1 where ns: "ec_newSession ?E (lm_ttlSeconds m) w = (ns, w1)" by (metis surj_pair)
  note h1 = D(1) [OF ns]
  show ?thesis
  proof (cases ns)
    case (Inl e)
    with assms(3) ns h1 show ?thesis by (auto simp: lock_Acquire_def)
  next
    case (Inr s)
    have fresh: "holder w ?k \<noteq> Some s" using D(2) ns Inr by blast
    obtain le w2 where tl: "ec_tryLock ?E s ?k w1 = (le, w2)" by (metis surj_pair)
    show ?thesis
    proof (cases le)
      case (Some e)
      with assms(3) ns Inr tl have r: "w' = abandon_session m s w2" "\<exists>e. res = Inl e"
        by (auto simp: lock_Acquire_def)
      have "holder w2 ?k = holder w ?k \<or> holder w ?k = None" using D(4) tl Some h1 by metis
      with r fresh D(7) [of s w2 ?k] show ?thesis by (auto simp: abandon_session_def)
    next
      case None
      have free: "holder w ?k = None" "holder w2 ?k = Some s" using D(3) tl None h1 fresh by (auto, metis)
      obtain ae w3 where an: "annotateLease m s w2 = (ae, w3)" by (metis surj_pair)
      have "holder w3 = holder w2"
        using annotateLease_keeps [of holder m s w2] D(6) assms(2) an by simp
      with assms(3) ns Inr tl None an free show ?thesis
        by (cases ae) (auto simp: lock_Acquire_def)
    qed
  qed
qed

lemma lease_Release_holder:
  assumes "etcd_mutex (lm_client m) holder"
  shows "holder (snd (lease_Release m s w)) (lm_key m) = holder w (lm_key m) \<or>
    holder w (lm_key m) = Some s \<and> holder (snd (lease_Release m s w)) (lm_key m) = None"
  using etcd_mutexD(5) [OF assms, of s "lm_key m" w]
    etcd_mutexD(7) [OF assms, of s "snd (ec_unlock (lm_client m) s (lm_key m) w)" "lm_key m"]
  by (auto simp: lease_Release_def split_beta)

text \<open>The managers of nodes that use the same key provide the contract.\<close>

definition same_lock :: "('w \<Rightarrow> string \<Rightarrow> session option) \<Rightarrow> string \<Rightarrow> ('n \<Rightarrow> 'w lock_manager) \<Rightarrow> bool" where
  "same_lock holder key ms \<longleftrightarrow>
     (\<forall>n. etcd_mutex (lm_client (ms n)) holder \<and> clock_keeps holder (ms n) \<and> lm_key (ms n) = key)"

lemma etcd_lock_service:
  assumes "same_lock holder key ms"
  shows "lock_service (\<lambda>n. lock_Acquire (ms n)) (\<lambda>n. lease_Release (ms n)) (\<lambda>w. holder w key)"
proof
  have n: "etcd_mutex (lm_client (ms n)) holder" "clock_keeps holder (ms n)" "lm_key (ms n) = key" for n
    using assms by (simp_all add: same_lock_def)
  show "holder w key = None \<and> holder w' key = Some l" if "lock_Acquire (ms n) w = (Inr l, w')" for n w l w'
    using lock_Acquire_holder [OF n(1,2) that] n(3) by simp
  show "holder w key = None \<or> holder w' key = holder w key" if "lock_Acquire (ms n) w = (Inl e, w')" for n w e w'
    using lock_Acquire_holder [OF n(1,2) that] n(3) by simp
  show "holder w' key = holder w key \<or> holder w key = Some l \<and> holder w' key = None"
    if "lease_Release (ms n) l w = (e, w')" for n l w e w'
    using lease_Release_holder [OF n(1) [of n], where s = l and w = w] n(3) [of n] that by simp
qed

end
