(* ===== verification/EtcdMemory.thy ===== *)
theory EtcdMemory
  imports LockManager "HOL-Library.AList"
begin

text \<open>
  A client whose server is a few association lists: the concrete instance on which the hypotheses
  about the etcd client are seen to hold together, and on which the managers can be run.
\<close>

record mem =
  m_kvs :: "(string \<times> string \<times> int) list"
  m_leases :: "(int \<times> int) list"
  m_locks :: "(string \<times> session) list"
  m_open :: "session list"
  m_time :: gotime

definition mem_without :: "'k \<Rightarrow> ('k \<times> 'v) list \<Rightarrow> ('k \<times> 'v) list" where
  "mem_without k xs = List.filter (\<lambda>x. fst x \<noteq> k) xs"

lemma map_of_mem_without: "map_of (mem_without k xs) k' = (if k' = k then None else map_of xs k')"
  by (induction xs) (auto simp: mem_without_def)

definition mem_kv :: "string \<times> string \<times> int \<Rightarrow> kv" where
  "mem_kv = (\<lambda>(k, v, l). \<lparr>kv_Key = k, kv_Value = v, kv_Lease = l\<rparr>)"

definition fresh_session :: "mem \<Rightarrow> session" where
  "fresh_session w = Suc (fold max (map snd (m_locks w) @ m_open w) 0)"

definition fresh_lease :: "mem \<Rightarrow> int" where
  "fresh_lease w = fold max (map fst (m_leases w)) 0 + 1"

definition mem_put :: "string \<Rightarrow> string \<Rightarrow> int \<Rightarrow> mem \<Rightarrow> go_error option \<times> mem" where
  "mem_put k v l w = (None, w\<lparr>m_kvs := (k, v, l) # mem_without k (m_kvs w)\<rparr>)"

definition mem_tryLock :: "session \<Rightarrow> string \<Rightarrow> mem \<Rightarrow> go_error option \<times> mem" where
  "mem_tryLock s k w =
     (case map_of (m_locks w) k of
        None \<Rightarrow> (None, w\<lparr>m_locks := (k, s) # m_locks w\<rparr>)
      | Some s' \<Rightarrow> (if s' = s then None else Some (Sentinel ErrLocked), w))"

definition mem_unlock :: "session \<Rightarrow> string \<Rightarrow> mem \<Rightarrow> go_error option \<times> mem" where
  "mem_unlock s k w =
     (if map_of (m_locks w) k = Some s then (None, w\<lparr>m_locks := mem_without k (m_locks w)\<rparr>)
      else (Some (Sentinel ErrLockReleased), w))"

definition mem_closeSession :: "session \<Rightarrow> mem \<Rightarrow> go_error option \<times> mem" where
  "mem_closeSession s w =
     (None, w\<lparr>m_open := removeAll s (m_open w),
             m_locks := List.filter (\<lambda>x. map_of (m_locks w) (fst x) \<noteq> Some s) (m_locks w)\<rparr>)"

definition mem_etcd :: "mem etcd" where
  "mem_etcd = \<lparr>
     ec_get = (\<lambda>k w. (Inr (case map_of (m_kvs w) k of None \<Rightarrow> [] | Some (v, l) \<Rightarrow> [mem_kv (k, v, l)]), w)),
     ec_list = (\<lambda>p w. (Inr (map mem_kv (List.filter (\<lambda>x. HasPrefix (fst x) p) (AList.clearjunk (m_kvs w)))), w)),
     ec_put = mem_put,
     ec_delete = (\<lambda>k w. (None, w\<lparr>m_kvs := mem_without k (m_kvs w)\<rparr>)),
     ec_grant = (\<lambda>ttl w. (Inr (fresh_lease w), w\<lparr>m_leases := (fresh_lease w, ttl) # m_leases w\<rparr>)),
     ec_revoke = (\<lambda>l w. (None, w\<lparr>m_leases := mem_without l (m_leases w),
       m_kvs := List.filter (\<lambda>x. snd (snd x) \<noteq> l) (m_kvs w)\<rparr>)),
     ec_ttl = (\<lambda>l w. (Inr (case map_of (m_leases w) l of None \<Rightarrow> - 1 | Some t \<Rightarrow> t), w)),
     ec_newSession = (\<lambda>ttl w. (Inr (fresh_session w), w\<lparr>m_open := fresh_session w # m_open w\<rparr>)),
     ec_sessionLease = int,
     ec_tryLock = mem_tryLock, ec_unlock = mem_unlock,
     ec_mutexKey = (\<lambda>s k. k @ ''/'' @ show_nat s),
     ec_closeSession = mem_closeSession,
     ec_close = (\<lambda>w. (None, w))\<rparr>"

lemma fold_max_ge: "x \<in> set xs \<or> x \<le> a \<Longrightarrow> x \<le> fold max xs (a :: nat)"
  by (induction xs arbitrary: a) (auto simp: max_def)

lemma fresh_session_new:
  "map_of (m_locks w) k \<noteq> Some (fresh_session w)" "fresh_session w \<notin> set (m_open w)"
proof -
  have "x < fresh_session w" if "x \<in> snd ` set (m_locks w) \<union> set (m_open w)" for x
  proof -
    have "x \<in> set (map snd (m_locks w) @ m_open w)" using that by auto
    then show ?thesis
      unfolding fresh_session_def less_Suc_eq_le by (intro fold_max_ge) blast
  qed
  then show "map_of (m_locks w) k \<noteq> Some (fresh_session w)" "fresh_session w \<notin> set (m_open w)"
    by (auto dest!: map_of_SomeD) force+
qed

lemma mem_sessions: "tracks_sessions mem_etcd (\<lambda>w. set (m_open w))"
  using fresh_session_new(2)
  by (auto simp: tracks_sessions_def mem_etcd_def mem_tryLock_def mem_unlock_def mem_put_def
      mem_closeSession_def split: option.splits)

lemma map_of_filter_values:
  "map_of (List.filter (\<lambda>x. map_of xs (fst x) \<noteq> Some s) ys) k =
     (if map_of xs k = Some s then None else map_of ys k)"
  by (induction ys) auto

lemma mem_mutex: "etcd_mutex mem_etcd (\<lambda>w. map_of (m_locks w))"
  using fresh_session_new(1)
  by (auto simp: etcd_mutex_def mem_etcd_def mem_tryLock_def mem_unlock_def mem_put_def
      mem_closeSession_def map_of_mem_without map_of_filter_values split: option.splits if_splits)

definition mem_lock_manager :: "string \<Rightarrow> mem lock_manager" where
  "mem_lock_manager node = \<lparr>lm_client = mem_etcd, lm_key = ''/cluster/reboot'', lm_ttlSeconds = 90,
     lm_nodeName = node, lm_pid = 1, lm_now = \<lambda>w. (m_time w, w)\<rparr>"

lemma mem_same_lock: "same_lock (\<lambda>w. map_of (m_locks w)) ''/cluster/reboot'' mem_lock_manager"
  using mem_mutex by (simp add: same_lock_def mem_lock_manager_def clock_keeps_def)

lemma mem_clock: "clock_keeps f (mem_lock_manager n)"
  by (simp add: clock_keeps_def mem_lock_manager_def)

text \<open>Payloads as they are, and one timestamp.\<close>

definition mem_start :: mem where
  "mem_start = \<lparr>m_kvs = [], m_leases = [], m_locks = [], m_open = [], m_time = zero_time\<rparr>"

interpretation cluster_lock: lock_service
  "\<lambda>n. lock_Acquire (mem_lock_manager n)" "\<lambda>n. lease_Release (mem_lock_manager n)"
  "\<lambda>w. map_of (m_locks w) ''/cluster/reboot''"
  by (rule etcd_lock_service [OF mem_same_lock])

end
