(* ===== verification/ClusterLock.thy ===== *)
theory ClusterLock
  imports EtcdMemory RunOnce
begin

text \<open>
  What the etcd lock of \<open>pkg/lock/etcd_manager.go\<close> gives a cluster: mutual exclusion, sessions that
  are kept exactly as long as a lease, and errors that tell contention from failure.
\<close>

section \<open>Mutual exclusion\<close>


text \<open>Two nodes compete: the first is granted the lock, the second refused.\<close>

lemma mem_first_granted: "\<exists>w1. lock_Acquire (mem_lock_manager n) mem_start = (Inr 1, w1)"
  by (simp add: lock_Acquire_def mem_lock_manager_def mem_etcd_def mem_start_def fresh_session_def mem_tryLock_def
      annotateLease_def json_Marshal_def mem_put_def Let_def del: json_print.simps)


section \<open>Sessions\<close>

text \<open>C34: A session is kept alive exactly as long as a lease.  A refused or failed acquisition leaves the
  live sessions as they were, even when the lock had been taken and only its annotation failed; a
  granted one adds one new session, which releasing the lease ends whatever the server answers.\<close>

theorem sessions_balance:
  assumes "tracks_sessions (lm_client m) live" "clock_keeps live m" "lock_Acquire m w = (res, w1)"
  shows "case res of Inl e \<Rightarrow> live w1 = live w
    | Inr s \<Rightarrow> s \<notin> live w \<and> live w1 = insert s (live w) \<and> live (snd (lease_Release m s w1)) = live w"
  using lock_Acquire_sessions [OF assms] lease_Release_sessions [OF assms(1)]
  by (auto split: sum.splits)

lemma sessions_balance_witness:
  "\<exists>w1. lock_Acquire (mem_lock_manager ''a'') mem_start = (Inr 1, w1) \<and>
    set (m_open (snd (lease_Release (mem_lock_manager ''a'') 1 w1))) = {}"
proof -
  obtain w1 where g: "lock_Acquire (mem_lock_manager ''a'') mem_start = (Inr 1, w1)"
    using mem_first_granted by blast
  have t: "tracks_sessions (lm_client (mem_lock_manager ''a'')) (\<lambda>w. set (m_open w))"
    using mem_sessions by (simp add: mem_lock_manager_def)
  from sessions_balance [OF t mem_clock g] g show ?thesis by (auto simp: mem_start_def)
qed

section \<open>Contention\<close>

text \<open>The library does not return this package's own sentinel.\<close>

definition foreign_errors :: "'w etcd \<Rightarrow> bool" where
  "foreign_errors E \<longleftrightarrow>
     (\<forall>t w e w'. ec_newSession E t w = (Inl e, w') \<longrightarrow> \<not> errors_Is e ErrNotAcquired) \<and>
     (\<forall>s k w e w'. ec_tryLock E s k w = (Some e, w') \<longrightarrow> \<not> errors_Is e ErrNotAcquired) \<and>
     (\<forall>k v l w e w'. ec_put E k v l w = (Some e, w') \<longrightarrow> \<not> errors_Is e ErrNotAcquired)"

text \<open>C35: The runner is told that the lock is taken exactly when another session holds it: the error of a
  failed acquisition is \<open>lock: not acquired\<close>, on which the runner tries again, if and only if the
  mutex reported to be locked by another session; a session, a mutex or an annotation that fails in any
  other way never looks like contention.\<close>

theorem refusal_means_contention:
  assumes "foreign_errors (lm_client m)" "lock_Acquire m w = (Inl e, w')"
  shows "not_acquired e = (\<exists>s w1 cause w2. ec_newSession (lm_client m) (lm_ttlSeconds m) w = (Inr s, w1) \<and>
    ec_tryLock (lm_client m) s (lm_key m) w1 = (Some cause, w2) \<and> errors_Is cause ErrLocked)"
proof -
  let ?E = "lm_client m"
  obtain ns w1 where ns: "ec_newSession ?E (lm_ttlSeconds m) w = (ns, w1)" by (metis surj_pair)
  show ?thesis
  proof (cases ns)
    case (Inl c)
    then have "\<not> errors_Is c ErrNotAcquired" using assms(1) ns unfolding foreign_errors_def by blast
    with assms(2) ns Inl show ?thesis by (auto simp: lock_Acquire_def not_acquired_def)
  next
    case (Inr s)
    obtain le w2 where tl: "ec_tryLock ?E s (lm_key m) w1 = (le, w2)" by (metis surj_pair)
    show ?thesis
    proof (cases le)
      case (Some c)
      then have "\<not> errors_Is c ErrNotAcquired" using assms(1) tl unfolding foreign_errors_def by blast
      with assms(2) ns Inr tl Some show ?thesis
        by (auto simp: lock_Acquire_def not_acquired_def split: if_splits)
    next
      case None
      obtain ae w3 where an: "annotateLease m s w2 = (ae, w3)" by (metis surj_pair)
      with assms(2) ns Inr tl None obtain c where c: "ae = Some c" by (cases ae) (auto simp: lock_Acquire_def)
      have "\<exists>k v l w. ec_put ?E k v l w = (Some c, w3)"
        using an c by (auto simp: annotateLease_def json_Marshal_def Let_def split_beta)
      then have "\<not> errors_Is c ErrNotAcquired" using assms(1) unfolding foreign_errors_def by blast
      with assms(2) ns Inr tl None an c show ?thesis by (auto simp: lock_Acquire_def not_acquired_def)
    qed
  qed
qed

lemma mem_foreign: "foreign_errors mem_etcd"
  by (auto simp: foreign_errors_def mem_etcd_def mem_tryLock_def mem_put_def split: option.splits if_splits)

lemma refusal_means_contention_witness:
  "\<exists>w1 e w2. lock_Acquire (mem_lock_manager ''a'') mem_start = (Inr 1, w1) \<and>
    lock_Acquire (mem_lock_manager ''b'') w1 = (Inl e, w2) \<and> not_acquired e"
proof -
  obtain w1 where g: "lock_Acquire (mem_lock_manager ''a'') mem_start = (Inr 1, w1)"
    using mem_first_granted by blast
  obtain x w2 where x: "lock_Acquire (mem_lock_manager ''b'') w1 = (x, w2)" by (metis surj_pair)
  have taken: "map_of (m_locks w1) ''/cluster/reboot'' = Some 1" using cluster_lock.grant [OF g] by simp
  then obtain e where e: "x = Inl e" using cluster_lock.grant [of "''b''" w1 _ w2] x by (cases x) auto
  let ?m = "mem_lock_manager ''b''" and ?s = "fresh_session w1"
  have m: "lm_client ?m = mem_etcd" "lm_key ?m = ''/cluster/reboot''" by (simp_all add: mem_lock_manager_def)
  have "?s \<noteq> 1" using fresh_session_new(1) [of w1 "''/cluster/reboot''"] taken by auto
  then have "ec_tryLock mem_etcd ?s ''/cluster/reboot'' (w1\<lparr>m_open := ?s # m_open w1\<rparr>) =
      (Some (Sentinel ErrLocked), w1\<lparr>m_open := ?s # m_open w1\<rparr>)"
    using taken by (simp add: mem_etcd_def mem_tryLock_def)
  moreover have "ec_newSession mem_etcd (lm_ttlSeconds ?m) w1 = (Inr ?s, w1\<lparr>m_open := ?s # m_open w1\<rparr>)"
    by (simp add: mem_etcd_def)
  moreover have "errors_Is (Sentinel ErrLocked) ErrLocked" by simp
  ultimately have "not_acquired e"
    unfolding refusal_means_contention [of ?m, unfolded m, OF mem_foreign x [unfolded e]] by blast
  with g x e show ?thesis by blast
qed

end
