(* ===== verification/CooldownManager.thy ===== *)
theory CooldownManager
  imports EtcdMemory RunOnce
begin

text \<open>
  \<open>pkg/cooldown/etcd.go\<close>: a cooldown is a key of etcd that a lease removes when its time is over.
\<close>

record cooldown_options =
  co_Endpoints :: "string list"
  co_DialTimeout :: duration
  co_Namespace :: string
  co_Key :: string
  co_TLS :: "tls_config option"
  co_NodeName :: string

record 'w cooldown_manager =
  cm_client :: "'w etcd"
  cm_key :: string
  cm_node :: string
  cm_now :: "'w \<Rightarrow> gotime \<times> 'w"

definition cooldown_options_error :: "cooldown_options \<Rightarrow> string option" where
  "cooldown_options_error opts =
     (if co_Endpoints opts = [] then Some ''cooldown etcd manager requires at least one endpoint''
      else if TrimSpace (co_Key opts) = [] then Some ''cooldown etcd manager requires a key''
      else if TrimSpace (co_NodeName opts) = [] then Some ''cooldown etcd manager requires a node name''
      else None)"

definition NewCooldownManager :: "'w dialer \<Rightarrow> ('w \<Rightarrow> gotime \<times> 'w) \<Rightarrow> cooldown_options \<Rightarrow> 'w
    \<Rightarrow> (go_error + 'w cooldown_manager) \<times> 'w" where
  "NewCooldownManager dial now opts w =
     (case cooldown_options_error opts of
        Some msg \<Rightarrow> (Inl (ErrMsg msg), w)
      | None \<Rightarrow>
        (case dial \<lparr>di_Endpoints = co_Endpoints opts, di_DialTimeout = dial_timeout (co_DialTimeout opts),
                    di_TLS = co_TLS opts\<rparr> w of
           (Inl e, w) \<Rightarrow> (Inl (Wrapf ''create etcd client'' e), w)
         | (Inr client, w) \<Rightarrow>
           (Inr \<lparr>cm_client = client, cm_key = applyNamespace (co_Namespace opts) (TrimSpace (co_Key opts)),
                 cm_node = TrimSpace (co_NodeName opts), cm_now = now\<rparr>, w)))"

definition cooldown_Close :: "'w cooldown_manager \<Rightarrow> 'w \<Rightarrow> go_error option \<times> 'w" where
  "cooldown_Close m w = ec_close (cm_client m) w"

definition inactive :: cooldown_status where
  "inactive = \<lparr>cs_Active = False, cs_Node = [], cs_StartedAt = zero_time, cs_ExpiresAt = zero_time,
     cs_Remaining = 0\<rparr>"

section \<open>Reading\<close>

definition payload_status :: "parse_texts \<Rightarrow> string \<Rightarrow> go_error + cooldown_status" where
  "payload_status T v =
     (case cooldown_Unmarshal T v of
        Inl e \<Rightarrow> Inl (Wrapf ''parse cooldown payload'' e)
      | Inr rec \<Rightarrow>
        (case parse_timestamp T (cdr_StartedAt rec) of
           Inl e \<Rightarrow> Inl (Wrapf ''parse cooldown start timestamp'' e)
         | Inr startedAt \<Rightarrow>
           Inr \<lparr>cs_Active = True, cs_Node = cdr_Node rec, cs_StartedAt = startedAt,
                cs_ExpiresAt = (if 0 < cdr_DurationSec rec then time_Add startedAt (seconds (cdr_DurationSec rec))
                                else zero_time),
                cs_Remaining = 0\<rparr>))"

text \<open>The lease decides whether the cooldown is over, and how much of it is left.\<close>

definition lease_status :: "int \<Rightarrow> cooldown_status \<Rightarrow> cooldown_status" where
  "lease_status ttl status =
     (if ttl \<le> 0 then status\<lparr>cs_Active := False, cs_Remaining := 0\<rparr>
      else status\<lparr>cs_Remaining := (if sint (seconds ttl) < 0 then 0 else seconds ttl)\<rparr>)"

text \<open>The clock refines what is left.\<close>

definition clock_status :: "('w \<Rightarrow> gotime \<times> 'w) \<Rightarrow> cooldown_status \<Rightarrow> 'w \<Rightarrow> cooldown_status \<times> 'w" where
  "clock_status time status w =
     (if \<not> cs_Active status then (inactive, w)
      else if IsZero (cs_ExpiresAt status) then (status, w)
      else (let (t, w) = time w; remaining = time_Sub (cs_ExpiresAt status) t in
            (if 0 < sint remaining then status\<lparr>cs_Remaining := remaining\<rparr> else status, w)))"

definition cooldown_Status :: "parse_texts \<Rightarrow> ('w \<Rightarrow> gotime \<times> 'w) \<Rightarrow> 'w cooldown_manager \<Rightarrow> 'w
    \<Rightarrow> (cooldown_status \<times> go_error option) \<times> 'w" where
  "cooldown_Status T time m w =
     (case ec_get (cm_client m) (cm_key m) w of
        (Inl e, w) \<Rightarrow> ((inactive, Some (wrap_unless_context ''read cooldown key'' e)), w)
      | (Inr [], w) \<Rightarrow> ((inactive, None), w)
      | (Inr (kv # _), w) \<Rightarrow>
        (case payload_status T (kv_Value kv) of
           Inl e \<Rightarrow> ((inactive, Some e), w)
         | Inr status \<Rightarrow>
           if kv_Lease kv \<noteq> 0 then
             (case ec_ttl (cm_client m) (kv_Lease kv) w of
                (Inl e, w) \<Rightarrow> ((inactive, Some (wrap_unless_context ''query cooldown ttl'' e)), w)
              | (Inr ttl, w) \<Rightarrow>
                (let (status, w) = clock_status time (lease_status ttl status) w in ((status, None), w)))
           else (let (status, w) = clock_status time status w in ((status, None), w))))"

section \<open>Starting and clearing\<close>

definition lease_seconds :: "int \<Rightarrow> duration \<Rightarrow> int" where
  "lease_seconds u t = (let secs = ceil_seconds u t in if secs \<le> 0 then 1 else secs)"

definition cooldown_Start :: "int \<Rightarrow> 'w cooldown_manager \<Rightarrow> duration \<Rightarrow> 'w
    \<Rightarrow> go_error option \<times> 'w" where
  "cooldown_Start u m duration w =
     (if sint duration \<le> 0 then
        (let (err, w) = ec_delete (cm_client m) (cm_key m) w in
         (map_option (wrap_unless_context ''clear cooldown key'') err, w))
      else
        (let secs = lease_seconds u duration in
         case ec_grant (cm_client m) secs w of
           (Inl e, w) \<Rightarrow> (Some (wrap_unless_context ''grant cooldown lease'' e), w)
         | (Inr lease, w) \<Rightarrow>
           (let (t, w) = cm_now m w in
            case json_Marshal (cooldown_json \<lparr>cdr_Node = cm_node m, cdr_StartedAt = format_RFC3339Nano t,
                   cdr_DurationSec = secs\<rparr>) of
              Inl e \<Rightarrow> (Some e, w)
            | Inr payload \<Rightarrow>
              (case ec_put (cm_client m) (cm_key m) payload lease w of
                 (Some e, w) \<Rightarrow>
                   (Some (wrap_unless_context ''store cooldown payload'' e), snd (ec_revoke (cm_client m) lease w))
               | (None, w) \<Rightarrow> (None, w)))))"

section \<open>The contract of a cooldown\<close>

text \<open>
  \<open>active\<close> is what the contract speaks about: after a window has been started a cooldown is active,
  after it has been cleared none is, and the status tells which, unless it fails.
\<close>

locale cooldown_service =
  fixes start :: "duration \<Rightarrow> 'w \<Rightarrow> go_error option \<times> 'w"
    and status :: "'w \<Rightarrow> (cooldown_status \<times> go_error option) \<times> 'w"
    and active :: "'w \<Rightarrow> bool"
  assumes started: "start t w = (None, w') \<Longrightarrow> 0 < sint t \<Longrightarrow> active w'"
    and cleared: "start t w = (None, w') \<Longrightarrow> \<not> 0 < sint t \<Longrightarrow> \<not> active w'"
    and told: "status w = ((st, None), w') \<Longrightarrow> cs_Active st = active w"
begin

lemma start_status:
  "start t w = (None, w1) \<Longrightarrow> status w1 = ((st, None), w2) \<Longrightarrow> cs_Active st = (0 < sint t)"
  using started cleared told by blast

text \<open>A pass that asks while the cooldown is active stops there.\<close>

lemma active_stops_pass:
  fixes d :: "'w deps"
  assumes "d_cooldownStatus d = status" "r_cooldown r" "0 < sint (r_cooldownWindow r)"
    and "active (st_world s)"
  shows "\<exists>out' err s'. check_cooldown d r out s = (Inl (out', err), s') \<and>
    (err = None \<longrightarrow> Status out' = Some OutcomeCooldownActive)"
proof -
  obtain st err w' where q: "status (st_world s) = ((st, err), w')" by (metis prod_cases3 prod.collapse)
  have "err = None \<Longrightarrow> cs_Active st" using told q assms(4) by blast
  then show ?thesis
    using assms(1-3) q
    by (cases err) (auto simp: check_cooldown_def invoke_def stop_with_def split_beta Let_def)
qed

end

section \<open>The etcd manager keeps the contract\<close>

text \<open>
  What the client library documents of keys and leases: \<open>view\<close> is the content of the store with the
  lease of every key, \<open>ttl\<close> the seconds a lease has left.
\<close>

definition keeps_values :: "'w etcd \<Rightarrow> ('w \<Rightarrow> string \<rightharpoonup> string \<times> int) \<Rightarrow> ('w \<Rightarrow> int \<Rightarrow> int) \<Rightarrow> bool" where
  "keeps_values E view ttl \<longleftrightarrow>
     (\<forall>k w. case ec_get E k w of (Inl e, w') \<Rightarrow> True
        | (Inr kvs, w') \<Rightarrow> ttl w' = ttl w \<and>
            kvs = (case view w k of None \<Rightarrow> [] | Some (v, l) \<Rightarrow> [\<lparr>kv_Key = k, kv_Value = v, kv_Lease = l\<rparr>])) \<and>
     (\<forall>k v l w. case ec_put E k v l w of (Some e, w') \<Rightarrow> True
        | (None, w') \<Rightarrow> view w' = (view w)(k \<mapsto> (v, l)) \<and> ttl w' = ttl w) \<and>
     (\<forall>k w. case ec_delete E k w of (Some e, w') \<Rightarrow> True | (None, w') \<Rightarrow> view w' k = None) \<and>
     (\<forall>n w. case ec_grant E n w of (Inl e, w') \<Rightarrow> True
        | (Inr l, w') \<Rightarrow> l \<noteq> 0 \<and> n \<le> ttl w' l) \<and>
     (\<forall>l w. case ec_ttl E l w of (Inl e, w') \<Rightarrow> True | (Inr t, w') \<Rightarrow> t = ttl w l)"

definition cooldown_active ::
    "('w \<Rightarrow> string \<rightharpoonup> string \<times> int) \<Rightarrow> ('w \<Rightarrow> int \<Rightarrow> int) \<Rightarrow> string \<Rightarrow> 'w \<Rightarrow> bool" where
  "cooldown_active view ttl key w =
     (case view w key of None \<Rightarrow> False | Some (v, l) \<Rightarrow> l = 0 \<or> 0 < ttl w l)"

lemma clock_status_active: "cs_Active (fst (clock_status time st w)) = cs_Active st"
  by (simp add: clock_status_def inactive_def Let_def split_beta)

lemma lease_status_active: "cs_Active (lease_status t st) = (cs_Active st \<and> 0 < t)"
  by (simp add: lease_status_def not_le)

lemma payload_status_active: "payload_status T v = Inr st \<Longrightarrow> cs_Active st"
  by (auto simp: payload_status_def split: sum.splits)

lemma cooldown_Status_told:
  assumes "keeps_values (cm_client m) view ttl" "cooldown_Status T time m w = ((st, None), w')"
  shows "cs_Active st = cooldown_active view ttl (cm_key m) w"
proof -
  let ?E = "cm_client m" and ?k = "cm_key m"
  obtain x w1 where get: "ec_get ?E ?k w = (x, w1)" by (metis surj_pair)
  from assms(2) get obtain kvs where x: "x = Inr kvs" by (cases x) (auto simp: cooldown_Status_def)
  have G: "ttl w1 = ttl w"
    "kvs = (case view w ?k of None \<Rightarrow> [] | Some (v, l) \<Rightarrow> [\<lparr>kv_Key = ?k, kv_Value = v, kv_Lease = l\<rparr>])"
    using assms(1) [unfolded keeps_values_def, THEN conjunct1, THEN spec, of ?k, THEN spec, of w] get x by simp_all
  show ?thesis
  proof (cases "view w ?k")
    case None
    with assms(2) get x G show ?thesis
      by (auto simp: cooldown_Status_def cooldown_active_def inactive_def)
  next
    case (Some p)
    obtain v l where p: "p = (v, l)" by (cases p)
    obtain st0 where st0: "payload_status T v = Inr st0"
      using assms(2) get x G Some p by (cases "payload_status T v") (auto simp: cooldown_Status_def)
    note act = payload_status_active [OF st0]
    show ?thesis
    proof (cases "l = 0")
      case True
      with assms(2) get x G Some p st0 act clock_status_active [of time st0 w1] show ?thesis
        by (auto simp: cooldown_Status_def cooldown_active_def split: prod.splits)
    next
      case False
      obtain t w2 where q: "ec_ttl ?E l w1 = (t, w2)" by (metis surj_pair)
      obtain n where t: "t = Inr n"
        using assms(2) get x G Some p st0 False q by (cases t) (auto simp: cooldown_Status_def)
      have "n = ttl w1 l"
        using assms(1) [unfolded keeps_values_def, THEN conjunct2, THEN conjunct2, THEN conjunct2,
          THEN conjunct2, THEN spec, of l, THEN spec, of w1] q t by simp
      with assms(2) get x G Some p st0 False q t act
        clock_status_active [of time "lease_status n st0" w2] lease_status_active [of n st0]
      show ?thesis by (auto simp: cooldown_Status_def cooldown_active_def split: prod.splits)
    qed
  qed
qed


definition quiet_clock :: "('w \<Rightarrow> string \<rightharpoonup> string \<times> int) \<Rightarrow> ('w \<Rightarrow> int \<Rightarrow> int) \<Rightarrow> ('w \<Rightarrow> gotime \<times> 'w) \<Rightarrow> bool" where
  "quiet_clock view ttl now \<longleftrightarrow> (\<forall>w. view (snd (now w)) = view w \<and> ttl (snd (now w)) = ttl w)"

text \<open>What a successful start leaves: the record of the node that started it, under a live lease.\<close>

definition started_record :: "int \<Rightarrow> 'w cooldown_manager \<Rightarrow> duration \<Rightarrow> gotime \<Rightarrow> cooldown_record" where
  "started_record u m t now =
     \<lparr>cdr_Node = cm_node m, cdr_StartedAt = format_RFC3339Nano now, cdr_DurationSec = lease_seconds u t\<rparr>"

lemma lease_seconds_pos: "0 < lease_seconds u t"
  by (simp add: lease_seconds_def Let_def)

lemma cooldown_Start_stores:
  assumes "keeps_values (cm_client m) view ttl" "quiet_clock view ttl (cm_now m)"
    and "cooldown_Start u m t w = (None, w')" "0 < sint t"
  shows "\<exists>l. view w' (cm_key m) =
      Some (json_print (cooldown_json (started_record u m t
              (fst (cm_now m (snd (ec_grant (cm_client m) (lease_seconds u t) w)))))), l) \<and>
    l \<noteq> 0 \<and> 0 < ttl w' l"
proof -
  let ?E = "cm_client m" and ?n = "lease_seconds u t"
  obtain g w1 where g: "ec_grant ?E ?n w = (g, w1)" by (metis surj_pair)
  obtain l where l: "g = Inr l" using assms(3,4) g by (cases g) (auto simp: cooldown_Start_def Let_def)
  obtain now w2 where n: "cm_now m w1 = (now, w2)" by (metis surj_pair)
  let ?v = "json_print (cooldown_json (started_record u m t now))"
  have put: "ec_put ?E (cm_key m) ?v l w2 = (None, w')"
    using assms(3,4) g l n
    by (auto simp: cooldown_Start_def Let_def json_Marshal_def started_record_def split: prod.splits option.splits)
  have "l \<noteq> 0" "?n \<le> ttl w1 l"
    using assms(1) [unfolded keeps_values_def, THEN conjunct2, THEN conjunct2, THEN conjunct2, THEN conjunct1,
        THEN spec, of ?n, THEN spec, of w] g l by simp_all
  moreover have "ttl w2 = ttl w1" using assms(2) n by (metis quiet_clock_def snd_conv)
  moreover have "view w' = (view w2)(cm_key m \<mapsto> (?v, l))" "ttl w' = ttl w2"
    using assms(1) [unfolded keeps_values_def, THEN conjunct2, THEN conjunct1, THEN spec, of "cm_key m",
        THEN spec, of ?v, THEN spec, of l, THEN spec, of w2] put by simp_all
  ultimately show ?thesis using g n lease_seconds_pos [of u t] by simp
qed

lemma cooldown_Start_clears:
  assumes "keeps_values (cm_client m) view ttl"
    and "cooldown_Start u m t w = (None, w')" "\<not> 0 < sint t"
  shows "view w' (cm_key m) = None"
proof -
  have "ec_delete (cm_client m) (cm_key m) w = (None, w')"
    using assms(2,3) by (auto simp: cooldown_Start_def Let_def split: prod.splits)
  then show ?thesis
    using assms(1) [unfolded keeps_values_def, THEN conjunct2, THEN conjunct2, THEN conjunct1,
        THEN spec, of "cm_key m", THEN spec, of w] by simp
qed

lemma etcd_cooldown_service:
  assumes "keeps_values (cm_client m) view ttl" "quiet_clock view ttl (cm_now m)"
  shows "cooldown_service (cooldown_Start u m) (cooldown_Status T time m) (cooldown_active view ttl (cm_key m))"
proof
  fix t w w'
  assume "cooldown_Start u m t w = (None, w')" "0 < sint t"
  from cooldown_Start_stores [OF assms this] show "cooldown_active view ttl (cm_key m) w'"
    by (auto simp: cooldown_active_def)
next
  fix t w w'
  assume "cooldown_Start u m t w = (None, w')" "\<not> 0 < sint t"
  from cooldown_Start_clears [OF assms(1) this] show "\<not> cooldown_active view ttl (cm_key m) w'"
    by (simp add: cooldown_active_def)
next
  fix w st w'
  assume "cooldown_Status T time m w = ((st, None), w')"
  from cooldown_Status_told [OF assms(1) this] show "cs_Active st = cooldown_active view ttl (cm_key m) w" .
qed

section \<open>The record is read back\<close>

lemma payload_status_started:
  assumes "valid_utf8 (cm_node m)" "in_int64 (lease_seconds u t)" "four_digit_year now"
  shows "payload_status T (json_print (cooldown_json (started_record u m t now))) = Inr
    \<lparr>cs_Active = True, cs_Node = cm_node m, cs_StartedAt = in_UTC now,
     cs_ExpiresAt = time_Add (in_UTC now) (seconds (lease_seconds u t)), cs_Remaining = 0\<rparr>"
proof -
  have "cooldown_Unmarshal T (json_print (cooldown_json (started_record u m t now))) = Inr (started_record u m t now)"
    using assms(1,2) valid_utf8_format by (intro cooldown_roundtrip) (simp_all add: started_record_def)
  moreover have "parse_timestamp T (format_RFC3339Nano now) = Inr (in_UTC now)"
    by (simp add: parse_timestamp_def or_text_def time_Parse_format [OF assms(3)] in_UTC_def)
  ultimately show ?thesis
    using lease_seconds_pos [of u t] by (simp add: payload_status_def started_record_def)
qed


section \<open>Whole seconds are exact\<close>

lemma ceil_seconds_whole:
  assumes "0 \<le> n" "n \<le> 9223372036"
  shows "ceil_seconds u (seconds n) = n"
proof -
  have s: "sint (seconds n) = n * 1000000000" using assms by (rule sint_seconds_bounded)
  have q: "n * 1000000000 smod 1000000000 = 0" "n * 1000000000 sdiv 1000000000 = n"
    using assms(1) by (cases "n = 0"; simp add: signed_modulo_int_def signed_divide_int_def sgn_mult)+
  have n: "float_of_int n = Fin (of_int n)" using assms by (intro float_of_int_exact) simp_all
  then have "fl (of_int n) = Fin (of_int n)" by (simp add: float_of_int_def)
  then have "Seconds (seconds n) = Fin (of_int n)"
    using q n by (simp add: Seconds_def s float_of_int_def fl_def [of 0])
  then show ?thesis
    using assms by (simp add: ceil_seconds_def in_int64_def)
qed

section \<open>The memory client\<close>

definition mem_view :: "mem \<Rightarrow> string \<rightharpoonup> string \<times> int" where
  "mem_view w = map_of (m_kvs w)"

definition mem_ttl :: "mem \<Rightarrow> int \<Rightarrow> int" where
  "mem_ttl w l = (case map_of (m_leases w) l of None \<Rightarrow> - 1 | Some t \<Rightarrow> t)"

definition mem_cooldown_manager :: "string \<Rightarrow> mem cooldown_manager" where
  "mem_cooldown_manager node = \<lparr>cm_client = mem_etcd, cm_key = ''/cluster/cooldown'', cm_node = node,
     cm_now = \<lambda>w. (m_time w, w)\<rparr>"

lemma fold_max_ge_int: "a \<le> fold max xs (a :: int)"
  by (induction xs arbitrary: a) (auto intro: order_trans [OF max.cobounded2])

lemma fresh_lease_pos: "0 < fresh_lease w"
  using fold_max_ge_int [of 0 "map fst (m_leases w)"] by (simp add: fresh_lease_def)

lemma mem_values: "keeps_values mem_etcd mem_view mem_ttl"
  using fresh_lease_pos
  by (auto simp: keeps_values_def mem_etcd_def mem_view_def mem_ttl_def mem_put_def mem_kv_def
      map_of_mem_without less_le split: option.splits)

lemma mem_quiet: "quiet_clock mem_view mem_ttl (cm_now (mem_cooldown_manager n))"
  by (simp add: quiet_clock_def mem_cooldown_manager_def)

interpretation cluster_cooldown: cooldown_service
  "cooldown_Start u (mem_cooldown_manager n)" "cooldown_Status T time (mem_cooldown_manager n)"
  "cooldown_active mem_view mem_ttl ''/cluster/cooldown''" for u n T time
  using etcd_cooldown_service [OF _ mem_quiet, of n u T time] mem_values
  by (simp add: mem_cooldown_manager_def)


section \<open>Claims\<close>

lemma cooldown_Status_of_record:
  assumes K: "keeps_values (cm_client m) view ttl" and v: "view w (cm_key m) = Some (x, l)" "l \<noteq> 0" "0 < ttl w l"
    and p: "payload_status T x = Inr st0" and st: "cooldown_Status T time m w = ((st, err), w')"
  shows "case err of
      None \<Rightarrow> cs_Active st \<and> cs_Node st = cs_Node st0 \<and> cs_StartedAt st = cs_StartedAt st0 \<and>
        cs_ExpiresAt st = cs_ExpiresAt st0
    | Some e \<Rightarrow> st = inactive \<and>
        ((\<exists>e' v. ec_get (cm_client m) (cm_key m) w = (Inl e', v)) \<or>
         (\<exists>e' l v v'. ec_ttl (cm_client m) l v = (Inl e', v')))"
proof -
  let ?E = "cm_client m" and ?k = "cm_key m"
  note act = payload_status_active [OF p]
  obtain g w1 where g: "ec_get ?E ?k w = (g, w1)" by (metis surj_pair)
  show ?thesis
  proof (cases g)
    case (Inl e)
    with st g show ?thesis by (auto simp: cooldown_Status_def)
  next
    case (Inr kvs)
    have G: "ttl w1 = ttl w" "kvs = [\<lparr>kv_Key = ?k, kv_Value = x, kv_Lease = l\<rparr>]"
      using K [unfolded keeps_values_def, THEN conjunct1, THEN spec, of ?k, THEN spec, of w] g Inr v(1) by simp_all
    obtain q w2 where q: "ec_ttl ?E l w1 = (q, w2)" by (metis surj_pair)
    show ?thesis
    proof (cases q)
      case (Inl e)
      with q have fails: "\<exists>e' l v v'. ec_ttl ?E l v = (Inl e', v')" by blast
      have "st = inactive \<and> err = Some (wrap_unless_context ''query cooldown ttl'' e)"
        using st g Inr G q p v(2) Inl by (auto simp: cooldown_Status_def)
      with fails show ?thesis by simp
    next
      case Q: (Inr n)
      have "n = ttl w1 l"
        using K [unfolded keeps_values_def, THEN conjunct2, THEN conjunct2, THEN conjunct2,
          THEN conjunct2, THEN spec, of l, THEN spec, of w1] q Q by simp
      then have "0 < n" using G(1) v(3) by simp
      then show ?thesis
        using st g Inr G(2) q Q p v(2) act
        by (auto simp: cooldown_Status_def clock_status_def lease_status_def Let_def split: prod.splits if_splits)
    qed
  qed
qed

text \<open>C8: Once a node has started a cooldown, every manager of the cluster with the same key reports, as
  long as the record is not replaced and its lease lives, an active cooldown with the name of that node
  and the times its clock showed, to the nanosecond; the only other answer is an error of the client.\<close>

theorem cooldown_seen_by_all:
  assumes "keeps_values (cm_client m) view ttl" "quiet_clock view ttl (cm_now m)"
    and "cm_client m' = cm_client m" "cm_key m' = cm_key m"
    and "valid_utf8 (cm_node m)" "in_int64 (lease_seconds u t)"
    and "cm_now m (snd (ec_grant (cm_client m) (lease_seconds u t) w)) = (now, v)" "four_digit_year now"
    and "cooldown_Start u m t w = (None, w1)" "0 < sint t"
    and "view w2 (cm_key m) = view w1 (cm_key m)" "\<forall>l. 0 < ttl w1 l \<longrightarrow> 0 < ttl w2 l"
    and "cooldown_Status T time m' w2 = ((st, err), w3)"
  shows "case err of
      None \<Rightarrow> cs_Active st \<and> cs_Node st = cm_node m \<and> cs_StartedAt st = in_UTC now \<and>
        cs_ExpiresAt st = time_Add (in_UTC now) (seconds (lease_seconds u t))
    | Some e \<Rightarrow> st = inactive \<and> ((\<exists>e' v. ec_get (cm_client m) (cm_key m) w2 = (Inl e', v)) \<or>
        (\<exists>e' l v v'. ec_ttl (cm_client m) l v = (Inl e', v')))"
proof -
  from cooldown_Start_stores [OF assms(1,2,9,10)] obtain l where
    l: "view w1 (cm_key m) = Some (json_print (cooldown_json (started_record u m t now)), l)" "l \<noteq> 0" "0 < ttl w1 l"
    unfolding assms(7) fst_conv by blast
  have K: "keeps_values (cm_client m') view ttl" using assms(1,3) by simp
  have "view w2 (cm_key m') = Some (json_print (cooldown_json (started_record u m t now)), l)" "0 < ttl w2 l"
    using l assms(4,11,12) by simp_all
  from cooldown_Status_of_record [OF K this(1) l(2) this(2) payload_status_started [OF assms(5,6,8)] assms(13)]
  show ?thesis using assms(3,4) by (auto split: option.splits)
qed

definition mem_texts :: parse_texts where
  "mem_texts = \<lparr>pt_json = \<lambda>s. ''not a payload'', pt_time = \<lambda>s. ''not a time''\<rparr>"

definition noon :: mem where
  "noon = mem_start\<lparr>m_time := \<lparr>t_ns = 63870336000 * 1000000000 + 123456789, t_offset = 3600\<rparr>\<rparr>"

lemma seconds_300: "seconds 300 = 300000000000"
  by (simp add: seconds_def Second_def)

lemma mem_Start: "0 < sint t \<Longrightarrow> \<exists>w1. cooldown_Start u (mem_cooldown_manager n) t w = (None, w1)"
  by (simp add: cooldown_Start_def mem_cooldown_manager_def mem_etcd_def mem_put_def json_Marshal_def Let_def
      del: json_print.simps)

lemma mem_cooldown_simps [simp]:
  "cm_client (mem_cooldown_manager n) = mem_etcd" "cm_key (mem_cooldown_manager n) = ''/cluster/cooldown''"
  "cm_node (mem_cooldown_manager n) = n" "cm_now (mem_cooldown_manager n) w = (m_time w, w)"
  by (simp_all add: mem_cooldown_manager_def)

lemma mem_never_fails [simp]: "fst (ec_get mem_etcd k w) \<noteq> Inl e" "fst (ec_ttl mem_etcd l w) \<noteq> Inl e"
  by (simp_all add: mem_etcd_def)

lemma cooldown_seen_by_all_witness:
  "\<exists>w1 st w3. cooldown_Start 0 (mem_cooldown_manager ''a'') (seconds 300) noon = (None, w1) \<and>
    cooldown_Status mem_texts (\<lambda>w. (m_time w, w)) (mem_cooldown_manager ''b'') w1 = ((st, None), w3) \<and>
    cs_Active st \<and> cs_Node st = ''a''"
proof -
  let ?A = "mem_cooldown_manager ''a''" and ?B = "mem_cooldown_manager ''b''"
  have n: "lease_seconds 0 (seconds 300) = 300" by (simp add: lease_seconds_def ceil_seconds_whole)
  have pos: "0 < sint (seconds 300)" by (simp add: sint_seconds_bounded)
  obtain w1 where w1: "cooldown_Start 0 ?A (seconds 300) noon = (None, w1)" using mem_Start [OF pos] by blast
  let ?S = "cooldown_Status mem_texts (\<lambda>w. (m_time w, w)) ?B w1"
  obtain st err w3 where st: "?S = ((st, err), w3)" by (cases ?S; cases "fst ?S") simp
  have g: "snd (ec_grant (cm_client ?A) (lease_seconds 0 (seconds 300)) noon) =
      noon\<lparr>m_leases := (1, 300) # m_leases noon\<rparr>"
    by (simp add: n mem_etcd_def fresh_lease_def noon_def mem_start_def)
  have t: "cm_now ?A (snd (ec_grant (cm_client ?A) (lease_seconds 0 (seconds 300)) noon)) =
      (m_time noon, noon\<lparr>m_leases := (1, 300) # m_leases noon\<rparr>)"
    unfolding g by simp
  have y: "four_digit_year (m_time noon)" by code_simp
  have u: "valid_utf8 (cm_node ?A)" by (simp add: valid_utf8_ascii byte_def)
  have i: "in_int64 (lease_seconds 0 (seconds 300))" by (simp add: n in_int64_def)
  have K: "keeps_values (cm_client ?A) mem_view mem_ttl" using mem_values by simp
  have "case err of None \<Rightarrow> cs_Active st \<and> cs_Node st = cm_node ?A \<and> cs_StartedAt st = in_UTC (m_time noon) \<and>
        cs_ExpiresAt st = time_Add (in_UTC (m_time noon)) (seconds (lease_seconds 0 (seconds 300)))
    | Some e \<Rightarrow> st = inactive \<and> ((\<exists>e' v. ec_get (cm_client ?A) (cm_key ?A) w1 = (Inl e', v)) \<or>
        (\<exists>e' l v v'. ec_ttl (cm_client ?A) l v = (Inl e', v')))"
    by (rule cooldown_seen_by_all [OF K mem_quiet _ _ u i t y w1 pos _ _ st]) simp_all
  moreover have "ec_get mem_etcd k w \<noteq> (Inl e, v)" "ec_ttl mem_etcd l w \<noteq> (Inl e, v)" for k l w e v
    using mem_never_fails(1) [of k w e] mem_never_fails(2) [of l w e] by (metis fst_conv)+
  ultimately have "err = None \<and> cs_Active st \<and> cs_Node st = ''a''"
    by (auto split: option.splits)
  with w1 st show ?thesis by blast
qed



end
