(* ===== verification/HealthManager.thy ===== *)
theory HealthManager
  imports CooldownManager
begin

text \<open>
  \<open>pkg/clusterhealth/etcd.go\<close>: the health of the nodes, one key per node below a common prefix.
\<close>

record health_options =
  ho_Endpoints :: "string list"
  ho_DialTimeout :: duration
  ho_Namespace :: string
  ho_Prefix :: string
  ho_TLS :: "tls_config option"
  ho_NodeName :: string

record 'w health_manager =
  hm_client :: "'w etcd"
  hm_prefix :: string
  hm_node :: string
  hm_now :: "'w \<Rightarrow> gotime \<times> 'w"
  hm_nodePath :: string

definition NewHealthManager :: "'w dialer \<Rightarrow> ('w \<Rightarrow> gotime \<times> 'w) \<Rightarrow> health_options \<Rightarrow> 'w
    \<Rightarrow> (go_error + 'w health_manager) \<times> 'w" where
  "NewHealthManager dial now opts w =
     (if ho_Endpoints opts = [] then
        (Inl (ErrMsg ''cluster health manager requires at least one etcd endpoint''), w)
      else
        (let trimmed = TrimSpace (ho_Prefix opts);
             trimmedPrefix = (if trimmed = [] then ''cluster_health'' else trimmed);
             node = TrimSpace (ho_NodeName opts)
         in if node = [] then (Inl (ErrMsg ''cluster health manager requires a node name''), w)
            else
              (case dial \<lparr>di_Endpoints = ho_Endpoints opts, di_DialTimeout = dial_timeout (ho_DialTimeout opts),
                          di_TLS = ho_TLS opts\<rparr> w of
                 (Inl e, w) \<Rightarrow> (Inl (Wrapf ''create etcd client'' e), w)
               | (Inr client, w) \<Rightarrow>
                 (let prefix = TrimRightByte (CHR ''/'') (applyNamespace (ho_Namespace opts) trimmedPrefix) in
                  (Inr \<lparr>hm_client = client, hm_prefix = prefix, hm_node = node, hm_now = now,
                        hm_nodePath = path_Join [prefix, node]\<rparr>, w)))))"

definition health_Close :: "'w health_manager \<Rightarrow> 'w \<Rightarrow> go_error option \<times> 'w" where
  "health_Close m w = ec_close (hm_client m) w"

section \<open>Reporting\<close>

definition put_payload :: "'w health_manager \<Rightarrow> bool \<Rightarrow> string \<Rightarrow> string \<Rightarrow> 'w \<Rightarrow> go_error option \<times> 'w" where
  "put_payload m healthy stage reason w =
     (let (t, w) = hm_now m w in
      case json_Marshal (health_json \<lparr>pl_Node = hm_node m, pl_Healthy = healthy, pl_Stage = stage,
             pl_Reason = reason, pl_ReportedAt = format_RFC3339Nano t\<rparr>) of
        Inl e \<Rightarrow> (Some e, w)
      | Inr encoded \<Rightarrow>
        (let (err, w) = ec_put (hm_client m) (hm_nodePath m) encoded 0 w in
         (map_option (wrap_unless_context ''store cluster health entry'') err, w)))"

definition etcd_ReportHealthy :: "'w health_manager \<Rightarrow> 'w \<Rightarrow> go_error option \<times> 'w" where
  "etcd_ReportHealthy m w = put_payload m True [] [] w"

definition etcd_ReportUnhealthy :: "'w health_manager \<Rightarrow> health_report \<Rightarrow> 'w \<Rightarrow> go_error option \<times> 'w" where
  "etcd_ReportUnhealthy m rep w = put_payload m False (TrimSpace (hp_Stage rep)) (TrimSpace (hp_Reason rep)) w"

section \<open>Listing\<close>

definition list_prefix :: "'w health_manager \<Rightarrow> string" where
  "list_prefix m =
     (let prefix = (if hm_prefix m = [] then ''/'' else hm_prefix m)
      in if HasSuffix prefix ''/'' then prefix else prefix @ ''/'')"

definition record_of_kv :: "parse_texts \<Rightarrow> string \<Rightarrow> kv \<Rightarrow> go_error + cluster_record" where
  "record_of_kv T prefix kv =
     (case health_Unmarshal T (kv_Value kv) of
        Inl e \<Rightarrow> Inl (Wrapf ''parse cluster health payload'' e)
      | Inr p \<Rightarrow>
        (case parse_timestamp T (pl_ReportedAt p) of
           Inl e \<Rightarrow> Inl (Wrapf ''parse cluster health timestamp'' e)
         | Inr reportedAt \<Rightarrow>
           Inr \<lparr>cr_Node = (if pl_Node p = [] then TrimPrefix (kv_Key kv) prefix else pl_Node p),
                cr_Healthy = pl_Healthy p, cr_Stage = pl_Stage p, cr_Reason = pl_Reason p,
                cr_ReportedAt = reportedAt\<rparr>))"

fun records_of :: "parse_texts \<Rightarrow> string \<Rightarrow> kv list \<Rightarrow> go_error + cluster_record list" where
  "records_of T prefix [] = Inr []"
| "records_of T prefix (kv # kvs) =
     (case record_of_kv T prefix kv of
        Inl e \<Rightarrow> Inl e
      | Inr r \<Rightarrow> (case records_of T prefix kvs of Inl e \<Rightarrow> Inl e | Inr rs \<Rightarrow> Inr (r # rs)))"

definition etcd_HealthStatus :: "parse_texts \<Rightarrow> 'w health_manager \<Rightarrow> 'w
    \<Rightarrow> (cluster_record list \<times> go_error option) \<times> 'w" where
  "etcd_HealthStatus T m w =
     (case ec_list (hm_client m) (list_prefix m) w of
        (Inl e, w) \<Rightarrow> (([], Some (wrap_unless_context ''list cluster health entries'' e)), w)
      | (Inr kvs, w) \<Rightarrow>
        (case records_of T (list_prefix m) kvs of
           Inl e \<Rightarrow> (([], Some e), w)
         | Inr rs \<Rightarrow> ((rs, None), w)))"

section \<open>The key of a node lies below the prefix\<close>

text \<open>The prefix that results from a namespace and a prefix of plain segments.\<close>

definition plain_path :: "string \<Rightarrow> bool" where
  "plain_path p \<longleftrightarrow> (\<exists>xs. xs \<noteq> [] \<and> list_all plain_segment xs \<and> p = ''/'' @ Join xs ''/'')"

lemma HasSuffix_last: "HasSuffix s [c] \<longleftrightarrow> s \<noteq> [] \<and> last s = c"
  by (cases s rule: rev_cases) (auto simp: HasSuffix_def HasPrefix_def)

lemma last_Join_plain:
  "xs \<noteq> [] \<Longrightarrow> list_all plain_segment xs \<Longrightarrow> Join xs ''/'' \<noteq> [] \<and> last (Join xs ''/'') \<noteq> CHR ''/''"
proof (induction xs)
  case (Cons x xs)
  have x: "x \<noteq> []" "CHR ''/'' \<notin> set x" using Cons.prems(2) by (simp_all add: plain_segment_def)
  then have "last x \<noteq> CHR ''/''" by (metis last_in_set)
  with Cons x show ?case by (cases xs) (auto simp: last_append)
qed simp

lemma nodePath_listed:
  assumes "plain_path (hm_prefix m)" "plain_segment (hm_node m)"
    and "hm_nodePath m = path_Join [hm_prefix m, hm_node m]"
  shows "list_prefix m = hm_prefix m @ ''/''" "hm_nodePath m = list_prefix m @ hm_node m"
proof -
  obtain xs where xs: "xs \<noteq> []" "list_all plain_segment xs" "hm_prefix m = ''/'' @ Join xs ''/''"
    using assms(1) by (auto simp: plain_path_def)
  have "last (''/'' @ Join xs ''/'') \<noteq> CHR ''/''" using last_Join_plain [OF xs(1,2)] by simp
  then have "\<not> HasSuffix (''/'' @ Join xs ''/'') ''/''" by (simp only: HasSuffix_last) simp
  then show p: "list_prefix m = hm_prefix m @ ''/''" unfolding list_prefix_def xs(3) Let_def by simp
  show "hm_nodePath m = list_prefix m @ hm_node m"
    unfolding p unfolding assms(3) xs(3) using path_Join_plain [OF xs(1,2) assms(2)] by simp
qed


section \<open>The contract of the registry\<close>

text \<open>Steps of other nodes than \<open>n\<close>: they report, successfully or not, or something happens that
  leaves the registry alone.\<close>

inductive others_report :: "('n \<Rightarrow> 'w \<Rightarrow> go_error option \<times> 'w) \<Rightarrow> ('n \<Rightarrow> health_report \<Rightarrow> 'w \<Rightarrow> go_error option \<times> 'w)
    \<Rightarrow> ('w \<Rightarrow> 'n \<Rightarrow> cluster_record option) \<Rightarrow> 'n \<Rightarrow> 'w \<Rightarrow> 'w \<Rightarrow> bool"
  for healthy unhealthy told n where
  other_healthy: "n' \<noteq> n \<Longrightarrow> healthy n' w = (e, w') \<Longrightarrow> others_report healthy unhealthy told n w w'"
| other_unhealthy: "n' \<noteq> n \<Longrightarrow> unhealthy n' rep w = (e, w') \<Longrightarrow> others_report healthy unhealthy told n w w'"
| other_step: "told w' = told w \<Longrightarrow> others_report healthy unhealthy told n w w'"

inductive_cases others_reportE: "others_report healthy unhealthy told n w w'"

definition ascii_report :: "health_report \<Rightarrow> bool" where
  "ascii_report rep \<longleftrightarrow> ascii (hp_Stage rep) \<and> ascii (hp_Reason rep)"

definition unhealthy_record :: "string \<Rightarrow> health_report \<Rightarrow> gotime \<Rightarrow> cluster_record" where
  "unhealthy_record node rep t = \<lparr>cr_Node = node, cr_Healthy = False, cr_Stage = TrimSpace (hp_Stage rep),
     cr_Reason = TrimSpace (hp_Reason rep), cr_ReportedAt = t\<rparr>"

definition healthy_record :: "string \<Rightarrow> gotime \<Rightarrow> cluster_record" where
  "healthy_record node t = \<lparr>cr_Node = node, cr_Healthy = True, cr_Stage = [], cr_Reason = [],
     cr_ReportedAt = t\<rparr>"

locale health_registry =
  fixes healthy :: "'n \<Rightarrow> 'w \<Rightarrow> go_error option \<times> 'w"
    and unhealthy :: "'n \<Rightarrow> health_report \<Rightarrow> 'w \<Rightarrow> go_error option \<times> 'w"
    and status :: "'n \<Rightarrow> 'w \<Rightarrow> (cluster_record list \<times> go_error option) \<times> 'w"
    and told :: "'w \<Rightarrow> 'n \<Rightarrow> cluster_record option"
    and name :: "'n \<Rightarrow> string"
  assumes told_healthy: "healthy n w = (None, w') \<Longrightarrow>
      \<exists>t. told w' n = Some (healthy_record (name n) t)"
    and told_unhealthy: "unhealthy n rep w = (None, w') \<Longrightarrow> ascii_report rep \<Longrightarrow>
      \<exists>t. told w' n = Some (unhealthy_record (name n) rep t)"
    and healthy_own: "n' \<noteq> n \<Longrightarrow> told (snd (healthy n' w)) n = told w n"
    and unhealthy_own: "n' \<noteq> n \<Longrightarrow> told (snd (unhealthy n' rep w)) n = told w n"
    and listed: "status m w = ((rs, None), w') \<Longrightarrow> told w n = Some r \<Longrightarrow> r \<in> set rs"
begin

lemma others_keep: "(others_report healthy unhealthy told n)\<^sup>*\<^sup>* w w' \<Longrightarrow> told w' n = told w n"
proof (induction rule: rtranclp_induct)
  case (step y z)
  from step(2) have "told z n = told y n"
  proof (elim others_reportE)
    fix n' e assume "n' \<noteq> n" "healthy n' y = (e, z)"
    then show ?thesis using healthy_own [of n' n y] by simp
  next
    fix n' rep e assume "n' \<noteq> n" "unhealthy n' rep y = (e, z)"
    then show ?thesis using unhealthy_own [of n' n rep y] by simp
  qed simp
  with step(3) show ?case by simp
qed simp

text \<open>A node that reported itself unhealthy blocks every other node until it reports again.\<close>

lemma unhealthy_blocks:
  assumes "unhealthy n rep w = (None, w1)" "ascii_report rep"
    and "(others_report healthy unhealthy told n)\<^sup>*\<^sup>* w1 w2"
    and "status m w2 = ((rs, None), w3)" "NodeName cfg \<noteq> name n"
  shows "fst (evaluateClusterPolicies u cfg rs)"
proof -
  obtain t where "told w2 n = Some (unhealthy_record (name n) rep t)"
    using told_unhealthy [OF assms(1,2)] others_keep [OF assms(3)] by auto
  then have "unhealthy_record (name n) rep t \<in> set rs" by (rule listed [OF assms(4)])
  then have "unhealthy_record (name n) rep t \<in> set (filterClusterRecords rs (NodeName cfg))"
    using assms(5) by (simp add: filterClusterRecords_def unhealthy_record_def)
  then have "filterClusterRecords rs (NodeName cfg) \<noteq> []" by (metis list.set(1) empty_iff)
  then show ?thesis by (simp add: evaluateClusterPolicies_blocked)
qed

lemma healthy_listed:
  assumes "healthy n w = (None, w1)" "(others_report healthy unhealthy told n)\<^sup>*\<^sup>* w1 w2"
    and "status m w2 = ((rs, None), w3)"
  shows "\<exists>t. healthy_record (name n) t \<in> set rs"
  using told_healthy [OF assms(1)] others_keep [OF assms(2)] listed [OF assms(3)] by metis

end

section \<open>The etcd manager keeps the contract\<close>

text \<open>Listing shows what the keys below the prefix hold, and a put, even a failed one, touches only its
  own key.\<close>

definition lists_values :: "'w etcd \<Rightarrow> ('w \<Rightarrow> string \<rightharpoonup> string \<times> int) \<Rightarrow> bool" where
  "lists_values E view \<longleftrightarrow>
     (\<forall>p w. case ec_list E p w of (Inl e, w') \<Rightarrow> True
        | (Inr kvs, w') \<Rightarrow> view w' = view w \<and>
            set kvs = {kv. view w (kv_Key kv) = Some (kv_Value kv, kv_Lease kv) \<and> HasPrefix (kv_Key kv) p}) \<and>
     (\<forall>k v l w k'. k' \<noteq> k \<longrightarrow> view (snd (ec_put E k v l w)) k' = view w k') \<and>
     (\<forall>k v l w w'. ec_put E k v l w = (None, w') \<longrightarrow> view w' k = Some (v, l))"

text \<open>The managers of a cluster: one client, one prefix, different nodes, clocks that show a year of
  four digits.\<close>

definition health_cluster :: "'w etcd \<Rightarrow> ('w \<Rightarrow> string \<rightharpoonup> string \<times> int) \<Rightarrow> string \<Rightarrow> ('n \<Rightarrow> 'w health_manager) \<Rightarrow> bool" where
  "health_cluster E view prefix mgr \<longleftrightarrow>
     plain_path prefix \<and> inj (\<lambda>n. hm_node (mgr n)) \<and>
     (\<forall>n. hm_client (mgr n) = E \<and> hm_prefix (mgr n) = prefix \<and> plain_segment (hm_node (mgr n)) \<and>
          valid_utf8 (hm_node (mgr n)) \<and> hm_nodePath (mgr n) = path_Join [prefix, hm_node (mgr n)] \<and>
          (\<forall>w. view (snd (hm_now (mgr n) w)) = view w \<and> four_digit_year (fst (hm_now (mgr n) w))))"

definition told_etcd :: "parse_texts \<Rightarrow> ('w \<Rightarrow> string \<rightharpoonup> string \<times> int) \<Rightarrow> ('n \<Rightarrow> 'w health_manager) \<Rightarrow> 'w
    \<Rightarrow> 'n \<Rightarrow> cluster_record option" where
  "told_etcd T view mgr w n =
     (case view w (hm_nodePath (mgr n)) of
        None \<Rightarrow> None
      | Some (v, l) \<Rightarrow>
        (case record_of_kv T (list_prefix (mgr n)) \<lparr>kv_Key = hm_nodePath (mgr n), kv_Value = v, kv_Lease = l\<rparr> of
           Inl e \<Rightarrow> None | Inr r \<Rightarrow> Some r))"


lemma ascii_set: "ascii s \<longleftrightarrow> (\<forall>c \<in> set s. byte c < 0x80)"
  by (simp add: ascii_def list_all_iff)

lemma set_trim_front: "set (trim_front encs s) \<subseteq> set s"
proof (induction encs s rule: trim_front.induct)
  case (1 encs s)
  then show ?case by (subst trim_front.simps) (auto dest: in_set_dropD)
qed

lemma ascii_TrimSpace: "ascii s \<Longrightarrow> ascii (TrimSpace s)"
  unfolding ascii_set TrimSpace_def using set_trim_front by (auto dest!: subsetD [OF set_trim_front])

lemma record_of_payload:
  assumes "valid_utf8 (pl_Node p)" "valid_utf8 (pl_Stage p)" "valid_utf8 (pl_Reason p)" "pl_Node p \<noteq> []"
    and "pl_ReportedAt p = format_RFC3339Nano t" "four_digit_year t"
  shows "record_of_kv T prefix \<lparr>kv_Key = k, kv_Value = json_print (health_json p), kv_Lease = l\<rparr> =
    Inr \<lparr>cr_Node = pl_Node p, cr_Healthy = pl_Healthy p, cr_Stage = pl_Stage p, cr_Reason = pl_Reason p,
         cr_ReportedAt = in_UTC t\<rparr>"
proof -
  have "health_Unmarshal T (json_print (health_json p)) = Inr p"
    by (rule health_roundtrip) (use assms valid_utf8_format in simp_all)
  then show ?thesis
    using assms(4,5) by (simp add: record_of_kv_def parse_timestamp_format [OF assms(6)])
qed

lemma put_payload_puts:
  "put_payload m h s r w =
     (let (t, w) = hm_now m w;
          (err, w) = ec_put (hm_client m) (hm_nodePath m) (json_print (health_json \<lparr>pl_Node = hm_node m,
             pl_Healthy = h, pl_Stage = s, pl_Reason = r, pl_ReportedAt = format_RFC3339Nano t\<rparr>)) 0 w
      in (map_option (wrap_unless_context ''store cluster health entry'') err, w))"
  by (simp add: put_payload_def json_Marshal_def Let_def split_beta del: json_print.simps)

lemma put_payload_told:
  assumes L: "lists_values E view" and C: "health_cluster E view prefix mgr"
    and p: "put_payload (mgr n) h s r w = (None, w')" and u: "valid_utf8 s" "valid_utf8 r"
  shows "\<exists>t. told_etcd T view mgr w' n = Some \<lparr>cr_Node = hm_node (mgr n), cr_Healthy = h, cr_Stage = s,
    cr_Reason = r, cr_ReportedAt = t\<rparr>"
proof -
  let ?m = "mgr n"
  note M = C [unfolded health_cluster_def, THEN conjunct2, THEN conjunct2, THEN spec, of n]
  obtain t w1 where t: "hm_now ?m w = (t, w1)" by (metis surj_pair)
  let ?p = "\<lparr>pl_Node = hm_node ?m, pl_Healthy = h, pl_Stage = s, pl_Reason = r, pl_ReportedAt = format_RFC3339Nano t\<rparr>"
  have "ec_put E (hm_nodePath ?m) (json_print (health_json ?p)) 0 w1 = (None, w')"
    using p t M unfolding put_payload_puts by (simp add: split_beta prod_eq_iff)
  then have v: "view w' (hm_nodePath ?m) = Some (json_print (health_json ?p), 0)"
    using L unfolding lists_values_def by blast
  have y: "four_digit_year t" using M t by (metis fst_conv)
  have "pl_Node ?p \<noteq> []" using M by (simp add: plain_segment_def)
  then show ?thesis
    using record_of_payload [of ?p t T "list_prefix ?m" "hm_nodePath ?m" 0] M u y v
    by (simp add: told_etcd_def)
qed

lemma put_payload_own:
  assumes L: "lists_values E view" and C: "health_cluster E view prefix mgr" and "n' \<noteq> n"
  shows "told_etcd T view mgr (snd (put_payload (mgr n') h s r w)) n = told_etcd T view mgr w n"
proof -
  note M = C [unfolded health_cluster_def, THEN conjunct2, THEN conjunct2, THEN spec]
  have path: "hm_nodePath (mgr n) = prefix @ ''/'' @ hm_node (mgr n)" for n
    using nodePath_listed [of "mgr n"] C M [of n] by (simp add: health_cluster_def)
  have "hm_node (mgr n) \<noteq> hm_node (mgr n')"
    using C assms(3) unfolding health_cluster_def inj_def by metis
  then have ne: "hm_nodePath (mgr n) \<noteq> hm_nodePath (mgr n')" by (simp add: path)
  have "view (snd (put_payload (mgr n') h s r w)) (hm_nodePath (mgr n)) = view w (hm_nodePath (mgr n))"
    using L ne M [of n'] unfolding lists_values_def put_payload_puts by (simp add: split_beta)
  then show ?thesis by (simp add: told_etcd_def)
qed

lemma records_of_all:
  "records_of T prefix kvs = Inr rs \<Longrightarrow> kv \<in> set kvs \<Longrightarrow> record_of_kv T prefix kv = Inr r \<Longrightarrow> r \<in> set rs"
  by (induction kvs arbitrary: rs) (auto split: sum.splits)

lemma etcd_health_registry:
  fixes mgr :: "'n \<Rightarrow> 'w health_manager"
  assumes L: "lists_values E view" and C: "health_cluster E view prefix mgr"
  shows "health_registry (\<lambda>n. etcd_ReportHealthy (mgr n)) (\<lambda>n. etcd_ReportUnhealthy (mgr n))
    (\<lambda>n. etcd_HealthStatus T (mgr n)) (told_etcd T view mgr) (\<lambda>n. hm_node (mgr n))"
proof
  note M = C [unfolded health_cluster_def, THEN conjunct2, THEN conjunct2, THEN spec]
  have plain: "plain_path prefix" using C by (simp add: health_cluster_def)
  fix n and w w'
  assume "etcd_ReportHealthy (mgr n) w = (None, w')"
  from put_payload_told [OF L C this [unfolded etcd_ReportHealthy_def]] show
    "\<exists>t. told_etcd T view mgr w' n = Some (healthy_record (hm_node (mgr n)) t)"
    by (simp add: healthy_record_def valid_utf8.simps)
next
  fix n and rep and w w'
  assume p: "etcd_ReportUnhealthy (mgr n) rep w = (None, w')" and a: "ascii_report rep"
  have "valid_utf8 (TrimSpace (hp_Stage rep))" "valid_utf8 (TrimSpace (hp_Reason rep))"
    using a by (simp_all add: ascii_report_def valid_utf8_ascii ascii_TrimSpace)
  from put_payload_told [OF L C p [unfolded etcd_ReportUnhealthy_def] this] show
    "\<exists>t. told_etcd T view mgr w' n = Some (unhealthy_record (hm_node (mgr n)) rep t)"
    by (simp add: unhealthy_record_def)
next
  fix n n' :: 'n and w :: 'w assume "n' \<noteq> n"
  then show "told_etcd T view mgr (snd (etcd_ReportHealthy (mgr n') w)) n = told_etcd T view mgr w n"
    unfolding etcd_ReportHealthy_def by (rule put_payload_own [OF L C])
next
  fix n n' :: 'n and rep and w :: 'w assume "n' \<noteq> n"
  then show "told_etcd T view mgr (snd (etcd_ReportUnhealthy (mgr n') rep w)) n = told_etcd T view mgr w n"
    unfolding etcd_ReportUnhealthy_def by (rule put_payload_own [OF L C])
next
  note M = C [unfolded health_cluster_def, THEN conjunct2, THEN conjunct2, THEN spec]
  have plain: "plain_path prefix" using C by (simp add: health_cluster_def)
  fix m n and w w' and rs r
  assume st: "etcd_HealthStatus T (mgr m) w = ((rs, None), w')" and told: "told_etcd T view mgr w n = Some r"
  let ?p = "prefix @ ''/''" and ?k = "hm_nodePath (mgr n)"
  have lp: "list_prefix (mgr x) = ?p" and np: "hm_nodePath (mgr x) = ?p @ hm_node (mgr x)" for x
    using nodePath_listed [of "mgr x"] plain M [of x] by simp_all
  obtain v l where v: "view w ?k = Some (v, l)" "record_of_kv T ?p \<lparr>kv_Key = ?k, kv_Value = v, kv_Lease = l\<rparr> = Inr r"
    using told by (auto simp: told_etcd_def lp split: option.splits sum.splits)
  obtain q w1 where q: "ec_list E ?p w = (q, w1)" by (metis surj_pair)
  obtain kvs where kvs: "q = Inr kvs" "records_of T ?p kvs = Inr rs"
    using st q M [of m] by (auto simp: etcd_HealthStatus_def lp split: sum.splits)
  have "set kvs = {kv. view w (kv_Key kv) = Some (kv_Value kv, kv_Lease kv) \<and> HasPrefix (kv_Key kv) ?p}"
    using L [unfolded lists_values_def, THEN conjunct1, THEN spec, of ?p, THEN spec, of w] q kvs(1) by simp
  then have "\<lparr>kv_Key = ?k, kv_Value = v, kv_Lease = l\<rparr> \<in> set kvs"
    using v(1) np [of n] HasPrefix_append [of ?p "hm_node (mgr n)"] by simp
  from records_of_all [OF kvs(2) this v(2)] show "r \<in> set rs" .
qed


section \<open>The memory client\<close>

lemma set_clearjunk: "(k, v) \<in> set (AList.clearjunk xs) \<longleftrightarrow> map_of xs k = Some v"
  by (metis distinct_clearjunk map_of_clearjunk map_of_eq_Some_iff)

lemma mem_lists: "lists_values mem_etcd mem_view"
proof -
  have "set (map mem_kv (List.filter (\<lambda>x. HasPrefix (fst x) p) (AList.clearjunk (m_kvs w)))) =
      {kv. map_of (m_kvs w) (kv_Key kv) = Some (kv_Value kv, kv_Lease kv) \<and> HasPrefix (kv_Key kv) p}" for p w
  proof (intro equalityI subsetI)
    fix kv :: kv
    assume "kv \<in> {kv. map_of (m_kvs w) (kv_Key kv) = Some (kv_Value kv, kv_Lease kv) \<and> HasPrefix (kv_Key kv) p}"
    moreover obtain k v l where kv: "kv = \<lparr>kv_Key = k, kv_Value = v, kv_Lease = l\<rparr>" by (cases kv)
    ultimately have "(k, v, l) \<in> set (AList.clearjunk (m_kvs w))" "HasPrefix k p"
      by (simp_all add: set_clearjunk)
    then have "(k, v, l) \<in> set (List.filter (\<lambda>x. HasPrefix (fst x) p) (AList.clearjunk (m_kvs w)))" by simp
    from imageI [OF this, of mem_kv] show "kv \<in> set (map mem_kv (List.filter (\<lambda>x. HasPrefix (fst x) p) (AList.clearjunk (m_kvs w))))"
      by (simp add: kv mem_kv_def)
  qed (auto simp: mem_kv_def set_clearjunk)
  then show ?thesis
    by (auto simp: lists_values_def mem_etcd_def mem_view_def mem_put_def map_of_mem_without)
qed

definition mem_health_manager :: "nat \<Rightarrow> mem health_manager" where
  "mem_health_manager i = \<lparr>hm_client = mem_etcd, hm_prefix = ''/cluster/cluster_health'', hm_node = show_nat i,
     hm_now = \<lambda>w. (m_time noon, w), hm_nodePath = path_Join [''/cluster/cluster_health'', show_nat i]\<rparr>"

lemma show_nat_plain: "plain_segment (show_nat i)" "ascii (show_nat i)"
proof -
  have d: "list_all is_digit (show_nat i)" by (rule show_nat_digits)
  have "\<not> is_digit (CHR ''.'')" "\<not> is_digit (CHR ''/'')" by code_simp+
  with d show "plain_segment (show_nat i)" by (auto simp: plain_segment_def list_all_iff)
  from ascii_digits [OF d] show "ascii (show_nat i)" .
qed

lemma mem_health_cluster: "health_cluster mem_etcd mem_view ''/cluster/cluster_health'' mem_health_manager"
proof -
  have "plain_path ''/cluster/cluster_health''"
    unfolding plain_path_def by (intro exI [of _ "[''cluster'', ''cluster_health'']"]) (simp add: plain_segment_def)
  moreover have "inj show_nat" by (metis digits_value_show_nat injI)
  moreover have "four_digit_year (m_time noon)" by code_simp
  ultimately show ?thesis
    by (simp add: health_cluster_def mem_health_manager_def show_nat_plain valid_utf8_ascii)
qed

interpretation cluster_registry: health_registry
  "\<lambda>n. etcd_ReportHealthy (mem_health_manager n)" "\<lambda>n. etcd_ReportUnhealthy (mem_health_manager n)"
  "\<lambda>n. etcd_HealthStatus T (mem_health_manager n)" "told_etcd T mem_view mem_health_manager"
  "\<lambda>n. hm_node (mem_health_manager n)" for T
  by (rule etcd_health_registry [OF mem_lists mem_health_cluster])

section \<open>Claims\<close>

text \<open>C7: A node that has reported itself unhealthy blocks every other node: whatever the others report in
  the meantime, a status that any manager of the cluster obtains makes the policies of every node with
  another name block its reboot, until the node itself reports again.\<close>

theorem unhealthy_node_blocks_cluster:
  assumes "lists_values E view" "health_cluster E view prefix mgr"
    and "etcd_ReportUnhealthy (mgr n) rep w = (None, w1)" "ascii_report rep"
    and "(others_report (\<lambda>n. etcd_ReportHealthy (mgr n)) (\<lambda>n. etcd_ReportUnhealthy (mgr n))
           (told_etcd T view mgr) n)\<^sup>*\<^sup>* w1 w2"
    and "etcd_HealthStatus T (mgr m) w2 = ((rs, None), w3)" "NodeName cfg \<noteq> hm_node (mgr n)"
  shows "fst (evaluateClusterPolicies u cfg rs)"
  by (rule health_registry.unhealthy_blocks [OF etcd_health_registry [OF assms(1,2)] assms(3-7)])

lemma mem_put_payload: "\<exists>w'. put_payload (mem_health_manager n) h s r w = (None, w')"
  by (simp add: put_payload_puts mem_health_manager_def mem_etcd_def mem_put_def Let_def del: json_print.simps)


lemma unhealthy_node_blocks_cluster_witness:
  "\<exists>w1 rs w3. etcd_ReportUnhealthy (mem_health_manager 0) \<lparr>hp_Stage = ''monitor'', hp_Reason = ''exit 1''\<rparr> noon = (None, w1) \<and>
    etcd_HealthStatus mem_texts (mem_health_manager 1) w1 = ((rs, None), w3) \<and>
    fst (evaluateClusterPolicies 0 (minimal_config\<lparr>NodeName := ''b''\<rparr>) rs)"
proof -
  let ?m = "mem_health_manager 0" and ?rep = "\<lparr>hp_Stage = ''monitor'', hp_Reason = ''exit 1''\<rparr>"
  define p where "p = \<lparr>pl_Node = hm_node ?m, pl_Healthy = False, pl_Stage = TrimSpace ''monitor'',
    pl_Reason = TrimSpace ''exit 1'', pl_ReportedAt = format_RFC3339Nano (m_time noon)\<rparr>"
  define w1 where "w1 = noon\<lparr>m_kvs := [(hm_nodePath ?m, json_print (health_json p), 0)]\<rparr>"
  have rep: "etcd_ReportUnhealthy ?m ?rep noon = (None, w1)"
    unfolding etcd_ReportUnhealthy_def put_payload_puts w1_def p_def
    by (simp add: mem_health_manager_def mem_etcd_def mem_put_def mem_without_def noon_def mem_start_def
        del: json_print.simps)
  have lp: "list_prefix (mem_health_manager 1) = ''/cluster/cluster_health/''"
    by (simp add: mem_health_manager_def list_prefix_def HasSuffix_last)
  have np: "hm_nodePath ?m = ''/cluster/cluster_health/'' @ show_nat 0"
    using nodePath_listed [of ?m] mem_health_cluster unfolding health_cluster_def
    by (simp add: mem_health_manager_def)
  have node: "hm_node ?m = ''0''" by (simp add: mem_health_manager_def show_nat_0)
  have a: "ascii (TrimSpace ''monitor'')" "ascii (TrimSpace ''exit 1'')"
    by (rule ascii_TrimSpace, simp add: byte_def)+
  have y: "four_digit_year (m_time noon)" by code_simp
  have "record_of_kv mem_texts ''/cluster/cluster_health/'' \<lparr>kv_Key = hm_nodePath ?m, kv_Value = json_print (health_json p), kv_Lease = 0\<rparr> =
    Inr \<lparr>cr_Node = pl_Node p, cr_Healthy = pl_Healthy p, cr_Stage = pl_Stage p, cr_Reason = pl_Reason p,
         cr_ReportedAt = in_UTC (m_time noon)\<rparr>"
    by (rule record_of_payload) (use a y in \<open>simp_all add: p_def node valid_utf8_ascii byte_def\<close>)
  moreover have "ec_list mem_etcd ''/cluster/cluster_health/'' w1 =
      (Inr [\<lparr>kv_Key = hm_nodePath ?m, kv_Value = json_print (health_json p), kv_Lease = 0\<rparr>], w1)"
    using HasPrefix_append [of "''/cluster/cluster_health/''" "show_nat 0"]
    by (simp add: mem_etcd_def w1_def mem_kv_def np [unfolded show_nat_0] show_nat_0 del: json_print.simps)
  moreover have "hm_client (mem_health_manager 1) = mem_etcd" by (simp add: mem_health_manager_def)
  ultimately obtain rs where "etcd_HealthStatus mem_texts (mem_health_manager 1) w1 = ((rs, None), w1)"
    unfolding etcd_HealthStatus_def lp by simp
  moreover from unhealthy_node_blocks_cluster [OF mem_lists mem_health_cluster rep _ rtranclp.rtrancl_refl this]
  have "fst (evaluateClusterPolicies 0 (minimal_config\<lparr>NodeName := ''b''\<rparr>) rs)"
    by (simp add: ascii_report_def byte_def node)
  ultimately show ?thesis using rep by blast
qed

end
