(* ===== verification/NewRunner.thy ===== *)
theory NewRunner
  imports RunOnce
begin

text \<open>
  The constructor of the runner and its options (\<open>pkg/orchestrator/runner.go\<close>), the executor of
  the reboot command (\<open>pkg/orchestrator/executor.go\<close>) and the reporters made of functions
  (\<open>pkg/orchestrator/reporter.go\<close>).  A nil interface, function or map is \<^const>\<open>None\<close>.
\<close>

section \<open>What the runner is given\<close>

record 'w cooldown_client =
  cc_Status :: "'w \<Rightarrow> (cooldown_status \<times> go_error option) \<times> 'w"
  cc_Start :: "duration \<Rightarrow> 'w \<Rightarrow> go_error option \<times> 'w"

record 'w health_client =
  hc_ReportHealthy :: "'w \<Rightarrow> go_error option \<times> 'w"
  hc_ReportUnhealthy :: "health_report \<Rightarrow> 'w \<Rightarrow> go_error option \<times> 'w"
  hc_Status :: "'w \<Rightarrow> (cluster_record list \<times> go_error option) \<times> 'w"

record 'w lock_client =
  lc_Acquire :: "'w \<Rightarrow> (go_error + lease) \<times> 'w"
  lc_Release :: "lease \<Rightarrow> 'w \<Rightarrow> go_error option \<times> 'w"

type_synonym 'w detect = "'w \<Rightarrow> (bool \<times> det_result list \<times> go_error option) \<times> 'w"
type_synonym 'w run_health = "(string \<rightharpoonup> string) \<Rightarrow> 'w \<Rightarrow> (health_result \<times> go_error option) \<times> 'w"
type_synonym 'w random = "int \<Rightarrow> 'w \<Rightarrow> int \<times> 'w"

text \<open>What the code takes from the standard library and the runtime.\<close>

record 'w runtime =
  rt_os :: "'w os"
  rt_sleep :: "duration \<Rightarrow> 'w \<Rightarrow> go_error option \<times> 'w"
  rt_random :: "'w random"
  rt_getenv :: "'w \<Rightarrow> string \<Rightarrow> string"
  rt_peerOrder :: "(string \<rightharpoonup> clusterPeerState) \<Rightarrow> 'w \<Rightarrow> string list \<times> 'w"
  rt_unrepresentable :: int

section \<open>Reporters\<close>

record 'w reporter_funcs =
  rf_OnEvent :: "(event \<Rightarrow> 'w \<Rightarrow> 'w) option"
  rf_OnMetric :: "(metric \<Rightarrow> 'w \<Rightarrow> 'w) option"

definition funcs_RecordEvent :: "'w reporter_funcs \<Rightarrow> event \<Rightarrow> 'w \<Rightarrow> 'w" where
  "funcs_RecordEvent r e w = (case rf_OnEvent r of None \<Rightarrow> w | Some f \<Rightarrow> f e w)"

definition funcs_RecordMetric :: "'w reporter_funcs \<Rightarrow> metric \<Rightarrow> 'w \<Rightarrow> 'w" where
  "funcs_RecordMetric r m w = (case rf_OnMetric r of None \<Rightarrow> w | Some f \<Rightarrow> f m w)"

definition noop_report :: "report \<Rightarrow> 'w \<Rightarrow> 'w" where
  "noop_report x w = w"

definition structured_report :: "'w reporter \<Rightarrow> report \<Rightarrow> 'w \<Rightarrow> 'w" where
  "structured_report r x w =
     (case x of RecordEvent e \<Rightarrow> reporter_RecordEvent r e w | RecordMetric m \<Rightarrow> reporter_RecordMetric r m w)"

section \<open>The options\<close>

text \<open>The fields of the runner that an option may set.\<close>

record 'w build =
  b_checkKill :: "(string \<Rightarrow> 'w \<Rightarrow> (bool \<times> go_error option) \<times> 'w) option"
  b_sleep :: "(duration \<Rightarrow> 'w \<Rightarrow> go_error option \<times> 'w) option"
  b_rnd :: "'w random option"
  b_maxLockTries :: int
  b_reporter :: "(report \<Rightarrow> 'w \<Rightarrow> 'w) option"
  b_lockEnabled :: bool
  b_lockSkipReason :: string
  b_now :: "('w \<Rightarrow> gotime \<times> 'w) option"
  b_commandEnv :: "(string \<rightharpoonup> string) option"
  b_healthReporting :: bool
  b_cooldown :: "'w cooldown_client option"
  b_clusterHealth :: "'w health_client option"

type_synonym 'w runner_option = "'w build \<Rightarrow> 'w build"

definition no_entries :: "(string \<rightharpoonup> string) \<Rightarrow> bool" where
  "no_entries src \<longleftrightarrow> dom src = {}"

text \<open>A map as a function cannot be searched, but every environment in use has the name of the node.\<close>

lemma no_entries_code [code]:
  "no_entries src = (src ''RC_NODE_NAME'' = None \<and> Code.abort (STR ''no node name'') (\<lambda>_. no_entries src))"
  by (auto simp: no_entries_def)

definition cloneEnv :: "(string \<rightharpoonup> string) \<Rightarrow> (string \<rightharpoonup> string) option" where
  "cloneEnv src = (if no_entries src then None else Some src)"

definition WithKillSwitchChecker ::
    "(string \<Rightarrow> 'w \<Rightarrow> (bool \<times> go_error option) \<times> 'w) option \<Rightarrow> 'w runner_option" where
  "WithKillSwitchChecker fn b = b\<lparr>b_checkKill := fn\<rparr>"

definition WithSleepFunc :: "(duration \<Rightarrow> 'w \<Rightarrow> go_error option \<times> 'w) option \<Rightarrow> 'w runner_option" where
  "WithSleepFunc fn b = b\<lparr>b_sleep := fn\<rparr>"

definition WithRandSource :: "'w random \<Rightarrow> 'w runner_option" where
  "WithRandSource src b = b\<lparr>b_rnd := Some src\<rparr>"

definition WithMaxLockAttempts :: "int \<Rightarrow> 'w runner_option" where
  "WithMaxLockAttempts n b = (if 0 < n then b\<lparr>b_maxLockTries := n\<rparr> else b)"

definition WithReporter :: "(report \<Rightarrow> 'w \<Rightarrow> 'w) option \<Rightarrow> 'w runner_option" where
  "WithReporter rep b = (if rep \<noteq> None then b\<lparr>b_reporter := rep\<rparr> else b)"

definition WithClusterHealthManager :: "'w health_client option \<Rightarrow> 'w runner_option" where
  "WithClusterHealthManager m b = b\<lparr>b_clusterHealth := m\<rparr>"

definition WithClusterHealthReporting :: "bool \<Rightarrow> 'w runner_option" where
  "WithClusterHealthReporting enabled b = b\<lparr>b_healthReporting := enabled\<rparr>"

definition WithCooldownManager :: "'w cooldown_client option \<Rightarrow> 'w runner_option" where
  "WithCooldownManager m b = b\<lparr>b_cooldown := m\<rparr>"

definition WithLockAcquisition :: "bool \<Rightarrow> string \<Rightarrow> 'w runner_option" where
  "WithLockAcquisition enabled reason b =
     b\<lparr>b_lockEnabled := enabled, b_lockSkipReason := (if \<not> enabled then TrimSpace reason else [])\<rparr>"

definition WithCommandEnvironment :: "(string \<rightharpoonup> string) \<Rightarrow> 'w runner_option" where
  "WithCommandEnvironment env b = b\<lparr>b_commandEnv := cloneEnv env\<rparr>"

definition WithTimeSource :: "('w \<Rightarrow> gotime \<times> 'w) option \<Rightarrow> 'w runner_option" where
  "WithTimeSource fn b = (if fn \<noteq> None then b\<lparr>b_now := fn\<rparr> else b)"

section \<open>The constructor\<close>

definition default_build :: "'w runtime \<Rightarrow> config \<Rightarrow> 'w build" where
  "default_build R cfg = \<lparr>b_checkKill = Some (defaultKillSwitchCheck (rt_os R)), b_sleep = Some (rt_sleep R),
     b_rnd = Some (rt_random R), b_maxLockTries = 5, b_reporter = Some noop_report, b_lockEnabled = True,
     b_lockSkipReason = [], b_now = None, b_commandEnv = Some (BaseEnvironment cfg),
     b_healthReporting = True, b_cooldown = None, b_clusterHealth = None\<rparr>"

definition or_else :: "'a \<Rightarrow> 'a option \<Rightarrow> 'a" where
  "or_else a x = (case x of None \<Rightarrow> a | Some b \<Rightarrow> b)"

definition build_runner :: "config \<Rightarrow> 'w build \<Rightarrow> evaluator option \<Rightarrow> runner" where
  "build_runner cfg b ev =
     \<lparr>r_cfg = cfg, r_killSwitchPath = KillSwitchFile cfg,
      r_maxLockTries = (if b_maxLockTries b \<le> 0 then 5 else b_maxLockTries b),
      r_lockEnabled = b_lockEnabled b, r_lockSkipReason = b_lockSkipReason b,
      r_cooldownWindow = RebootCooldownInterval cfg,
      r_commandEnv = or_else (BaseEnvironment cfg) (b_commandEnv b),
      r_healthReporting = b_healthReporting b, r_cooldown = (b_cooldown b \<noteq> None),
      r_clusterHealth = (b_clusterHealth b \<noteq> None), r_windows = ev\<rparr>"

text \<open>A client that is nil is never called: \<^const>\<open>r_cooldown\<close> and \<^const>\<open>r_clusterHealth\<close> guard it.\<close>

definition no_cooldown :: "'w cooldown_client" where
  "no_cooldown = \<lparr>cc_Status = \<lambda>w. ((\<lparr>cs_Active = False, cs_Node = [], cs_StartedAt = zero_time,
     cs_ExpiresAt = zero_time, cs_Remaining = 0\<rparr>, Some (ErrMsg ''nil pointer dereference'')), w),
     cc_Start = \<lambda>t w. (Some (ErrMsg ''nil pointer dereference''), w)\<rparr>"

definition no_health :: "'w health_client" where
  "no_health = \<lparr>hc_ReportHealthy = \<lambda>w. (Some (ErrMsg ''nil pointer dereference''), w),
     hc_ReportUnhealthy = \<lambda>rep w. (Some (ErrMsg ''nil pointer dereference''), w),
     hc_Status = \<lambda>w. (([], Some (ErrMsg ''nil pointer dereference'')), w)\<rparr>"

definition build_deps :: "'w runtime \<Rightarrow> 'w build \<Rightarrow> 'w detect \<Rightarrow> 'w run_health \<Rightarrow> 'w lock_client \<Rightarrow> 'w deps" where
  "build_deps R b detectors health locker =
     (let c = or_else no_cooldown (b_cooldown b); h = or_else no_health (b_clusterHealth b) in
      \<lparr>d_time = os_now (rt_os R), d_now = or_else (os_now (rt_os R)) (b_now b),
       d_checkKill = or_else (defaultKillSwitchCheck (rt_os R)) (b_checkKill b),
       d_evaluate = detectors, d_health = health,
       d_clusterStatus = hc_Status h, d_reportHealthy = hc_ReportHealthy h,
       d_reportUnhealthy = hc_ReportUnhealthy h,
       d_cooldownStatus = cc_Status c, d_cooldownStart = cc_Start c,
       d_acquire = lc_Acquire locker, d_release = lc_Release locker,
       d_sleep = or_else (rt_sleep R) (b_sleep b), d_random = or_else (rt_random R) (b_rnd b),
       d_getenv = rt_getenv R, d_peerOrder = rt_peerOrder R,
       d_report = or_else noop_report (b_reporter b), d_unrepresentable = rt_unrepresentable R\<rparr>)"

definition NewRunner :: "'w runtime \<Rightarrow> config option \<Rightarrow> 'w detect option \<Rightarrow> 'w run_health option
    \<Rightarrow> 'w lock_client option \<Rightarrow> 'w runner_option list \<Rightarrow> go_error + runner \<times> 'w deps" where
  "NewRunner R cfg detectors health locker opts =
     (case cfg of
        None \<Rightarrow> Inl (ErrMsg ''config must not be nil'')
      | Some cfg \<Rightarrow>
        (case detectors of
           None \<Rightarrow> Inl (ErrMsg ''detector evaluator must not be nil'')
         | Some detectors \<Rightarrow>
           (case health of
              None \<Rightarrow> Inl (ErrMsg ''health runner must not be nil'')
            | Some health \<Rightarrow>
              (case locker of
                 None \<Rightarrow> Inl (ErrMsg ''lock manager must not be nil'')
               | Some locker \<Rightarrow>
                 (let b = fold (\<lambda>opt. opt) opts (default_build R cfg) in
                  if 0 < sint (RebootCooldownInterval cfg) \<and> b_cooldown b = None then
                    Inl (ErrMsg ''cooldown interval configured but no cooldown manager provided'')
                  else
                    (case NewEvaluator (win_Allow (Windows cfg)) (win_Deny (Windows cfg)) of
                       Inl e \<Rightarrow> Inl (Wrapf ''parse windows'' e)
                     | Inr ev \<Rightarrow> Inr (build_runner cfg b ev, build_deps R b detectors health locker)))))))"

text \<open>A new runner has seen nothing.\<close>

definition new_st :: "'w \<Rightarrow> 'w st" where
  "new_st w = \<lparr>st_world = w, st_calls = [], st_reports = [], st_lastOutcome = None,
     st_summaries = Map.empty, st_peers = Map.empty\<rparr>"

section \<open>The executor\<close>

text \<open>\<open>run\<close> is \<open>exec.Cmd.Run\<close> with the standard streams of the daemon.\<close>

definition Execute_command :: "(string list \<Rightarrow> 'w \<Rightarrow> go_error option \<times> 'w) \<Rightarrow> string list \<Rightarrow> 'w
    \<Rightarrow> go_error option \<times> 'w" where
  "Execute_command run command w =
     (if command = [] then (Some (ErrMsg ''reboot command is empty''), w)
      else (let (err, w) = run command w in
        (map_option (Wrapf (''run reboot command '' @ Quote (Join command '' ''))) err, w)))"


section \<open>What the constructor promises\<close>

text \<open>C37: The constructor gives a runner unless something it needs is missing.  A runner it returns is
  fit for a pass whatever the options: it has at least one attempt at the lock, a cooldown manager if
  the configuration has a cooldown, and the evaluator of the configured windows; and it fails only for
  a nil argument, for a cooldown without a manager, or for a window that does not parse.\<close>

theorem NewRunner_outcome:
  "case NewRunner R cfg detectors health locker opts of
     Inr (r, d) \<Rightarrow> cfg = Some (r_cfg r) \<and> detectors = Some (d_evaluate d) \<and> health = Some (d_health d) \<and>
       map_option lc_Acquire locker = Some (d_acquire d) \<and> 0 < r_maxLockTries r \<and>
       r_cooldownWindow r = RebootCooldownInterval (r_cfg r) \<and>
       \<not> (0 < sint (r_cooldownWindow r) \<and> \<not> r_cooldown r) \<and>
       NewEvaluator (win_Allow (Windows (r_cfg r))) (win_Deny (Windows (r_cfg r))) = Inr (r_windows r)
   | Inl e \<Rightarrow> cfg = None \<or> detectors = None \<or> health = None \<or> locker = None \<or>
       (\<exists>c. cfg = Some c \<and> 0 < sint (RebootCooldownInterval c) \<and>
          b_cooldown (fold (\<lambda>opt. opt) opts (default_build R c)) = None) \<or>
       (\<exists>c e'. cfg = Some c \<and> NewEvaluator (win_Allow (Windows c)) (win_Deny (Windows c)) = Inl e')"
  by (auto simp: NewRunner_def build_runner_def build_deps_def Let_def split: option.splits sum.splits)

end
