(* ===== verification/HealthPublisher.thy ===== *)
theory HealthPublisher
  imports LoopSafety
begin

text \<open>
  \<open>pkg/orchestrator/health_publisher.go\<close>: the loop beside the orchestration loop that keeps the
  health record of the local node fresh.
\<close>

record 'w publisher_deps =
  pd_ctx_err :: "'w \<Rightarrow> go_error option \<times> 'w"
  pd_sleep :: "duration \<Rightarrow> 'w \<Rightarrow> go_error option \<times> 'w"
  pd_errorHandler :: "(go_error \<Rightarrow> 'w \<Rightarrow> 'w) option"

record 'w publisher =
  hp_deps :: "'w deps"
  hp_runner :: runner
  hp_env :: "'w publisher_deps"
  hp_interval :: duration

type_synonym 'w publisher_option = "'w publisher \<Rightarrow> 'w publisher"

definition WithHealthPublisherSleepFunc :: "(duration \<Rightarrow> 'w \<Rightarrow> go_error option \<times> 'w) option \<Rightarrow> 'w publisher_option" where
  "WithHealthPublisherSleepFunc fn p =
     (case fn of None \<Rightarrow> p | Some f \<Rightarrow> p\<lparr>hp_env := (hp_env p)\<lparr>pd_sleep := f\<rparr>\<rparr>)"

definition WithHealthPublisherErrorHandler :: "(go_error \<Rightarrow> 'w \<Rightarrow> 'w) option \<Rightarrow> 'w publisher_option" where
  "WithHealthPublisherErrorHandler fn p = p\<lparr>hp_env := (hp_env p)\<lparr>pd_errorHandler := fn\<rparr>\<rparr>"

text \<open>The runner is given by its dependencies and its state, \<^const>\<open>None\<close> for nil; \<open>env\<close> is the
  context and \<open>time.Sleep\<close>, interrupted when the context ends.\<close>

definition NewHealthPublisher :: "'w publisher_deps \<Rightarrow> ('w deps \<times> runner) option \<Rightarrow> duration
    \<Rightarrow> 'w publisher_option list \<Rightarrow> go_error + 'w publisher" where
  "NewHealthPublisher env run interval opts =
     (case run of
        None \<Rightarrow> Inl (ErrMsg ''health publisher requires a runner'')
      | Some (d, r) \<Rightarrow>
        if sint interval \<le> 0 then Inl (ErrMsg ''health publish interval must be greater than zero'')
        else Inr (fold (\<lambda>opt. opt) opts
          \<lparr>hp_deps = d, hp_runner = r, hp_env = env\<lparr>pd_errorHandler := None\<rparr>, hp_interval = interval\<rparr>))"

definition publisher_sleep :: "'w publisher \<Rightarrow> duration \<Rightarrow> 'w st \<Rightarrow> go_error option \<times> 'w st" where
  "publisher_sleep p t s = (if sint t \<le> 0 then (None, s) else invoke (pd_sleep (hp_env p) t) (Sleep t) s)"

definition pause :: "'w publisher \<Rightarrow> 'w st \<Rightarrow> loop_exit \<times> 'w st" where
  "pause p s =
     (let (err, s) = publisher_sleep p (hp_interval p) s in
      (case err of Some e \<Rightarrow> Return (Some e) | None \<Rightarrow> Continue, s))"

definition handle_error :: "'w publisher \<Rightarrow> go_error \<Rightarrow> 'w st \<Rightarrow> 'w st" where
  "handle_error p e s =
     (case pd_errorHandler (hp_env p) of None \<Rightarrow> s | Some f \<Rightarrow> tell (f e) s)"

definition publisher_iteration :: "'w publisher \<Rightarrow> 'w st \<Rightarrow> loop_exit \<times> 'w st" where
  "publisher_iteration p s =
     (case silent (pd_ctx_err (hp_env p)) s of
        (Some e, s) \<Rightarrow> (Return (Some e), s)
      | (None, s) \<Rightarrow>
        if \<not> HealthPublishingEnabled (hp_runner p) then pause p s
        else
          (let (err, s) = PublishHeartbeat (hp_deps p) (hp_runner p) s in
           case err of
             Some e \<Rightarrow> if is_context_error e then (Return (Some e), s) else pause p (handle_error p e s)
           | None \<Rightarrow> pause p s))"

partial_function (option) publisher_Run :: "'w publisher \<Rightarrow> 'w st \<Rightarrow> (go_error option \<times> 'w st) option" where
  "publisher_Run p s =
     (case publisher_iteration p s of
        (Return e, s) \<Rightarrow> Some (e, s)
      | (Continue, s) \<Rightarrow> publisher_Run p s)"

declare publisher_Run.simps [code]

section \<open>Heartbeats and nothing else\<close>

text \<open>What an iteration may call, in this order: the health script in the phase \<open>heartbeat\<close>; if it
  ran, a report that agrees with its exit code; and a pause.\<close>

fun heartbeat_report :: "int \<Rightarrow> call \<Rightarrow> bool" where
  "heartbeat_report code (ReportHealthy e) = (code = 0)"
| "heartbeat_report code (ReportUnhealthy rep e) =
     (code \<noteq> 0 \<and> rep = \<lparr>hp_Stage = ''heartbeat'', hp_Reason = ''heartbeat exit '' @ Itoa code\<rparr>)"
| "heartbeat_report code _ = False"

definition heartbeat_calls :: "runner \<Rightarrow> call list \<Rightarrow> bool" where
  "heartbeat_calls r cs \<longleftrightarrow>
     cs = [] \<or>
     (\<exists>code e us. cs = RunHealth (health_env r ''heartbeat'' False 0) (code, e) # us \<and>
        HealthPublishingEnabled r \<and>
        (if e = None then \<exists>u. us = [u] \<and> heartbeat_report code u else us = []))"

definition publisher_calls :: "'w publisher \<Rightarrow> call list \<Rightarrow> bool" where
  "publisher_calls p cs \<longleftrightarrow>
     (\<exists>hs zs. cs = hs @ zs \<and> heartbeat_calls (hp_runner p) hs \<and>
        (zs = [] \<or> (\<exists>e. zs = [Sleep (hp_interval p) e])))"

lemma PublishHeartbeat_calls:
  assumes "PublishHeartbeat d r s = (err, s')"
  shows "\<exists>hs. st_calls s' = st_calls s @ hs \<and> heartbeat_calls r hs"
proof (cases "HealthPublishingEnabled r")
  case False
  with assms show ?thesis by (auto simp: PublishHeartbeat_def heartbeat_calls_def)
next
  case True
  let ?env = "health_env r ''heartbeat'' False 0"
  obtain res e s1 where h: "runHealthWithObservability d r ''heartbeat'' False 0 s = ((res, e), s1)"
    by (metis surj_pair)
  then have c1: "st_calls s1 = st_calls s @ [RunHealth ?env (hr_ExitCode res, e)]"
    by (auto simp: runHealthWithObservability_def Let_def split_beta record_calls since_calls
        invoke_calls silent_rest)
  obtain e2 s2 where u: "updateClusterHealth d r ''heartbeat'' (hr_ExitCode res = 0) (hr_ExitCode res) s1 = (e2, s2)"
    by (metis surj_pair)
  from updateClusterHealth_calls [OF u] True obtain x where
    x: "st_calls s2 = st_calls s1 @ [x]" "heartbeat_report (hr_ExitCode res) x"
    by (cases "hr_ExitCode res = 0") auto
  have "st_calls s' = st_calls (if e = None then s2 else s1)"
    using assms True h u by (auto simp: PublishHeartbeat_def runHealthAndUpdate_def split: option.splits)
  with c1 x True show ?thesis
    unfolding heartbeat_calls_def by (cases e) (auto intro!: exI [of _ "hr_ExitCode res"])
qed

lemma pause_calls:
  assumes "pause p s = (q, s')"
  shows "\<exists>zs. st_calls s' = st_calls s @ zs \<and> (zs = [] \<or> (\<exists>e. zs = [Sleep (hp_interval p) e]))"
  using assms by (auto simp: pause_def publisher_sleep_def invoke_calls split_beta split: if_splits)

lemma handle_error_calls [simp]: "st_calls (handle_error p e s) = st_calls s"
  by (simp add: handle_error_def tell_calls split: option.split)

lemma publisher_iteration_calls:
  assumes "publisher_iteration p s = (q, s')"
  shows "\<exists>cs. st_calls s' = st_calls s @ cs \<and> publisher_calls p cs"
proof -
  obtain c s1 where c: "silent (pd_ctx_err (hp_env p)) s = (c, s1)" by (metis surj_pair)
  then have s1: "st_calls s1 = st_calls s" using silent_rest by (metis snd_conv)
  have none: "heartbeat_calls (hp_runner p) []" by (simp add: heartbeat_calls_def)
  show ?thesis
  proof (cases "c = None \<and> HealthPublishingEnabled (hp_runner p)")
    case False
    then have "s' = s1 \<or> pause p s1 = (q, s')"
      using assms c by (auto simp: publisher_iteration_def split: option.splits)
    then show ?thesis
      using none s1 pause_calls [of p s1 q s'] unfolding publisher_calls_def by (elim disjE) (simp, metis append_Nil)
  next
    case True
    obtain e s2 where h: "PublishHeartbeat (hp_deps p) (hp_runner p) s1 = (e, s2)" by (metis surj_pair)
    obtain hs where hs: "st_calls s2 = st_calls s1 @ hs" "heartbeat_calls (hp_runner p) hs"
      using PublishHeartbeat_calls [OF h] by blast
    have "s' = s2 \<or> pause p s2 = (q, s') \<or> (\<exists>x. pause p (handle_error p x s2) = (q, s'))"
      using assms c True h by (auto simp: publisher_iteration_def split: option.splits if_splits)
    then obtain zs where "st_calls s' = st_calls s2 @ zs" "zs = [] \<or> (\<exists>e. zs = [Sleep (hp_interval p) e])"
      using pause_calls [of p] by (metis append_Nil2 handle_error_calls)
    then show ?thesis using hs s1 unfolding publisher_calls_def by (metis append_assoc)
  qed
qed

inductive publisher_runs :: "'w publisher \<Rightarrow> 'w st \<Rightarrow> 'w st \<Rightarrow> bool" for p where
  published_start: "publisher_runs p s s"
| published_again: "publisher_runs p s t \<Longrightarrow> publisher_iteration p t = (Continue, u) \<Longrightarrow> publisher_runs p s u"

lemma publisher_runs_first:
  assumes "publisher_iteration p s = (Continue, t)" "publisher_runs p t u"
  shows "publisher_runs p s u"
  using assms(2,1) by (induction rule: publisher_runs.induct) (auto intro: publisher_runs.intros)

lemma publisher_Run_runs:
  assumes "publisher_Run p s = Some res"
  shows "\<exists>t. publisher_runs p s t \<and> publisher_iteration p t = (Return (fst res), snd res)"
proof -
  let ?P = "\<lambda>p s res. \<exists>t. publisher_runs p s t \<and> publisher_iteration p t = (Return (fst res), snd res)"
  show ?thesis
  proof (rule publisher_Run.raw_induct [of ?P])
    fix run p s res
    assume IH: "\<And>p s res. run p s = Some res \<Longrightarrow> ?P p s res"
      and step: "(case publisher_iteration p s of (Continue, s) \<Rightarrow> run p s | (Return e, s) \<Rightarrow> Some (e, s)) = Some res"
    obtain q t where it: "publisher_iteration p s = (q, t)" by (metis surj_pair)
    show "?P p s res"
    proof (cases q)
      case Continue
      with step it have "run p t = Some res" by simp
      from IH [OF this] it Continue show ?thesis by (auto intro: publisher_runs_first)
    next
      case (Return v)
      with step it have "res = (v, t)" by simp
      with it Return show ?thesis by (auto intro: publisher_runs.intros)
    qed
  qed (rule assms)
qed

definition only_heartbeats :: "'w publisher \<Rightarrow> call list \<Rightarrow> bool" where
  "only_heartbeats p cs \<longleftrightarrow> (\<exists>css. cs = concat css \<and> list_all (publisher_calls p) css)"

lemma publisher_runs_calls:
  "publisher_runs p s t \<Longrightarrow> \<exists>cs. st_calls t = st_calls s @ cs \<and> only_heartbeats p cs"
proof (induction rule: publisher_runs.induct)
  case (published_start s)
  show ?case by (simp add: only_heartbeats_def) (rule exI [of _ "[]"], simp)
next
  case (published_again s t u)
  from published_again.IH obtain css where
    css: "st_calls t = st_calls s @ concat css" "list_all (publisher_calls p) css"
    unfolding only_heartbeats_def by blast
  from publisher_iteration_calls [OF published_again.hyps(2)] obtain cs where
    cs: "st_calls u = st_calls t @ cs" "publisher_calls p cs" by blast
  then have "st_calls u = st_calls s @ concat (css @ [cs])" "list_all (publisher_calls p) (css @ [cs])"
    using css by simp_all
  then show ?case unfolding only_heartbeats_def by blast
qed

text \<open>The context and the sleep report nothing but the end of the context.\<close>

definition honest_publisher :: "'w publisher_deps \<Rightarrow> bool" where
  "honest_publisher e \<longleftrightarrow>
     (\<forall>w x w'. pd_ctx_err e w = (Some x, w') \<longrightarrow> is_context_error x) \<and>
     (\<forall>t w x w'. pd_sleep e t w = (Some x, w') \<longrightarrow> is_context_error x)"

lemma pause_returns:
  assumes "honest_publisher (hp_env p)" "pause p s = (Return e, s')"
  shows "\<exists>x. e = Some x \<and> is_context_error x"
proof -
  obtain y s2 where y: "publisher_sleep p (hp_interval p) s = (y, s2)" by (metis surj_pair)
  with assms(2) obtain x where x: "y = Some x" "e = Some x" by (cases y) (auto simp: pause_def)
  then have "\<exists>w w'. pd_sleep (hp_env p) (hp_interval p) w = (Some x, w')"
    using y by (auto simp: publisher_sleep_def invoke_def split: if_splits prod.splits)
  then show ?thesis using assms(1) x unfolding honest_publisher_def by blast
qed

lemma publisher_iteration_returns:
  assumes "honest_publisher (hp_env p)" "publisher_iteration p s = (Return e, s')"
  shows "\<exists>x. e = Some x \<and> is_context_error x"
proof -
  obtain c s1 where c: "silent (pd_ctx_err (hp_env p)) s = (c, s1)" by (metis surj_pair)
  show ?thesis
  proof (cases c)
    case (Some x)
    then have "\<exists>w w'. pd_ctx_err (hp_env p) w = (Some x, w')"
      using c by (auto simp: silent_def split: prod.splits)
    then have "is_context_error x" using assms(1) unfolding honest_publisher_def by blast
    moreover have "e = Some x" using assms(2) c Some by (simp add: publisher_iteration_def)
    ultimately show ?thesis by simp
  next
    case None
    obtain x s2 where h: "PublishHeartbeat (hp_deps p) (hp_runner p) s1 = (x, s2)" by (metis surj_pair)
    from assms(2) c None h have "(\<exists>t. pause p t = (Return e, s')) \<or> (\<exists>y. e = Some y \<and> is_context_error y)"
      by (auto simp: publisher_iteration_def split: option.splits if_splits)
    then show ?thesis using pause_returns [OF assms(1)] by blast
  qed
qed



text \<open>A publisher whose first pause is interrupted by the end of the context.\<close>

definition demo_publisher :: "unit publisher" where
  "demo_publisher = \<lparr>hp_deps = demo_deps, hp_runner = demo_r,
     hp_env = \<lparr>pd_ctx_err = \<lambda>w. (None, w), pd_sleep = \<lambda>t w. (Some (Sentinel Canceled), w), pd_errorHandler = None\<rparr>,
     hp_interval = seconds 30\<rparr>"


end
