(* ===== verification/OutcomeReport.thy ===== *)
theory OutcomeReport
  imports RunOnce GoTimeFormat
begin

text \<open>
  What the command line prints of an outcome and the exit code it derives from it
  (\<open>cmd/clusterrebootd/main.go\<close>), and the version of the binary (\<open>pkg/version/version.go\<close>).
  A writer is the text it writes.
\<close>

section \<open>Lines\<close>

definition line :: "string \<Rightarrow> string" where
  "line s = s @ [CHR 0x0A]"

text \<open>\<open>d.Round(m)\<close>: to the nearest multiple, halves away from zero, saturating.\<close>

definition duration_Round :: "duration \<Rightarrow> duration \<Rightarrow> duration" where
  "duration_Round d m =
     (if sint m \<le> 0 then d
      else
        (let n = sint d; k = sint m; r = n smod k in
         if n < 0 then (if 2 * - r < k then word_of_int (n - r) else saturate (n - k - r))
         else (if 2 * r < k then word_of_int (n - r) else saturate (n + k - r))))"

definition ms_text :: "duration \<Rightarrow> string" where
  "ms_text d = DurationString (duration_Round d Millisecond)"

text \<open>\<open>if out := strings.TrimSpace(s); out != ""\<close>: a labelled line of the trimmed text.\<close>

definition trimmed_line :: "string \<Rightarrow> string \<Rightarrow> string" where
  "trimmed_line label s = (let out = TrimSpace s in if out \<noteq> [] then line (label @ out) else [])"

section \<open>Writers\<close>

definition detector_line :: "det_result \<Rightarrow> string" where
  "detector_line res =
     (let status = (case dr_Err res of
                      Some e \<Rightarrow> ''error: '' @ error_text e
                    | None \<Rightarrow> if dr_RequiresReboot res then ''reboot-required'' else ''clear'')
      in line (''  - '' @ dr_Name res @ '' => '' @ status @ '' (duration '' @ ms_text (dr_Duration res) @ '')'')) @
     (case dr_CommandOutput res of
        None \<Rightarrow> []
      | Some out \<Rightarrow>
        line (''      exit code: '' @ Itoa (co_ExitCode out)) @
        trimmed_line ''      stdout: '' (co_Stdout out) @
        trimmed_line ''      stderr: '' (co_Stderr out))"

definition writeDetectorResults :: "det_result list \<Rightarrow> string" where
  "writeDetectorResults results = concat (map detector_line results)"

definition writeHealthResult :: "string \<Rightarrow> health_result \<Rightarrow> string" where
  "writeHealthResult label res =
     line (label @ '': exit='' @ Itoa (hr_ExitCode res) @ '' duration='' @ ms_text (hr_Duration res)) @
     trimmed_line ''  stdout: '' (hr_Stdout res) @
     trimmed_line ''  stderr: '' (hr_Stderr res)"

definition healthLabel :: "string \<Rightarrow> string \<Rightarrow> string" where
  "healthLabel phase fallback =
     (let phase = TrimSpace phase in (if phase = [] then fallback else phase) @ '' health'')"

definition cluster_details :: "cluster_record \<Rightarrow> string list" where
  "cluster_details rec =
     (if cr_Stage rec \<noteq> [] then [''stage='' @ cr_Stage rec] else []) @
     (if cr_Reason rec \<noteq> [] then [''reason='' @ cr_Reason rec] else []) @
     (if \<not> IsZero (cr_ReportedAt rec) then [''reported_at='' @ format_RFC3339Nano (cr_ReportedAt rec)] else [])"

definition cluster_line :: "cluster_record \<Rightarrow> string" where
  "cluster_line rec =
     (if cluster_details rec \<noteq> []
      then line (''  - '' @ cr_Node rec @ '' ('' @ Join (cluster_details rec) '', '' @ '')'')
      else line (''  - '' @ cr_Node rec))"

definition writeClusterHealthRecords :: "cluster_record list \<Rightarrow> string" where
  "writeClusterHealthRecords records = concat (map cluster_line records)"

definition health_lines :: "health_result option \<Rightarrow> string \<Rightarrow> string \<Rightarrow> string" where
  "health_lines res phase fallback =
     (case res of None \<Rightarrow> [] | Some r \<Rightarrow> writeHealthResult (healthLabel phase fallback) r)"

definition reportOutcome :: "outcome \<Rightarrow> string" where
  "reportOutcome out =
     line ''pre-lock detector evaluations:'' @
     writeDetectorResults (DetectorResults out) @
     health_lines (PreLockHealthResult out) (PreLockHealthPhase out) ''pre-lock'' @
     (if LockAcquired out then line ''lock acquired'' else []) @
     (if PostLockDetectorResults out \<noteq> []
      then line ''post-lock detector evaluations:'' @ writeDetectorResults (PostLockDetectorResults out) else []) @
     health_lines (PostLockHealthResult out) (PostLockHealthPhase out) ''post-lock'' @
     (if ClusterUnhealthy out \<noteq> []
      then line ''cluster health blockers:'' @ writeClusterHealthRecords (ClusterUnhealthy out) else []) @
     line (''outcome: '' @ (case Status out of None \<Rightarrow> [] | Some st \<Rightarrow> status_text st) @ '' - '' @ Message out) @
     (if Command out \<noteq> [] then line (''planned reboot command: '' @ Join (Command out) '' '') else []) @
     (if out_DryRun out then line ''dry-run enabled: reboot command not executed'' else [])"

section \<open>Exit codes\<close>

definition exitOK :: int where "exitOK = 0"
definition exitUsage :: int where "exitUsage = 64"
definition exitRunError :: int where "exitRunError = 1"
definition exitConfigError :: int where "exitConfigError = 2"
definition exitHealthBlocked :: int where "exitHealthBlocked = 3"
definition exitLockUnavailable :: int where "exitLockUnavailable = 4"
definition exitKillSwitch :: int where "exitKillSwitch = 5"
definition exitDetectorError :: int where "exitDetectorError = 6"

lemmas exit_codes = exitOK_def exitUsage_def exitRunError_def exitConfigError_def exitHealthBlocked_def
  exitLockUnavailable_def exitKillSwitch_def exitDetectorError_def

definition exitCodeForOutcome :: "outcome \<Rightarrow> int" where
  "exitCodeForOutcome out =
     (case Status out of
        Some OutcomeKillSwitch \<Rightarrow> exitKillSwitch
      | Some OutcomeHealthBlocked \<Rightarrow> exitHealthBlocked
      | Some OutcomeLockUnavailable \<Rightarrow> exitLockUnavailable
      | _ \<Rightarrow> exitOK)"

section \<open>The version\<close>

record build_setting =
  bs_Key :: string
  bs_Value :: string

record build_info =
  bi_MainVersion :: string
  bi_Settings :: "build_setting list"

definition defaultVersion :: string where
  "defaultVersion = ''0.1.0-dev''"

definition sanitizeModuleVersion :: "string \<Rightarrow> string" where
  "sanitizeModuleVersion v =
     (let v = TrimSpace v in if v = [] \<or> v = ''(devel)'' then [] else v)"

definition scan_setting :: "build_setting \<Rightarrow> string \<times> bool \<Rightarrow> string \<times> bool" where
  "scan_setting x = (\<lambda>(revision, modified).
     if bs_Key x = ''vcs.revision'' then (TrimSpace (bs_Value x), modified)
     else if bs_Key x = ''vcs.modified'' then (revision, bs_Value x = ''true'')
     else (revision, modified))"

definition deriveFromSettings :: "build_setting list \<Rightarrow> string" where
  "deriveFromSettings settings =
     (let (revision, modified) = fold scan_setting settings ([], False) in
      if revision = [] then []
      else ''devel+'' @ take 12 revision @ (if modified then ''-dirty'' else []))"

text \<open>\<open>info\<close> is what \<open>debug.ReadBuildInfo\<close> finds in the binary, if anything.\<close>

definition deriveVersion :: "build_info option \<Rightarrow> string \<Rightarrow> string" where
  "deriveVersion info current =
     (if current \<noteq> [] \<and> current \<noteq> defaultVersion then current
      else
        (case info of
           None \<Rightarrow> current
         | Some i \<Rightarrow>
           (let v = sanitizeModuleVersion (bi_MainVersion i) in
            if v \<noteq> [] then v
            else (let v = deriveFromSettings (bi_Settings i) in if v \<noteq> [] then v else current))))"

end
