(* ===== verification/CommandLine.thy ===== *)
theory CommandLine
  imports NewRunner HealthManager ClusterLock HealthPublisher OutcomeReport
begin

text \<open>
  The commands of \<open>cmd/clusterrebootd/main.go\<close>.  They share the state of the runner, so that the
  trace of a command is that of the passes it makes.  The machine around the program is an argument:
  files, the YAML decoder, TLS material, the network, the standard streams.
\<close>

section \<open>Flags\<close>

text \<open>
  \<open>flag.FlagSet.Parse\<close> for flags of the two kinds in use: a Boolean flag needs no value, a string
  flag takes the next argument.  Parsing stops at the first argument that is no flag.
\<close>

datatype flag_kind = BoolFlag | StringFlag

definition parse_bool :: "string \<Rightarrow> bool option" where
  "parse_bool s =
     (if s \<in> set [''1'', ''t'', ''T'', ''TRUE'', ''true'', ''True''] then Some True
      else if s \<in> set [''0'', ''f'', ''F'', ''FALSE'', ''false'', ''False''] then Some False
      else None)"

text \<open>The name and the value of an argument that starts with one or two dashes; \<^const>\<open>None\<close> for an
  argument that is no flag.\<close>

definition flag_body :: "string \<Rightarrow> string option" where
  "flag_body s =
     (if length s < 2 \<or> hd s \<noteq> CHR ''-'' then None
      else if s ! 1 = CHR ''-'' then Some (drop 2 s) else Some (drop 1 s))"

definition flag_split :: "string \<Rightarrow> string \<times> string option" where
  "flag_split body =
     (case IndexByte (drop 1 body) (CHR ''='') of
        None \<Rightarrow> (body, None)
      | Some i \<Rightarrow> (take (Suc i) body, Some (drop (Suc (Suc i)) body)))"

definition bad_flag :: "string \<Rightarrow> bool" where
  "bad_flag body \<longleftrightarrow> body = [] \<or> hd body = CHR ''-'' \<or> hd body = CHR ''=''"

fun parse_flags :: "(string \<rightharpoonup> flag_kind) \<Rightarrow> (string \<rightharpoonup> string) \<Rightarrow> string list \<Rightarrow> (string \<rightharpoonup> string) option" where
  "parse_flags kinds vals [] = Some vals"
| "parse_flags kinds vals (a # as) =
     (case flag_body a of
        None \<Rightarrow> Some vals
      | Some body \<Rightarrow>
        if a = ''--'' then Some vals
        else if bad_flag body then None
        else
          (let (name, value) = flag_split body in
           case kinds name of
             None \<Rightarrow> None
           | Some BoolFlag \<Rightarrow>
             (case value of
                None \<Rightarrow> parse_flags kinds (vals(name \<mapsto> ''true'')) as
              | Some v \<Rightarrow> if parse_bool v = None then None else parse_flags kinds (vals(name \<mapsto> v)) as)
           | Some StringFlag \<Rightarrow>
             (case value of
                Some v \<Rightarrow> parse_flags kinds (vals(name \<mapsto> v)) as
              | None \<Rightarrow> (case as of [] \<Rightarrow> None | v # rest \<Rightarrow> parse_flags kinds (vals(name \<mapsto> v)) rest))))"

definition flag_on :: "(string \<rightharpoonup> string) \<Rightarrow> string \<Rightarrow> bool" where
  "flag_on vals name = (case vals name of None \<Rightarrow> False | Some v \<Rightarrow> parse_bool v = Some True)"

definition DefaultConfigPath :: string where
  "DefaultConfigPath = ''/etc/clusterrebootd/config.yaml''"

definition config_path :: "(string \<rightharpoonup> string) \<Rightarrow> string" where
  "config_path vals = or_else DefaultConfigPath (vals ''config'')"

section \<open>The machine\<close>

record 'w machine =
  mc_runtime :: "'w runtime"
  mc_stdout :: "string \<Rightarrow> 'w \<Rightarrow> 'w"
  mc_stderr :: "string \<Rightarrow> 'w \<Rightarrow> 'w"
  mc_flag_message :: "string list \<Rightarrow> string"
  mc_yaml :: "string \<Rightarrow> go_error + config"
  mc_open :: "'w \<Rightarrow> string \<Rightarrow> go_error + string"
  mc_keypair :: "string \<Rightarrow> string \<Rightarrow> 'w \<Rightarrow> go_error + string"
  mc_pool :: "string \<Rightarrow> string option"
  mc_dial :: "'w dialer"
  mc_texts :: parse_texts
  mc_getpid :: int
  mc_marshal_event :: "event \<Rightarrow> go_error + string"
  mc_listen :: "string \<Rightarrow> 'w \<Rightarrow> (go_error + string) \<times> 'w"
  mc_collect :: "metric \<Rightarrow> 'w \<Rightarrow> 'w"
  mc_shutdown :: "'w \<Rightarrow> go_error option \<times> 'w"
  mc_serve :: "'w \<Rightarrow> go_error option \<times> 'w"
  mc_run :: "string list \<Rightarrow> 'w \<Rightarrow> go_error option \<times> 'w"
  mc_ctx_err :: "'w \<Rightarrow> go_error option \<times> 'w"
  mc_loop_sleep :: "duration \<Rightarrow> 'w \<Rightarrow> go_error option \<times> 'w"
  mc_heartbeats :: "'w publisher \<Rightarrow> 'w \<Rightarrow> go_error option \<times> 'w"
  mc_build_info :: "build_info option"
  mc_version :: string

definition say :: "'w machine \<Rightarrow> string \<Rightarrow> 'w st \<Rightarrow> 'w st" where
  "say M text = tell (mc_stdout M text)"

definition complain :: "'w machine \<Rightarrow> string \<Rightarrow> 'w st \<Rightarrow> 'w st" where
  "complain M text = tell (mc_stderr M text)"

definition os_of :: "'w machine \<Rightarrow> 'w os" where
  "os_of M = rt_os (mc_runtime M)"

section \<open>Steps of a command\<close>

text \<open>A command ends with its exit code, the heartbeat loop it left running, if any, and the state; it
  may also run for ever.\<close>

type_synonym 'w command = "'w st \<Rightarrow> (int \<times> 'w publisher option \<times> 'w st) option"

definition stop :: "int \<Rightarrow> 'w command" where
  "stop code s = Some (code, None, s)"

definition fail :: "'w machine \<Rightarrow> int \<Rightarrow> string \<Rightarrow> go_error \<Rightarrow> 'w command" where
  "fail M code msg e s = stop code (complain M (line (msg @ '': '' @ error_text e)) s)"

definition or_fail :: "'w machine \<Rightarrow> int \<Rightarrow> string \<Rightarrow> go_error + 'a \<Rightarrow> ('a \<Rightarrow> 'w command) \<Rightarrow> 'w command" where
  "or_fail M code msg x k s = (case x of Inl e \<Rightarrow> fail M code msg e s | Inr a \<Rightarrow> k a s)"

definition obtain_or_fail :: "'w machine \<Rightarrow> int \<Rightarrow> string \<Rightarrow> ('w \<Rightarrow> (go_error + 'a) \<times> 'w) \<Rightarrow> ('a \<Rightarrow> 'w command)
    \<Rightarrow> 'w command" where
  "obtain_or_fail M code msg f k s = (let (x, s) = silent f s in or_fail M code msg x k s)"

text \<open>\<open>defer\<close> of a call whose result nobody looks at.\<close>

definition finally_do :: "('w st \<Rightarrow> 'w st) \<Rightarrow> 'w command \<Rightarrow> 'w command" where
  "finally_do f k s = map_option (\<lambda>(code, p, s). (code, p, f s)) (k s)"

definition closing :: "('w \<Rightarrow> go_error option \<times> 'w) \<Rightarrow> 'w command \<Rightarrow> 'w command" where
  "closing f = finally_do (\<lambda>s. snd (silent f s))"

definition with_flags :: "'w machine \<Rightarrow> (string \<rightharpoonup> flag_kind) \<Rightarrow> string list \<Rightarrow> ((string \<rightharpoonup> string) \<Rightarrow> 'w command)
    \<Rightarrow> 'w command" where
  "with_flags M kinds args k s =
     (case parse_flags kinds Map.empty args of
        None \<Rightarrow> stop exitUsage (complain M (mc_flag_message M args) s)
      | Some vals \<Rightarrow> k vals s)"

definition with_config :: "'w machine \<Rightarrow> string \<Rightarrow> (string \<rightharpoonup> string) \<Rightarrow> (config \<Rightarrow> 'w command) \<Rightarrow> 'w command" where
  "with_config M msg vals k s =
     or_fail M exitConfigError msg (Load (mc_yaml M) (mc_open M (st_world s)) (config_path vals)) k s"

definition with_engine :: "'w machine \<Rightarrow> config \<Rightarrow> (engine \<Rightarrow> 'w command) \<Rightarrow> 'w command" where
  "with_engine M cfg k =
     or_fail M exitConfigError ''failed to construct detectors'' (NewAll (RebootRequiredDetectors cfg)) (\<lambda>ds.
     or_fail M exitConfigError ''failed to initialise detector engine'' (NewEngine ds) k)"

section \<open>Managers\<close>

definition buildEtcdTLSConfig :: "'w machine \<Rightarrow> etcd_tls_config option \<Rightarrow> 'w \<Rightarrow> go_error + tls_config option" where
  "buildEtcdTLSConfig M cfg w =
     (case cfg of
        None \<Rightarrow> Inr None
      | Some c \<Rightarrow>
        if \<not> tls_Enabled c then Inr None
        else
          (case mc_keypair M (tls_CertFile c) (tls_KeyFile c) w of
             Inl e \<Rightarrow> Inl (Wrapf ''load etcd client certificate'' e)
           | Inr cert \<Rightarrow>
             (case mc_open M w (tls_CAFile c) of
                Inl e \<Rightarrow> Inl (Wrapf ''read etcd CA file'' e)
              | Inr bytes \<Rightarrow>
                (case mc_pool M bytes of
                   None \<Rightarrow> Inl (ErrMsg (''parse etcd CA file: '' @ tls_CAFile c))
                 | Some pool \<Rightarrow> Inr (Some \<lparr>tc_Certificate = cert, tc_RootCAs = pool, tc_MinVersion = 0x0303,
                     tc_InsecureSkipVerify = tls_Insecure c\<rparr>)))))"

definition with_tls :: "'w machine \<Rightarrow> config \<Rightarrow> (tls_config option \<Rightarrow> 'w command) \<Rightarrow> 'w command" where
  "with_tls M cfg k s =
     or_fail M exitConfigError ''failed to configure etcd TLS'' (buildEtcdTLSConfig M (EtcdTLS cfg) (st_world s)) k s"

definition lock_options_of :: "'w machine \<Rightarrow> config \<Rightarrow> tls_config option \<Rightarrow> lock_options" where
  "lock_options_of M cfg tls = \<lparr>lo_Endpoints = EtcdEndpoints cfg, lo_DialTimeout = 5 * Second,
     lo_LockKey = LockKey cfg, lo_Namespace = EtcdNamespace cfg, lo_TTL = LockTTL cfg, lo_TLS = tls,
     lo_NodeName = NodeName cfg, lo_ProcessID = mc_getpid M\<rparr>"

definition cooldown_options_of :: "config \<Rightarrow> tls_config option \<Rightarrow> cooldown_options" where
  "cooldown_options_of cfg tls = \<lparr>co_Endpoints = EtcdEndpoints cfg, co_DialTimeout = 5 * Second,
     co_Namespace = EtcdNamespace cfg, co_Key = ''reboot_cooldown'', co_TLS = tls, co_NodeName = NodeName cfg\<rparr>"

definition health_options_of :: "config \<Rightarrow> tls_config option \<Rightarrow> health_options" where
  "health_options_of cfg tls = \<lparr>ho_Endpoints = EtcdEndpoints cfg, ho_DialTimeout = 5 * Second,
     ho_Namespace = EtcdNamespace cfg, ho_Prefix = ''cluster_health'', ho_TLS = tls, ho_NodeName = NodeName cfg\<rparr>"

text \<open>\<open>status\<close> opens the lock and the cooldown before it defers their closing; \<open>run\<close> defers each
  when it is open.\<close>

definition open_lock :: "'w machine \<Rightarrow> config \<Rightarrow> tls_config option \<Rightarrow> ('w lock_manager \<Rightarrow> 'w command) \<Rightarrow> 'w command" where
  "open_lock M cfg tls =
     obtain_or_fail M exitRunError ''failed to initialise lock manager''
       (NewLockManager (rt_unrepresentable (mc_runtime M)) (mc_dial M) (mc_getpid M) (os_now (os_of M))
          (lock_options_of M cfg tls))"

definition open_cooldown :: "'w machine \<Rightarrow> config \<Rightarrow> tls_config option \<Rightarrow> ('w cooldown_manager option \<Rightarrow> 'w command)
    \<Rightarrow> 'w command" where
  "open_cooldown M cfg tls k =
     (if 0 < MinRebootIntervalSec cfg then
        obtain_or_fail M exitRunError ''failed to initialise cooldown manager''
          (NewCooldownManager (mc_dial M) (os_now (os_of M)) (cooldown_options_of cfg tls))
          (\<lambda>m. k (Some m))
      else k None)"

definition close_cooldown :: "'w cooldown_manager option \<Rightarrow> 'w command \<Rightarrow> 'w command" where
  "close_cooldown m k = (case m of None \<Rightarrow> k | Some m \<Rightarrow> closing (cooldown_Close m) k)"

definition with_lock :: "'w machine \<Rightarrow> config \<Rightarrow> tls_config option \<Rightarrow> ('w lock_manager \<Rightarrow> 'w command) \<Rightarrow> 'w command" where
  "with_lock M cfg tls k = open_lock M cfg tls (\<lambda>m. closing (lock_Close m) (k m))"

definition with_cooldown :: "'w machine \<Rightarrow> config \<Rightarrow> tls_config option \<Rightarrow> ('w cooldown_manager option \<Rightarrow> 'w command)
    \<Rightarrow> 'w command" where
  "with_cooldown M cfg tls k = open_cooldown M cfg tls (\<lambda>m. close_cooldown m (k m))"

definition with_health :: "'w machine \<Rightarrow> config \<Rightarrow> tls_config option \<Rightarrow> ('w health_manager \<Rightarrow> 'w command) \<Rightarrow> 'w command" where
  "with_health M cfg tls k =
     obtain_or_fail M exitRunError ''failed to initialise cluster health manager''
       (NewHealthManager (mc_dial M) (os_now (os_of M)) (health_options_of cfg tls))
       (\<lambda>m. closing (health_Close m) (k m))"

text \<open>The managers as the runner sees them.\<close>

definition lock_client_of :: "'w lock_manager \<Rightarrow> 'w lock_client" where
  "lock_client_of m = \<lparr>lc_Acquire = lock_Acquire m, lc_Release = lease_Release m\<rparr>"

definition noop_lock_client :: "'w os \<Rightarrow> 'w lock_client" where
  "noop_lock_client os = \<lparr>lc_Acquire = noop_Acquire os, lc_Release = noop_Release\<rparr>"

definition cooldown_client_of :: "'w machine \<Rightarrow> 'w cooldown_manager \<Rightarrow> 'w cooldown_client" where
  "cooldown_client_of M m = \<lparr>cc_Status = cooldown_Status (mc_texts M) (os_now (os_of M)) m,
     cc_Start = cooldown_Start (rt_unrepresentable (mc_runtime M)) m\<rparr>"

definition health_client_of :: "'w machine \<Rightarrow> 'w health_manager \<Rightarrow> 'w health_client" where
  "health_client_of M m = \<lparr>hc_ReportHealthy = etcd_ReportHealthy m, hc_ReportUnhealthy = etcd_ReportUnhealthy m,
     hc_Status = etcd_HealthStatus (mc_texts M) m\<rparr>"

definition detect_of :: "'w machine \<Rightarrow> engine \<Rightarrow> 'w detect" where
  "detect_of M en w = (let (req, rs, e, w) = engine_Evaluate (os_of M) en w in ((req, rs, e), w))"

definition health_of :: "'w machine \<Rightarrow> script_runner \<Rightarrow> 'w run_health" where
  "health_of M sr extra w = (let (res, e, w) = script_Run (os_of M) sr extra w in ((res, e), w))"

definition skipHealth_Run :: "'w run_health" where
  "skipHealth_Run extraEnv w =
     (let phase = TrimSpace (or_else [] (extraEnv ''RC_PHASE''));
          phase = (if phase = [] then ''unspecified'' else phase)
      in ((\<lparr>hr_ExitCode = 0, hr_Stdout = ''health script skipped during '' @ phase @ '' (--skip-health)'',
            hr_Stderr = [], hr_Duration = 0\<rparr>, None), w))"

end
