(* ===== verification/Commands.thy ===== *)
theory Commands
  imports CommandLine
begin

text \<open>
  The commands themselves: \<open>run\<close>, \<open>status\<close>, \<open>validate-config\<close>, \<open>simulate\<close> and the dispatcher of
  \<open>cmd/clusterrebootd/main.go\<close>, each from the arguments to the exit code, with the deferred calls in
  the order in which Go runs them.
\<close>

section \<open>The variables of a run\<close>

text \<open>The loop is given closures over three variables of \<open>commandRunWithWriters\<close>; so it works on a
  world that has them beside the world of the machine.\<close>

record 'w process_world =
  pw_world :: 'w
  pw_iteration :: int
  pw_lastOutcome :: outcome
  pw_executed :: bool

definition in_world :: "('w \<Rightarrow> 'a \<times> 'w) \<Rightarrow> 'w process_world \<Rightarrow> 'a \<times> 'w process_world" where
  "in_world f p = (let (x, w) = f (pw_world p) in (x, p\<lparr>pw_world := w\<rparr>))"

definition write_world :: "('w \<Rightarrow> 'w) \<Rightarrow> 'w process_world \<Rightarrow> 'w process_world" where
  "write_world f p = p\<lparr>pw_world := f (pw_world p)\<rparr>"

definition process_deps :: "'w deps \<Rightarrow> 'w process_world deps" where
  "process_deps d = \<lparr>d_time = in_world (d_time d), d_now = in_world (d_now d),
     d_checkKill = (\<lambda>p. in_world (d_checkKill d p)), d_evaluate = in_world (d_evaluate d),
     d_health = (\<lambda>env. in_world (d_health d env)), d_clusterStatus = in_world (d_clusterStatus d),
     d_reportHealthy = in_world (d_reportHealthy d), d_reportUnhealthy = (\<lambda>x. in_world (d_reportUnhealthy d x)),
     d_cooldownStatus = in_world (d_cooldownStatus d), d_cooldownStart = (\<lambda>t. in_world (d_cooldownStart d t)),
     d_acquire = in_world (d_acquire d), d_release = (\<lambda>l. in_world (d_release d l)),
     d_sleep = (\<lambda>t. in_world (d_sleep d t)), d_random = (\<lambda>n. in_world (d_random d n)),
     d_getenv = (\<lambda>p. d_getenv d (pw_world p)), d_peerOrder = (\<lambda>m. in_world (d_peerOrder d m)),
     d_report = (\<lambda>x. write_world (d_report d x)), d_unrepresentable = d_unrepresentable d\<rparr>"

definition to_process :: "'w st \<Rightarrow> 'w process_world st" where
  "to_process s = \<lparr>st_world = \<lparr>pw_world = st_world s, pw_iteration = 0, pw_lastOutcome = empty_outcome,
       pw_executed = False\<rparr>,
     st_calls = st_calls s, st_reports = st_reports s, st_lastOutcome = st_lastOutcome s,
     st_summaries = st_summaries s, st_peers = st_peers s\<rparr>"

definition of_process :: "'w process_world st \<Rightarrow> 'w st" where
  "of_process s = \<lparr>st_world = pw_world (st_world s), st_calls = st_calls s, st_reports = st_reports s,
     st_lastOutcome = st_lastOutcome s, st_summaries = st_summaries s, st_peers = st_peers s\<rparr>"

text \<open>\<open>trackingExecutor.Execute\<close>.\<close>

definition tracking_Execute :: "'w machine \<Rightarrow> string list \<Rightarrow> 'w process_world \<Rightarrow> go_error option \<times> 'w process_world" where
  "tracking_Execute M command p =
     (case in_world (Execute_command (mc_run M) command) p of
        (Some e, p) \<Rightarrow> (Some e, p)
      | (None, p) \<Rightarrow> (None, p\<lparr>pw_executed := True\<rparr>))"

definition iteration_hook :: "'w machine \<Rightarrow> outcome \<Rightarrow> 'w process_world \<Rightarrow> 'w process_world" where
  "iteration_hook M out p =
     (let n = pw_iteration p + 1;
          text = line (''iteration '' @ Itoa n @ '' results:'') @ reportOutcome out @ line []
      in p\<lparr>pw_iteration := n, pw_world := mc_stdout M text (pw_world p), pw_lastOutcome := out\<rparr>)"

definition iteration_error :: "'w machine \<Rightarrow> go_error \<Rightarrow> 'w process_world \<Rightarrow> 'w process_world" where
  "iteration_error M e =
     write_world (mc_stderr M (line (''orchestration iteration failed: '' @ error_text e @ ''; retrying'')))"

definition process_loop :: "'w machine \<Rightarrow> config \<Rightarrow> 'w deps \<Rightarrow> runner \<Rightarrow> 'w process_world loop_env" where
  "process_loop M cfg d r = \<lparr>le_deps = process_deps d, le_runner = r,
     le_loop = \<lparr>ld_ctx_err = in_world (mc_ctx_err M), ld_execute = tracking_Execute M,
       ld_hook = iteration_hook M, ld_errorHandler = iteration_error M,
       ld_sleep = (\<lambda>t. in_world (mc_loop_sleep M t)), ld_random = (\<lambda>n. in_world (rt_random (mc_runtime M) n))\<rparr>,
     le_cfg = NewLoop cfg []\<rparr>"

section \<open>\<open>run\<close>\<close>

text \<open>The rest of the command once the runner is built: a single pass, or the loop.\<close>

definition print_error :: "'w machine \<Rightarrow> string \<Rightarrow> go_error \<Rightarrow> 'w st \<Rightarrow> 'w st" where
  "print_error M msg e = complain M (line (msg @ '': '' @ error_text e))"

definition release_or_fail :: "'w machine \<Rightarrow> 'w deps \<Rightarrow> runner \<Rightarrow> outcome \<Rightarrow> 'w command \<Rightarrow> 'w command" where
  "release_or_fail M d r out k s =
     (let (rel, out, s) = ReleaseLock d r out s in
      case rel of Some e \<Rightarrow> fail M exitRunError ''failed to release lock'' e s | None \<Rightarrow> k s)"

definition run_once :: "'w machine \<Rightarrow> 'w deps \<Rightarrow> runner \<Rightarrow> 'w command" where
  "run_once M d r s =
     (let (out, err, s) = RunOnce d r s in
      case err of
        Some e \<Rightarrow>
          if is_context_error e then stop exitOK (print_error M ''orchestration cancelled'' e s)
          else fail M exitRunError ''orchestration error'' e s
      | None \<Rightarrow>
          release_or_fail M d r out
            (\<lambda>s. stop (exitCodeForOutcome out)
               (if \<not> out_DryRun out \<and> Status out = Some OutcomeReady
                then say M (line ''ready outcome reached; run without --once to execute the reboot command'') s else s))
            (say M (reportOutcome out) s))"

definition loop_ended :: "'w machine \<Rightarrow> config \<Rightarrow> 'w deps \<Rightarrow> runner \<Rightarrow> go_error option \<Rightarrow> 'w process_world st \<Rightarrow> (int \<times> 'w publisher option \<times> 'w st) option" where
  "loop_ended M cfg d r err q =
     (let out = pw_lastOutcome (st_world q); executed = pw_executed (st_world q); s = of_process q in
      case err of
        Some e \<Rightarrow>
          if is_context_error e then
            (let s = say M (line ''shutdown requested; orchestration loop exiting'') s; code = exitCodeForOutcome out in
             stop (if code \<noteq> exitOK then code else exitOK) s)
          else fail M exitRunError ''orchestration loop error'' e s
      | None \<Rightarrow>
          (let s = (if Status out = Some OutcomeReady \<and> \<not> DryRun cfg then
                      say M (line (if executed then ''reboot command invoked; system reboot should be in progress''
                                   else ''ready outcome reached but reboot command was not executed'')) s
                    else s)
           in if \<not> executed then release_or_fail M d r out (stop (exitCodeForOutcome out)) s
              else stop (exitCodeForOutcome out) s))"

definition run_loop :: "'w machine \<Rightarrow> config \<Rightarrow> 'w deps \<Rightarrow> runner \<Rightarrow> 'w command" where
  "run_loop M cfg d r s =
     (case loop_Run (process_loop M cfg d r) \<lparr>lp_st = to_process s, lp_backoff = 0\<rparr> of
        None \<Rightarrow> None
      | Some (err, y) \<Rightarrow> loop_ended M cfg d r err (lp_st y))"

text \<open>The heartbeats beside the loop.\<close>

definition heartbeat_error :: "'w machine \<Rightarrow> go_error \<Rightarrow> 'w \<Rightarrow> 'w" where
  "heartbeat_error M e = mc_stderr M (line (''health heartbeat failed: '' @ error_text e @ ''; retrying''))"

definition publish_beside :: "'w machine \<Rightarrow> config \<Rightarrow> 'w deps \<Rightarrow> runner \<Rightarrow> 'w command \<Rightarrow> 'w command" where
  "publish_beside M cfg d r k s =
     (if HealthPublishingEnabled r \<and> 0 < sint (HealthPublishInterval cfg) then
        or_fail M exitRunError ''failed to initialise health publisher''
          (NewHealthPublisher \<lparr>pd_ctx_err = mc_ctx_err M, pd_sleep = mc_loop_sleep M, pd_errorHandler = None\<rparr>
             (Some (d, r)) (HealthPublishInterval cfg) [WithHealthPublisherErrorHandler (Some (heartbeat_error M))])
          (\<lambda>p s. map_option (\<lambda>(code, _, s). (code, Some p, s)) (k s)) s
      else k s)"

text \<open>The outermost \<open>defer\<close>: wait for the heartbeats to end.\<close>

definition wait_publisher :: "'w machine \<Rightarrow> 'w publisher option \<Rightarrow> 'w st \<Rightarrow> 'w st" where
  "wait_publisher M p s =
     (case p of
        None \<Rightarrow> s
      | Some p \<Rightarrow>
        (case silent (mc_heartbeats M p) s of
           (None, s) \<Rightarrow> s
         | (Some e, s) \<Rightarrow> if is_context_error e then s else print_error M ''health publisher exited'' e s))"

definition awaiting_publisher :: "'w machine \<Rightarrow> 'w command \<Rightarrow> 'w command" where
  "awaiting_publisher M k s = map_option (\<lambda>(code, p, s). (code, p, wait_publisher M p s)) (k s)"

text \<open>The server of the metrics, and what is left of it at the end.\<close>

definition stop_metrics :: "'w machine \<Rightarrow> 'w st \<Rightarrow> 'w st" where
  "stop_metrics M s =
     (let (err, s) = silent (mc_shutdown M) s;
          s = (case err of
                 None \<Rightarrow> s
               | Some e \<Rightarrow> if errors_Is e Canceled \<or> errors_Is e ErrServerClosed then s
                           else print_error M ''metrics server shutdown error'' e s);
          (err, s) = silent (mc_serve M) s
      in case err of
           None \<Rightarrow> s
         | Some e \<Rightarrow> if errors_Is e ErrServerClosed then s else print_error M ''metrics server error'' e s)"

definition with_metrics :: "'w machine \<Rightarrow> config \<Rightarrow> (string \<rightharpoonup> string)
    \<Rightarrow> ((metric \<Rightarrow> 'w \<Rightarrow> 'w) \<Rightarrow> (string \<rightharpoonup> string) \<Rightarrow> 'w command) \<Rightarrow> 'w command" where
  "with_metrics M cfg env k s =
     (if metrics_Enabled (Metrics cfg) then
        obtain_or_fail M exitRunError (''failed to start metrics listener on '' @ metrics_Listen (Metrics cfg))
          (mc_listen M (metrics_Listen (Metrics cfg)))
          (\<lambda>addr s. finally_do (stop_metrics M) (k (mc_collect M) (env(''RC_METRICS_ENDPOINT'' \<mapsto> addr)))
             (complain M (line (''metrics server listening on '' @ addr)) s)) s
      else k (\<lambda>m w. w) env s)"

definition run_options :: "'w machine \<Rightarrow> config \<Rightarrow> (metric \<Rightarrow> 'w \<Rightarrow> 'w) \<Rightarrow> (string \<rightharpoonup> string)
    \<Rightarrow> 'w cooldown_manager option \<Rightarrow> 'w health_manager \<Rightarrow> 'w runner_option list" where
  "run_options M cfg collect env cd hm =
     (let logger = NewJSONLogger (mc_marshal_event M) (os_now (os_of M)) (Some (\<lambda>text w. (None, mc_stderr M text w)));
          reporter = NewStructuredReporter (NodeName cfg) (Some (JSONLogger_Log logger)) (Some collect)
      in [WithReporter (Some (structured_report reporter)), WithCommandEnvironment env] @
         (case cd of None \<Rightarrow> [] | Some m \<Rightarrow> [WithCooldownManager (Some (cooldown_client_of M m))]) @
         [WithClusterHealthManager (Some (health_client_of M hm))])"

definition start_runner :: "'w machine \<Rightarrow> config \<Rightarrow> engine \<Rightarrow> 'w run_health \<Rightarrow> 'w lock_client
    \<Rightarrow> 'w runner_option list \<Rightarrow> ('w deps \<Rightarrow> runner \<Rightarrow> 'w command) \<Rightarrow> 'w command" where
  "start_runner M cfg en health locker opts k =
     or_fail M exitRunError ''failed to initialise orchestrator''
       (NewRunner (mc_runtime M) (Some cfg) (Some (detect_of M en)) (Some health) (Some locker) opts)
       (\<lambda>(r, d). k d r)"

definition run_flags :: "string \<rightharpoonup> flag_kind" where
  "run_flags = [''config'' \<mapsto> StringFlag, ''dry-run'' \<mapsto> BoolFlag, ''once'' \<mapsto> BoolFlag]"

definition run_configured :: "'w machine \<Rightarrow> bool \<Rightarrow> config \<Rightarrow> 'w command" where
  "run_configured M once cfg =
     awaiting_publisher M
      (with_engine M cfg (\<lambda>en.
       with_tls M cfg (\<lambda>tls.
       with_lock M cfg tls (\<lambda>lm.
       with_cooldown M cfg tls (\<lambda>cd.
       with_health M cfg tls (\<lambda>hm.
       with_metrics M cfg (BaseEnvironment cfg) (\<lambda>collect env.
       or_fail M exitConfigError ''failed to construct health runner''
         (NewScriptRunner (HealthScript cfg) (HealthTimeout cfg) env) (\<lambda>sr.
       start_runner M cfg en (health_of M sr) (lock_client_of lm) (run_options M cfg collect env cd hm) (\<lambda>d r s.
         (if once then run_once M d r else publish_beside M cfg d r (run_loop M cfg d r))
           (say M (line (''starting orchestration for node '' @ NodeName cfg @ '' (dry-run='' @
              FormatBool (DryRun cfg) @ '')'')) s))))))))))"

definition commandRun :: "'w machine \<Rightarrow> string list \<Rightarrow> 'w command" where
  "commandRun M args =
     with_flags M run_flags args (\<lambda>vals.
     with_config M ''failed to load configuration'' vals (\<lambda>cfg.
     run_configured M (flag_on vals ''once'')
       (if flag_on vals ''dry-run'' then cfg\<lparr>DryRun := True\<rparr> else cfg)))"

section \<open>\<open>status\<close>\<close>

definition status_flags :: "string \<rightharpoonup> flag_kind" where
  "status_flags = [''config'' \<mapsto> StringFlag, ''skip-health'' \<mapsto> BoolFlag, ''skip-lock'' \<mapsto> BoolFlag]"

definition status_env :: "config \<Rightarrow> bool \<Rightarrow> bool \<Rightarrow> string \<rightharpoonup> string" where
  "status_env cfg skipHealth skipLock =
     (let env = BaseEnvironment cfg;
          env = (if skipHealth then env(''RC_SKIP_HEALTH'' \<mapsto> ''true'') else env)
      in if skipLock then env(''RC_SKIP_LOCK'' \<mapsto> ''true'') else env)"

definition status_health :: "'w machine \<Rightarrow> config \<Rightarrow> bool \<Rightarrow> (string \<rightharpoonup> string) \<Rightarrow> ('w run_health \<Rightarrow> 'w command) \<Rightarrow> 'w command" where
  "status_health M cfg skipHealth env k s =
     (if skipHealth then k skipHealth_Run (complain M (line ''skipping health script execution (--skip-health)'') s)
      else or_fail M exitConfigError ''failed to construct health runner''
        (NewScriptRunner (HealthScript cfg) (HealthTimeout cfg) env) (\<lambda>sr. k (health_of M sr)) s)"

text \<open>The lock is closed when the command ends, but not when the cooldown cannot be opened.\<close>

definition status_managers :: "'w machine \<Rightarrow> config \<Rightarrow> tls_config option \<Rightarrow> bool
    \<Rightarrow> ('w lock_client \<Rightarrow> 'w cooldown_manager option \<Rightarrow> 'w health_manager option \<Rightarrow> 'w command) \<Rightarrow> 'w command" where
  "status_managers M cfg tls skipLock k s =
     (if skipLock then
        open_cooldown M cfg tls (\<lambda>cd. close_cooldown cd (k (noop_lock_client (os_of M)) cd None))
          (complain M (line ''skipping lock acquisition (--skip-lock)'') s)
      else
        open_lock M cfg tls (\<lambda>lm.
        open_cooldown M cfg tls (\<lambda>cd.
        closing (lock_Close lm)
         (close_cooldown cd
           (with_health M cfg tls (\<lambda>hm. k (lock_client_of lm) cd (Some hm)))))) s)"

definition status_options :: "'w machine \<Rightarrow> (string \<rightharpoonup> string) \<Rightarrow> bool \<Rightarrow> 'w cooldown_manager option
    \<Rightarrow> 'w health_manager option \<Rightarrow> 'w runner_option list" where
  "status_options M env skipLock cd hm =
     [WithMaxLockAttempts 1, WithCommandEnvironment env] @
     (if skipLock then [WithLockAcquisition False ''lock acquisition skipped (--skip-lock)''] else []) @
     (case cd of None \<Rightarrow> [] | Some m \<Rightarrow> [WithCooldownManager (Some (cooldown_client_of M m))]) @
     [WithClusterHealthManager (map_option (health_client_of M) hm), WithClusterHealthReporting False]"

definition status_once :: "'w machine \<Rightarrow> 'w deps \<Rightarrow> runner \<Rightarrow> 'w command" where
  "status_once M d r s =
     (let (out, err, s) = RunOnce d r s in
      case err of
        Some e \<Rightarrow>
          if is_context_error e then fail M exitRunError ''status check cancelled'' e s
          else fail M exitRunError ''status check error'' e s
      | None \<Rightarrow>
          release_or_fail M d r out (\<lambda>s. stop (exitCodeForOutcome out) (say M (line []) s))
            (say M (reportOutcome out) s))"

definition status_configured :: "'w machine \<Rightarrow> bool \<Rightarrow> bool \<Rightarrow> config \<Rightarrow> 'w command" where
  "status_configured M skipHealth skipLock cfg =
     (let env = status_env cfg skipHealth skipLock in
      with_engine M cfg (\<lambda>en.
      status_health M cfg skipHealth env (\<lambda>health.
      with_tls M cfg (\<lambda>tls.
      status_managers M cfg tls skipLock (\<lambda>locker cd hm.
      start_runner M cfg en health locker (status_options M env skipLock cd hm) (\<lambda>d r s.
        status_once M d r (say M (line (''status evaluation for node '' @ NodeName cfg @ '' (dry-run enforced)'')) s)))))))"

definition commandStatus :: "'w machine \<Rightarrow> string list \<Rightarrow> 'w command" where
  "commandStatus M args =
     with_flags M status_flags args (\<lambda>vals.
     with_config M ''failed to load configuration'' vals (\<lambda>cfg.
     status_configured M (flag_on vals ''skip-health'') (flag_on vals ''skip-lock'') (cfg\<lparr>DryRun := True\<rparr>)))"

section \<open>\<open>validate-config\<close> and \<open>simulate\<close>\<close>

definition config_flags :: "string \<rightharpoonup> flag_kind" where
  "config_flags = [''config'' \<mapsto> StringFlag]"

definition commandValidate :: "'w machine \<Rightarrow> string list \<Rightarrow> 'w command" where
  "commandValidate M args =
     with_flags M config_flags args (\<lambda>vals.
     with_config M ''configuration invalid'' vals (\<lambda>_ s.
     stop exitOK (say M (line (''configuration at '' @ config_path vals @ '' is valid'')) s)))"

definition simulation_text :: "config \<Rightarrow> bool \<Rightarrow> det_result list \<Rightarrow> string" where
  "simulation_text cfg req results =
     line (''node '' @ NodeName cfg @ '' configuration summary:'') @
     line (''  detectors: '' @ Join (map dr_Name results) '', '') @
     line (''  health script: '' @ HealthScript cfg) @
     line (''  etcd endpoints: '' @ Join (EtcdEndpoints cfg) '', '') @
     line (''  reboot command: '' @ Join (RebootCommand cfg) '' '') @
     line ''detector evaluations:'' @
     writeDetectorResults results @
     line (''overall reboot required: '' @ FormatBool req)"

definition simulate_configured :: "'w machine \<Rightarrow> config \<Rightarrow> 'w command" where
  "simulate_configured M cfg =
     with_engine M cfg (\<lambda>en s.
      (let ((req, results, err), s) = silent (detect_of M en) s;
           s = say M (simulation_text cfg req results) s
       in case err of
            Some e \<Rightarrow> fail M exitDetectorError ''detector evaluation encountered errors'' e s
          | None \<Rightarrow> stop exitOK (say M (line ''no reboot actions performed in simulation mode'') s)))"

definition commandSimulate :: "'w machine \<Rightarrow> string list \<Rightarrow> 'w command" where
  "commandSimulate M args =
     with_flags M config_flags args (\<lambda>vals.
     with_config M ''failed to load configuration'' vals (simulate_configured M))"

section \<open>The dispatcher\<close>

definition usage_text :: string where
  "usage_text =
     line ''Usage: clusterrebootd <command> [options]'' @
     line ''Commands:'' @
     line ''  run                Start the orchestration loop (use --once for a single pass)'' @
     line ''  validate-config    Validate the configuration file'' @
     line ''  simulate           Validate detectors and show configuration summary'' @
     line ''  status             Display current coordinator status'' @
     line ''  version            Print build version''"

definition usage :: "'w machine \<Rightarrow> 'w st \<Rightarrow> 'w st" where
  "usage M = complain M usage_text"

definition unknown_command :: "'w machine \<Rightarrow> string \<Rightarrow> 'w command" where
  "unknown_command M name s =
     stop exitUsage (usage M (complain M (line (''unknown command '' @ Quote name)) s))"

definition run :: "'w machine \<Rightarrow> string list \<Rightarrow> 'w command" where
  "run M args s =
     (case args of
        [] \<Rightarrow> stop exitUsage (usage M s)
      | name # rest \<Rightarrow>
        if name = ''run'' then commandRun M rest s
        else if name = ''validate-config'' then commandValidate M rest s
        else if name = ''simulate'' then commandSimulate M rest s
        else if name = ''status'' then commandStatus M rest s
        else if name = ''version'' then
          stop exitOK (say M (line (deriveVersion (mc_build_info M) (mc_version M))) s)
        else unknown_command M name s)"

end
