(* ===== verification/PassInvariant.thy ===== *)
theory PassInvariant
  imports RunOnce
begin

text \<open>
  Invariants of a pass.  Whatever a property of the state is about, the world, the trace or the memory
  of the runner: if every single call a pass may make preserves it, so does the pass.  The calls are
  the interface between the runner and its dependencies, hence the locales; the one without the lock
  covers the stages before the lock is taken and those under it.
\<close>

section \<open>Without the lock\<close>

locale pass_invariant =
  fixes d :: "'w deps" and r :: runner and J :: "'w st \<Rightarrow> bool"
  assumes on_time: "J s \<Longrightarrow> J (snd (silent (d_time d) s))"
    and on_window: "J s \<Longrightarrow> J (snd (invoke (\<lambda>w. let (t, w) = d_now d w in (Evaluate ev t, w)) WindowDecision s))"
    and on_random: "J s \<Longrightarrow> J (snd (silent (d_random d n) s))"
    and on_order: "J s \<Longrightarrow> J (snd (silent (d_peerOrder d m) s))"
    and on_report: "J s \<Longrightarrow> J (report d x s)"
    and on_kill: "J s \<Longrightarrow> J (snd (invoke (d_checkKill d path) CheckKill s))"
    and on_evaluate: "J s \<Longrightarrow> J (snd (invoke (d_evaluate d) (\<lambda>(req, res, err). EvaluateDetectors req err) s))"
    and on_health: "J s \<Longrightarrow> J (snd (invoke (d_health d env) (\<lambda>(res, err). RunHealth env (hr_ExitCode res, err)) s))"
    and on_status: "J s \<Longrightarrow> J (snd (invoke (d_clusterStatus d) HealthStatus s))"
    and on_healthy: "r_clusterHealth r \<and> r_healthReporting r \<Longrightarrow> J s \<Longrightarrow>
      J (snd (invoke (d_reportHealthy d) ReportHealthy s))"
    and on_unhealthy: "r_clusterHealth r \<and> r_healthReporting r \<Longrightarrow> J s \<Longrightarrow>
      J (snd (invoke (d_reportUnhealthy d rep) (ReportUnhealthy rep) s))"
    and on_cooldown: "J s \<Longrightarrow> J (snd (invoke (d_cooldownStatus d) CooldownStatus s))"
    and on_summaries: "J s \<Longrightarrow> J (s\<lparr>st_summaries := table\<rparr>)"
    and on_peers: "J s \<Longrightarrow> J (s\<lparr>st_peers := ps\<rparr>)"
begin

lemma kept_emit:
  "J s \<Longrightarrow> J (emit_metric d name ty value labels desc unit s)"
  "J s \<Longrightarrow> J (count_metric d name labels desc s)"
  "J s \<Longrightarrow> J (time_metric d name t labels desc s)"
  "J s \<Longrightarrow> J (emit_event d r lvl name fs s)"
  by (simp_all add: emit_metric_def count_metric_def time_metric_def emit_event_def on_report)

lemma kept_record:
  "J s \<Longrightarrow> J (recordWindowDecision d r dec s)"
  "J s \<Longrightarrow> J (recordKillSwitch d r stage active err s)"
  "J s \<Longrightarrow> J (recordDetectorEvaluation d r phase t req results err s)"
  "J s \<Longrightarrow> J (recordHealth d r phase t res err s)"
  "J s \<Longrightarrow> J (recordLockAttempt d r att t result err s)"
  "J s \<Longrightarrow> J (recordLockBackoff d r att t s)"
  "J s \<Longrightarrow> J (recordLockAcquired d r att t s)"
  "J s \<Longrightarrow> J (recordLockFailure d r n s)"
  "J s \<Longrightarrow> J (recordClusterHealthUpdate d r phase healthy reason attempted err s)"
  "J s \<Longrightarrow> J (recordCooldownStatus d r phase status err s)"
  "J s \<Longrightarrow> J (recordCooldownActivation d r t err s)"
  "J s \<Longrightarrow> J (recordCooldownClear d r err s)"
  by (simp_all add: record_defs Let_def split_beta kept_emit)

lemma kept_since: "J s \<Longrightarrow> J (snd (since d t s))"
  by (simp add: since_def Let_def split_beta on_time)

lemma kept_health: "J s \<Longrightarrow> J (snd (runHealthWithObservability d r phase held n s))"
  by (simp add: runHealthWithObservability_def Let_def split_beta on_time on_health kept_since kept_record)

lemma kept_update: "J s \<Longrightarrow> J (snd (updateClusterHealth d r phase healthy code s))"
  by (simp add: updateClusterHealth_def Let_def split_beta on_healthy on_unhealthy kept_record)

lemma kept_health_update: "J s \<Longrightarrow> J (snd (runHealthAndUpdate d r phase held n s))"
  by (simp add: runHealthAndUpdate_def Let_def split_beta kept_health kept_update split: option.split)

lemma kept_detectors: "J s \<Longrightarrow> J (snd (evaluateDetectorsWithObservability d r phase s))"
  by (simp add: evaluateDetectorsWithObservability_def Let_def split_beta on_time on_evaluate kept_since kept_record)

lemma kept_scan_record: "J (snd (snd x)) \<Longrightarrow> J (snd (snd (scan_record d r phase rec x)))"
  by (simp add: scan_record_def Let_def split_beta emitPeerStatusChange_def kept_emit split: option.split)

lemma kept_scan_missing: "J (snd (snd x)) \<Longrightarrow> J (snd (snd (scan_missing d r phase node x)))"
  by (simp add: scan_missing_def Let_def split_beta emitPeerMissingEvent_def kept_emit)

lemma kept_scans:
  "J (snd (snd x)) \<Longrightarrow> J (snd (snd (fold (scan_record d r phase) records x)))"
  "J (snd (snd x)) \<Longrightarrow> J (snd (snd (fold (scan_missing d r phase) nodes x)))"
  by (induction records arbitrary: x) (simp_all add: kept_scan_record,
    induction nodes arbitrary: x, simp_all add: kept_scan_missing)

lemma kept_peers: "J s \<Longrightarrow> J (snd (updateClusterPeerStates d r phase records s))"
  by (simp add: updateClusterPeerStates_def Let_def split_beta kept_scans on_order on_peers)

lemma kept_cluster_status: "J s \<Longrightarrow> J (recordClusterHealthStatus d r phase attempted records err s)"
  by (simp add: recordClusterHealthStatus_def Let_def split_beta kept_emit kept_peers on_peers on_summaries)

lemma kept_inspect: "J s \<Longrightarrow> J (snd (inspectClusterHealth d r phase s))"
  by (simp add: inspectClusterHealth_def Let_def split_beta on_status kept_cluster_status)

lemma kept_then:
  assumes "\<And>s. J s \<Longrightarrow> J (snd (m s))" "\<And>a s. J s \<Longrightarrow> J (snd (k a s))" "J s"
  shows "J (snd (stage_then m k s))"
proof -
  obtain x t where x: "m s = (x, t)" by (metis surj_pair)
  with assms(1) [OF assms(3)] have "J t" by simp
  with x assms(2) show ?thesis by (cases x) (simp_all add: stage_then_def)
qed

lemma kept_kill_switch: "J s \<Longrightarrow> J (snd (check_kill_switch d r stage text suffix out s))"
  by (simp add: check_kill_switch_def Let_def split_beta on_kill kept_record)

lemma kept_windows: "J s \<Longrightarrow> J (snd (check_windows d r out s))"
  using on_window by (simp add: check_windows_def Let_def split_beta kept_record split: option.split)

lemma kept_monitor: "J s \<Longrightarrow> J (snd (monitor_health d r out s))"
  by (simp add: monitor_health_def Let_def split_beta kept_health_update)

lemma kept_check_detectors: "J s \<Longrightarrow> J (snd (check_detectors d r out s))"
  by (simp add: check_detectors_def Let_def split_beta kept_detectors kept_monitor split: option.split)

lemma kept_check_cluster: "J s \<Longrightarrow> J (snd (check_cluster d r phase text out s))"
  by (simp add: check_cluster_def Let_def split_beta kept_inspect)

lemma kept_check_health: "J s \<Longrightarrow> J (snd (check_health d r out s))"
  by (simp add: check_health_def Let_def split_beta kept_health_update)

lemma kept_remaining: "J s \<Longrightarrow> J (snd (cooldown_remaining d status s))"
  by (simp add: cooldown_remaining_def Let_def split_beta on_time)

lemma kept_check_cooldown: "J s \<Longrightarrow> J (snd (check_cooldown d r out s))"
  by (simp add: check_cooldown_def Let_def split_beta on_cooldown kept_record kept_remaining split: option.split)

lemma kept_skip_lock: "J s \<Longrightarrow> J (snd (skip_lock d r out s))"
  by (simp add: skip_lock_def)

lemma kept_recheck_detectors: "J s \<Longrightarrow> J (snd (recheck_detectors d r out s))"
  by (simp add: recheck_detectors_def Let_def split_beta kept_detectors)

lemma kept_recheck_health: "J s \<Longrightarrow> J (snd (recheck_health d r n out s))"
  by (simp add: recheck_health_def Let_def split_beta kept_health_update)

lemma kept_pre_lock: "J s \<Longrightarrow> J (snd (pre_lock_stages d r s))"
  unfolding pre_lock_stages_def
  by (intro kept_then kept_kill_switch kept_windows kept_check_detectors kept_check_cluster
      kept_check_health kept_check_cooldown kept_skip_lock)

lemma kept_under_lock: "J s \<Longrightarrow> J (snd (under_lock_stages d r n out s))"
  unfolding under_lock_stages_def
  by (intro kept_then kept_kill_switch kept_check_cluster kept_recheck_detectors kept_recheck_health)

lemma kept_delay: "J s \<Longrightarrow> J (snd (nextBackoffDelay d n mn mx s))"
  by (simp add: nextBackoffDelay_def Let_def split_beta on_random)

end

section \<open>With the lock\<close>

locale locked_pass_invariant = pass_invariant +
  assumes on_acquire: "J s \<Longrightarrow> J (snd (invoke (d_acquire d) Acquire s))"
    and on_release: "J s \<Longrightarrow> J (snd (invoke (d_release d l) (Release l) s))"
    and on_sleep: "J s \<Longrightarrow> J (snd (invoke (d_sleep d t) (Sleep t) s))"
begin

lemma kept_sleep: "J s \<Longrightarrow> J (snd (sleepWithContext d t s))"
  by (simp add: sleepWithContext_def on_sleep)

lemma kept_acquire_once: "J s \<Longrightarrow> J (snd (snd (acquire_once d s)))"
  by (simp add: acquire_once_def Let_def split_beta on_time on_acquire kept_since)

lemma kept_acquire_loop: "J s \<Longrightarrow> J (snd (acquire_loop d r start mn mx delay n s))"
proof (induction "nat (r_maxLockTries r) - n" arbitrary: n delay s)
  case 0
  then have "\<not> int n < r_maxLockTries r" by simp
  with 0 show ?case by (subst acquire_loop.simps) (simp add: kept_record)
next
  case (Suc k)
  have next_try: "J s \<Longrightarrow> J (snd (acquire_loop d r start mn mx delay (Suc n) s))" for delay s
    using Suc.hyps(1) [of "Suc n"] Suc.hyps(2) by simp
  show ?case
    by (subst acquire_loop.simps)
      (simp add: Let_def split_beta kept_record kept_since kept_acquire_once kept_delay kept_sleep next_try Suc.prems
        split: sum.split option.split)
qed

lemma kept_acquireLock: "J s \<Longrightarrow> J (snd (acquireLock d r s))"
  by (simp add: acquireLock_def Let_def split_beta on_time kept_acquire_loop)

lemma kept_releaseLease: "J s \<Longrightarrow> J (snd (releaseLease d r l s))"
  by (simp add: releaseLease_def Let_def split_beta on_time on_release kept_since kept_emit)

lemma kept_take_lock: "J s \<Longrightarrow> J (snd (take_lock d r out s))"
  by (simp add: take_lock_def Let_def split_beta kept_acquireLock)

lemma kept_deferred: "J s \<Longrightarrow> J (snd (snd (deferred_release d r l out err s)))"
  by (simp add: deferred_release_def Let_def split_beta kept_releaseLease split: option.split)

lemma kept_run_under_lock: "J s \<Longrightarrow> J (snd (snd (run_under_lock d r x s)))"
proof -
  assume "J s"
  obtain out l n where x: "x = (out, l, n)" by (metis prod_cases3)
  obtain y t where y: "under_lock_stages d r n out s = (y, t)" by (metis surj_pair)
  with kept_under_lock [OF \<open>J s\<close>, of n out] have "J t" by simp
  with x y show ?thesis by (simp add: run_under_lock_def kept_deferred split: sum.split prod.split)
qed

lemma kept_run_stages: "J s \<Longrightarrow> J (snd (snd (run_stages d r s)))"
proof -
  assume "J s"
  obtain y t where y: "stage_then (pre_lock_stages d r) (take_lock d r) s = (y, t)" by (metis surj_pair)
  have "J (snd (stage_then (pre_lock_stages d r) (take_lock d r) s))"
    using \<open>J s\<close> by (intro kept_then kept_pre_lock kept_take_lock)
  with y have "J t" by simp
  with y show ?thesis by (simp add: run_stages_def kept_run_under_lock split: sum.split prod.split)
qed

lemma kept_ReleaseLock: "J s \<Longrightarrow> J (snd (snd (ReleaseLock d r out s)))"
  by (simp add: ReleaseLock_def Let_def split_beta kept_releaseLease split: option.split)

text \<open>The outcome is recorded in the memory of the runner.\<close>

lemma kept_RunOnce:
  assumes "\<And>x s. J s \<Longrightarrow> J (s\<lparr>st_lastOutcome := x\<rparr>)" "J s"
  shows "J (snd (snd (RunOnce d r s)))"
proof -
  have "J (recordOutcome d r out s)" if "J s" for out s
    using that assms(1) by (simp add: recordOutcome_def Let_def kept_emit split: option.split)
  with kept_run_stages [OF assms(2)] show ?thesis by (simp add: RunOnce_def Let_def split_beta)
qed

end

section \<open>Invariants of the memory and of the trace\<close>

text \<open>Nothing but the record of an outcome changes the outcome the runner remembers.\<close>

interpretation memory: locked_pass_invariant d r "\<lambda>s. st_lastOutcome s = m" for d r m
  by unfold_locales (simp_all add: frame_simps)

lemma recordOutcome_remembers:
  "st_lastOutcome (recordOutcome d r out s) = (if Status out = None then st_lastOutcome s else Some (outcome_summary out))"
  by (simp add: recordOutcome_def Let_def emit_rest split: option.split)

lemma RunOnce_remembers:
  assumes "RunOnce d r s = (out, err, s')"
  shows "st_lastOutcome s' =
    (if err = None \<and> Status out \<noteq> None then Some (outcome_summary out) else st_lastOutcome s)"
  using assms memory.kept_run_stages [of s "st_lastOutcome s" d r]
  by (auto simp: RunOnce_def Let_def split_beta recordOutcome_remembers)

lemma ReleaseLock_remembers:
  "ReleaseLock d r out s = (rel, out', s') \<Longrightarrow> st_lastOutcome s' = st_lastOutcome s"
  using memory.kept_ReleaseLock [of s "st_lastOutcome s" d r out] by simp

text \<open>A runner that does not report its health makes no report.\<close>

fun is_health_report :: "call \<Rightarrow> bool" where
  "is_health_report (ReportHealthy e) = True"
| "is_health_report (ReportUnhealthy rep e) = True"
| "is_health_report _ = False"

definition silent_since :: "call list \<Rightarrow> 'w st \<Rightarrow> bool" where
  "silent_since c0 s \<longleftrightarrow> (\<exists>cs. st_calls s = c0 @ cs \<and> list_all (\<lambda>c. \<not> is_health_report c) cs)"

lemma silent_since_grows:
  "silent_since c0 s \<Longrightarrow> st_calls t = st_calls s @ cs \<Longrightarrow> list_all (\<lambda>c. \<not> is_health_report c) cs \<Longrightarrow> silent_since c0 t"
  unfolding silent_since_def by (metis append_assoc list_all_append)

lemma silent_since_invoke:
  "silent_since c0 s \<Longrightarrow> (\<And>x. \<not> is_health_report (c x)) \<Longrightarrow> silent_since c0 (snd (invoke f c s))"
  by (rule silent_since_grows, assumption, rule invoke_calls) simp

lemma silent_since_quiet: "silent_since c0 s \<Longrightarrow> st_calls t = st_calls s \<Longrightarrow> silent_since c0 t"
  by (simp add: silent_since_def)

lemma silent_runner:
  assumes "\<not> HealthPublishingEnabled r"
  shows "locked_pass_invariant d r (silent_since c0)"
  using assms
  by unfold_locales
    (auto simp: HealthPublishingEnabled_def intro!: silent_since_invoke elim: silent_since_quiet
      simp: silent_rest report_rest split: prod.split)

lemma silent_pass:
  assumes "\<not> HealthPublishingEnabled r" "RunOnce d r s = (out, err, s')"
  shows "\<exists>cs. st_calls s' = st_calls s @ cs \<and> list_all (\<lambda>c. \<not> is_health_report c) cs"
proof -
  have "silent_since (st_calls s) (snd (snd (RunOnce d r s)))"
    by (rule locked_pass_invariant.kept_RunOnce [OF silent_runner [OF assms(1)]])
      (auto simp: silent_since_def)
  with assms(2) show ?thesis by (simp add: silent_since_def)
qed

end
