(* ===== verification/ProcessLoop.thy ===== *)
theory ProcessLoop
  imports Commands PassInvariant
begin

text \<open>
  The loop of \<open>run\<close> in the world of the process: its traces are those of the loop on the machine, and
  its variables, the last outcome and whether the command was executed, say what the loop did.
\<close>

section \<open>The same traces\<close>

lemma process_deps_parts [simp]:
  "d_unrepresentable (process_deps d) = d_unrepresentable d"
  "d_getenv (process_deps d) p = d_getenv d (pw_world p)"
  by (simp_all add: process_deps_def)

lemma process_random [simp]: "honest_random (process_deps d) = honest_random d"
proof -
  have *: "fst (d_random (process_deps d) n p) = fst (d_random d n (pw_world p))" for n p
    by (simp add: process_deps_def in_world_def split_beta)
  have "\<exists>p :: 'a process_world. pw_world p = w" for w
    by (rule exI [of _ "\<lparr>pw_world = w, pw_iteration = 0, pw_lastOutcome = empty_outcome, pw_executed = False\<rparr>"]) simp
  then show ?thesis unfolding honest_random_def * by metis
qed

lemma process_gates [simp]: "full_gates (process_deps d) r l cs = full_gates d r l cs"
  by (simp add: full_gates_def)

lemma process_expand: "expandCommand (process_deps d) r t cmd = expandCommand d r (of_process t) cmd"
  by (simp add: expandCommand_def of_process_def)

lemma process_reboot_calls: "reboot_calls (process_deps d) r cs \<Longrightarrow> reboot_calls d r cs"
  unfolding reboot_calls_def process_expand process_gates by blast

lemma process_st [simp]:
  "st_calls (to_process s) = st_calls s" "st_lastOutcome (to_process s) = st_lastOutcome s"
  "st_calls (of_process q) = st_calls q" "st_lastOutcome (of_process q) = st_lastOutcome q"
  by (simp_all add: to_process_def of_process_def)

lemma process_loop_parts [simp]:
  "le_deps (process_loop M cfg d r) = process_deps d" "le_runner (process_loop M cfg d r) = r"
  "ld_execute (le_loop (process_loop M cfg d r)) = tracking_Execute M"
  "ld_hook (le_loop (process_loop M cfg d r)) = iteration_hook M"
  by (simp_all add: process_loop_def)

section \<open>The variables\<close>

text \<open>A pass does not touch them.\<close>

definition variables :: "'w process_world st \<Rightarrow> int \<times> outcome \<times> bool" where
  "variables s = (pw_iteration (st_world s), pw_lastOutcome (st_world s), pw_executed (st_world s))"

interpretation variables: locked_pass_invariant "process_deps d" r "\<lambda>s. variables s = v" for d r v
  by unfold_locales
    (simp_all add: variables_def process_deps_def silent_def invoke_def in_world_def write_world_def report_def split_beta)

lemma variables_RunOnce: "RunOnce (process_deps d) r s = (out, err, s') \<Longrightarrow> variables s' = variables s"
  using variables.kept_RunOnce [of "variables s" s d r] by (simp add: variables_def)

lemma variables_ReleaseLock: "ReleaseLock (process_deps d) r out s = (rel, out', s') \<Longrightarrow> variables s' = variables s"
  using variables.kept_ReleaseLock [of s "variables s" d r out] by simp

lemma variables_in_world:
  "variables (snd (silent (in_world f) s)) = variables s" "variables (snd (invoke (in_world f) c s)) = variables s"
  "variables (tell (write_world g) s) = variables s"
  by (simp_all add: variables_def silent_def invoke_def in_world_def write_world_def tell_def split_beta)

lemma variables_startCooldown:
  assumes "startCooldown (process_deps d) r out s = (err, out', s')"
  shows "variables s' = variables s" "st_lastOutcome s' = st_lastOutcome s"
proof -
  have rec: "variables (recordCooldownActivation (process_deps d) r t e s) = v" if "variables s = v" for t e s v
    using that by (rule variables.kept_record)
  have start: "variables (snd (invoke (d_cooldownStart (process_deps d) t) c s)) = variables s" for t c s
    by (simp add: process_deps_def variables_in_world)
  show "variables s' = variables s"
    using assms by (auto simp: startCooldown_def Let_def split_beta rec start split: option.splits)
  show "st_lastOutcome s' = st_lastOutcome s"
    using assms by (auto simp: startCooldown_def Let_def split_beta frame_simps split: option.splits)
qed

section \<open>What the variables say\<close>

text \<open>The last outcome is the one of the last pass that completed, which the runner remembers.\<close>

definition remembers_last :: "'w process_world st \<Rightarrow> bool" where
  "remembers_last s \<longleftrightarrow>
     st_lastOutcome s = Some (outcome_summary (pw_lastOutcome (st_world s))) \<or> Status (pw_lastOutcome (st_world s)) = None"

lemma remembers_last_cong:
  "variables t = variables s \<Longrightarrow> st_lastOutcome t = st_lastOutcome s \<Longrightarrow> remembers_last t = remembers_last s"
  by (simp add: remembers_last_def variables_def)

lemma silent_variables: "silent (ld_ctx_err (le_loop (process_loop M cfg d r))) s = (e, t) \<Longrightarrow>
    variables t = variables s \<and> st_lastOutcome t = st_lastOutcome s \<and> st_calls t = st_calls s"
  using variables_in_world(1) [of "mc_ctx_err M" s] silent_rest(1,3) [of "in_world (mc_ctx_err M)" s]
  by (simp add: process_loop_def)

lemma loop_sleep_variables: "loop_sleep (process_loop M cfg d r) t s = (e, s') \<Longrightarrow>
    variables s' = variables s \<and> st_lastOutcome s' = st_lastOutcome s"
  using variables_in_world(2) [of "mc_loop_sleep M t" "Sleep t" s] invoke_rest(2) [of "in_world (mc_loop_sleep M t)" "Sleep t" s]
  by (auto simp: loop_sleep_def process_loop_def split: if_splits)

lemma nextErrorDelay_variables: "nextErrorDelay (process_loop M cfg d r) x = (t, y) \<Longrightarrow>
    variables (lp_st y) = variables (lp_st x) \<and> st_lastOutcome (lp_st y) = st_lastOutcome (lp_st x)"
  using variables_in_world(1) silent_rest(3)
  by (auto simp: nextErrorDelay_def process_loop_def Let_def split_beta split: if_splits)

lemma after_error_variables:
  assumes "after_error (process_loop M cfg d r) out e x = (q, y)"
  shows "variables (lp_st y) = variables (lp_st x) \<and> st_lastOutcome (lp_st y) = st_lastOutcome (lp_st x)"
proof -
  let ?L = "process_loop M cfg d r"
  obtain rel out' s where rl: "ReleaseLock (process_deps d) r out (lp_st x) = (rel, out', s)" by (metis prod_cases3)
  let ?s = "tell (ld_errorHandler (le_loop ?L) (join_error e rel)) s"
  have s: "variables ?s = variables (lp_st x)" "st_lastOutcome ?s = st_lastOutcome (lp_st x)"
    using variables_ReleaseLock [OF rl] ReleaseLock_remembers [OF rl]
    by (simp_all add: variables_def process_loop_def iteration_error_def write_world_def tell_def)
  obtain t z where z: "nextErrorDelay ?L (x\<lparr>lp_st := ?s\<rparr>) = (t, z)" by (metis surj_pair)
  obtain err s3 where s3: "loop_sleep ?L t (lp_st z) = (err, s3)" by (metis surj_pair)
  show ?thesis
    using assms rl z s3 s nextErrorDelay_variables [OF z] loop_sleep_variables [OF s3]
    by (auto simp: after_error_def split: if_splits)
qed

lemma after_other_variables:
  assumes "after_other (process_loop M cfg d r) out x = (q, y)"
  shows "variables (lp_st y) = variables (lp_st x) \<and> st_lastOutcome (lp_st y) = st_lastOutcome (lp_st x)"
proof -
  let ?L = "process_loop M cfg d r"
  obtain rel out' s where rl: "ReleaseLock (process_deps d) r out (lp_st x) = (rel, out', s)" by (metis prod_cases3)
  obtain err s3 where s3: "loop_sleep ?L (l_interval (le_cfg ?L)) s = (err, s3)" by (metis surj_pair)
  show ?thesis
    using assms rl s3 variables_ReleaseLock [OF rl] ReleaseLock_remembers [OF rl] loop_sleep_variables [OF s3]
    by (auto simp: after_other_def split: option.splits)
qed

lemma tracking_variables:
  assumes "invoke (tracking_Execute M cmd) c s = (err, s')"
  shows "pw_lastOutcome (st_world s') = pw_lastOutcome (st_world s)" "st_lastOutcome s' = st_lastOutcome s"
    "err = None \<Longrightarrow> pw_executed (st_world s')"
    "err \<noteq> None \<Longrightarrow> pw_executed (st_world s') = pw_executed (st_world s)"
  using assms by (auto simp: invoke_def tracking_Execute_def in_world_def split_beta split: option.splits prod.splits)

text \<open>A ready outcome that makes the loop return nil has been executed, unless there was nothing to do.\<close>

lemma after_ready_variables:
  assumes "after_ready (process_loop M cfg d r) out x = (q, y)"
  shows "pw_lastOutcome (st_world (lp_st y)) = pw_lastOutcome (st_world (lp_st x)) \<and>
    st_lastOutcome (lp_st y) = st_lastOutcome (lp_st x) \<and>
    (q = Return None \<longrightarrow> pw_executed (st_world (lp_st y)) \<or> out_DryRun out \<or> Command out = [])"
proof -
  let ?L = "process_loop M cfg d r"
  obtain rel o1 s1 where r1: "ReleaseLock (process_deps d) r out (lp_st x) = (rel, o1, s1)" by (metis prod_cases3)
  obtain cd o2 s2 where c2: "startCooldown (process_deps d) r out (lp_st x) = (cd, o2, s2)" by (metis prod_cases3)
  obtain rel3 o3 s3 where r3: "ReleaseLock (process_deps d) r o2 s2 = (rel3, o3, s3)" by (metis prod_cases3)
  obtain ex s4 where e4: "invoke (tracking_Execute M (Command o2)) (Execute (Command o2)) s2 = (ex, s4)" by (metis surj_pair)
  obtain rel5 o5 s5 where r5: "ReleaseLock (process_deps d) r o2 s4 = (rel5, o5, s5)" by (metis prod_cases3)
  note V = variables_ReleaseLock [OF r1] variables_startCooldown [OF c2] variables_ReleaseLock [OF r3]
    variables_ReleaseLock [OF r5] tracking_variables [OF e4]
    ReleaseLock_remembers [OF r1] ReleaseLock_remembers [OF r3] ReleaseLock_remembers [OF r5]
  show ?thesis
    using assms r1 c2 r3 e4 r5 V
    by (auto simp: after_ready_def variables_def Let_def split: if_splits option.splits)
qed

definition nothing_left :: "loop_exit \<Rightarrow> 'w process_world st \<Rightarrow> bool" where
  "nothing_left q s \<longleftrightarrow>
     (q = Return None \<longrightarrow> pw_executed (st_world s) \<or> lockRelease (pw_lastOutcome (st_world s)) = None)"

lemma iteration_variables:
  assumes "honest_random d" "0 < r_maxLockTries r" "remembers_last (lp_st x)"
    and it: "loop_iteration (process_loop M cfg d r) x = (q, y)"
  shows "remembers_last (lp_st y) \<and> nothing_left q (lp_st y)"
proof -
  let ?L = "process_loop M cfg d r" and ?d = "process_deps d"
  obtain ctx s0 where ctx: "silent (ld_ctx_err (le_loop ?L)) (lp_st x) = (ctx, s0)" by (metis surj_pair)
  note V0 = silent_variables [OF ctx]
  show ?thesis
  proof (cases ctx)
    case (Some e)
    with it ctx V0 assms(3) remembers_last_cong [of s0 "lp_st x"] show ?thesis
      by (auto simp: loop_iteration_def nothing_left_def)
  next
    case None
    obtain out err s1 where pass: "RunOnce ?d r s0 = (out, err, s1)" by (metis prod_cases3)
    note V1 = variables_RunOnce [OF pass] and R1 = RunOnce_remembers [OF pass]
    from pass_calls [OF _ assms(2) pass] assms(1) have lease: "(lockRelease out \<noteq> None) = executable out" by auto
    let ?x = "x\<lparr>lp_st := tell (iteration_hook M out) s1, lp_backoff := 0\<rparr>"
    show ?thesis
    proof (cases err)
      case (Some e)
      then have "after_error ?L out e (x\<lparr>lp_st := s1\<rparr>) = (q, y)"
        using it ctx None pass by (simp add: loop_iteration_def)
      note V = after_error_variables [OF this]
      have "q \<noteq> Return None"
      proof -
        have nx: "lockRelease out = None"
          using pass_calls [OF _ assms(2) pass] assms(1) Some by (metis option.distinct(1) process_random)
        from after_error_calls [OF \<open>after_error ?L out e (x\<lparr>lp_st := s1\<rparr>) = (q, y)\<close> nx] show ?thesis by blast
      qed
      moreover have "remembers_last (lp_st y) = remembers_last (lp_st x)"
        by (rule remembers_last_cong) (use V V0 V1 R1 Some in auto)
      ultimately show ?thesis using assms(3) by (simp add: nothing_left_def)
    next
      case no_error: None
      have x: "pw_lastOutcome (st_world (lp_st ?x)) = out" "st_lastOutcome (lp_st ?x) = st_lastOutcome s1"
        by (simp_all add: tell_def iteration_hook_def Let_def)
      then have K: "remembers_last (lp_st ?x)" using R1 no_error by (auto simp: remembers_last_def)
      show ?thesis
      proof (cases "Status out = Some OutcomeReady")
        case True
        then have "after_ready ?L out ?x = (q, y)"
          using it ctx None pass no_error by (simp add: loop_iteration_def)
        from after_ready_variables [OF this] x K lease show ?thesis
          by (auto simp: remembers_last_def nothing_left_def executable_def)
      next
        case False
        then have ao: "after_other ?L out ?x = (q, y)"
          using it ctx None pass no_error by (simp add: loop_iteration_def)
        from False lease have "lockRelease out = None" by (simp add: executable_def)
        with after_other_calls [OF ao] after_other_variables [OF ao] x K remembers_last_cong [of "lp_st y" "lp_st ?x"]
        show ?thesis by (auto simp: nothing_left_def)
      qed
    qed
  qed
qed

lemma loop_runs_remembers:
  assumes "honest_random d" "0 < r_maxLockTries r" "loop_runs (process_loop M cfg d r) x y" "remembers_last (lp_st x)"
  shows "remembers_last (lp_st y)"
  using assms(3,4) by (induction rule: loop_runs.induct) (auto dest: iteration_variables [OF assms(1,2)])

end
