(* ===== verification/CommandSafety.thy ===== *)
theory CommandSafety
  imports ProcessLoop
begin

text \<open>
  What the commands of \<open>cmd/clusterrebootd/main.go\<close> may do: which of them touch the cluster or execute
  the command, with what exit code they end, and that they end.
\<close>

section \<open>The calls of a command\<close>

text \<open>A command that ends has added calls to the trace; \<open>Q\<close> speaks about its exit code, the heartbeats
  it left behind, those calls, and the outcome the runner remembers.\<close>

definition after :: "call list \<Rightarrow> (int \<Rightarrow> 'w publisher option \<Rightarrow> call list \<Rightarrow> outcomeSummary option \<Rightarrow> bool)
    \<Rightarrow> (int \<times> 'w publisher option \<times> 'w st) option \<Rightarrow> bool" where
  "after c0 Q res \<longleftrightarrow>
     (\<forall>code p s. res = Some (code, p, s) \<longrightarrow> (\<exists>cs. st_calls s = c0 @ cs \<and> Q code p cs (st_lastOutcome s)))"

definition quiet_op :: "('w st \<Rightarrow> 'w st) \<Rightarrow> bool" where
  "quiet_op f \<longleftrightarrow> (\<forall>s. st_calls (f s) = st_calls s \<and> st_lastOutcome (f s) = st_lastOutcome s)"

named_theorems after_intros \<open>the calls of a command from those of its parts\<close>

lemma say_rest [simp]:
  "st_calls (say M text s) = st_calls s" "st_lastOutcome (say M text s) = st_lastOutcome s"
  "st_calls (complain M text s) = st_calls s" "st_lastOutcome (complain M text s) = st_lastOutcome s"
  "st_calls (print_error M msg e s) = st_calls s" "st_lastOutcome (print_error M msg e s) = st_lastOutcome s"
  by (simp_all add: say_def complain_def print_error_def tell_def)

lemma after_stop [after_intros]:
  "st_calls s = c0 \<Longrightarrow> Q code None [] (st_lastOutcome s) \<Longrightarrow> after c0 Q (stop code s)"
  by (simp add: after_def stop_def)

lemma after_fail [after_intros]:
  "st_calls s = c0 \<Longrightarrow> Q code None [] (st_lastOutcome s) \<Longrightarrow> after c0 Q (fail M code msg e s)"
  by (simp add: fail_def after_stop)

lemma after_or_fail [after_intros]:
  assumes "st_calls s = c0" "\<And>m. Q code None [] m" "\<And>a. x = Inr a \<Longrightarrow> after c0 Q (k a s)"
  shows "after c0 Q (or_fail M code msg x k s)"
  using assms by (auto simp: or_fail_def after_fail split: sum.split)

lemma after_obtain [after_intros]:
  assumes "st_calls s = c0" "\<And>m. Q code None [] m" "\<And>a t. st_calls t = c0 \<Longrightarrow> after c0 Q (k a t)"
  shows "after c0 Q (obtain_or_fail M code msg f k s)"
proof -
  obtain x t where x: "silent f s = (x, t)" by (metis surj_pair)
  then have "st_calls t = c0" using silent_rest(1) [of f s] assms(1) by simp
  then show ?thesis using x assms by (auto simp: obtain_or_fail_def intro: after_or_fail)
qed

lemma after_finally [after_intros]:
  "quiet_op f \<Longrightarrow> after c0 Q (k s) \<Longrightarrow> after c0 Q (finally_do f k s)"
  by (auto simp: after_def finally_do_def quiet_op_def)

lemma after_closing [after_intros]: "after c0 Q (k s) \<Longrightarrow> after c0 Q (closing f k s)"
  unfolding closing_def by (rule after_finally) (simp_all add: quiet_op_def silent_rest)

lemma quiet_stop_metrics [after_intros]: "quiet_op (stop_metrics M)"
  by (simp add: quiet_op_def stop_metrics_def Let_def split_beta silent_rest split: option.split)

lemma quiet_wait [simp]:
  "st_calls (wait_publisher M p s) = st_calls s" "st_lastOutcome (wait_publisher M p s) = st_lastOutcome s"
proof -
  have "st_calls (wait_publisher M p s) = st_calls s \<and> st_lastOutcome (wait_publisher M p s) = st_lastOutcome s"
  proof (cases p)
    case (Some q)
    obtain e t where t: "silent (mc_heartbeats M q) s = (e, t)" by (metis surj_pair)
    then have "st_calls t = st_calls s" "st_lastOutcome t = st_lastOutcome s"
      using silent_rest(1,3) [of "mc_heartbeats M q" s] by simp_all
    with Some t show ?thesis by (simp add: wait_publisher_def split: option.split)
  qed (simp add: wait_publisher_def)
  then show "st_calls (wait_publisher M p s) = st_calls s"
    "st_lastOutcome (wait_publisher M p s) = st_lastOutcome s" by simp_all
qed

lemma after_awaiting [after_intros]: "after c0 Q (k s) \<Longrightarrow> after c0 Q (awaiting_publisher M k s)"
  by (auto simp: after_def awaiting_publisher_def)

lemma after_flags [after_intros]:
  assumes "st_calls s = c0" "\<And>m. Q exitUsage None [] m"
    "\<And>vals. parse_flags kinds Map.empty args = Some vals \<Longrightarrow> after c0 Q (k vals s)"
  shows "after c0 Q (with_flags M kinds args k s)"
  using assms by (auto simp: with_flags_def intro!: after_stop split: option.split)

lemma after_config [after_intros]:
  assumes "st_calls s = c0" "\<And>m. Q exitConfigError None [] m"
    "\<And>cfg. Load (mc_yaml M) (mc_open M (st_world s)) (config_path vals) = Inr cfg \<Longrightarrow> after c0 Q (k cfg s)"
  shows "after c0 Q (with_config M msg vals k s)"
  unfolding with_config_def by (rule after_or_fail) (use assms in auto)

lemma after_engine [after_intros]:
  assumes "st_calls s = c0" "\<And>m. Q exitConfigError None [] m" "\<And>en. after c0 Q (k en s)"
  shows "after c0 Q (with_engine M cfg k s)"
  unfolding with_engine_def by (intro after_or_fail) (use assms in auto)

lemma after_tls [after_intros]:
  assumes "st_calls s = c0" "\<And>m. Q exitConfigError None [] m" "\<And>tls. after c0 Q (k tls s)"
  shows "after c0 Q (with_tls M cfg k s)"
  unfolding with_tls_def by (intro after_or_fail) (use assms in auto)

lemma after_open_lock [after_intros]:
  assumes "st_calls s = c0" "\<And>m. Q exitRunError None [] m" "\<And>lm t. st_calls t = c0 \<Longrightarrow> after c0 Q (k lm t)"
  shows "after c0 Q (open_lock M cfg tls k s)"
  unfolding open_lock_def by (intro after_obtain) (use assms in auto)

lemma after_open_cooldown [after_intros]:
  assumes "st_calls s = c0" "\<And>m. Q exitRunError None [] m"
    "\<And>cd t. st_calls t = c0 \<Longrightarrow> (cd \<noteq> None) = (0 < MinRebootIntervalSec cfg) \<Longrightarrow> after c0 Q (k cd t)"
  shows "after c0 Q (open_cooldown M cfg tls k s)"
  using assms by (auto simp: open_cooldown_def intro!: after_obtain)

lemma after_close_cooldown [after_intros]: "after c0 Q (k s) \<Longrightarrow> after c0 Q (close_cooldown cd k s)"
  by (auto simp: close_cooldown_def intro!: after_closing split: option.split)

lemma after_with_lock [after_intros]:
  assumes "st_calls s = c0" "\<And>m. Q exitRunError None [] m" "\<And>lm t. st_calls t = c0 \<Longrightarrow> after c0 Q (k lm t)"
  shows "after c0 Q (with_lock M cfg tls k s)"
  unfolding with_lock_def by (intro after_open_lock after_closing) (use assms in auto)

lemma after_with_cooldown [after_intros]:
  assumes "st_calls s = c0" "\<And>m. Q exitRunError None [] m"
    "\<And>cd t. st_calls t = c0 \<Longrightarrow> (cd \<noteq> None) = (0 < MinRebootIntervalSec cfg) \<Longrightarrow> after c0 Q (k cd t)"
  shows "after c0 Q (with_cooldown M cfg tls k s)"
  unfolding with_cooldown_def by (intro after_open_cooldown after_close_cooldown) (use assms in auto)

lemma after_with_health [after_intros]:
  assumes "st_calls s = c0" "\<And>m. Q exitRunError None [] m" "\<And>hm t. st_calls t = c0 \<Longrightarrow> after c0 Q (k hm t)"
  shows "after c0 Q (with_health M cfg tls k s)"
  unfolding with_health_def by (intro after_obtain after_closing) (use assms in auto)

lemma after_metrics [after_intros]:
  assumes "st_calls s = c0" "\<And>m. Q exitRunError None [] m"
    "\<And>collect e t. st_calls t = c0 \<Longrightarrow> after c0 Q (k collect e t)"
  shows "after c0 Q (with_metrics M cfg env k s)"
proof (cases "metrics_Enabled (Metrics cfg)")
  case True
  have "after c0 Q (finally_do (stop_metrics M) (k collect e) (complain M msg t))"
    if "st_calls t = c0" for collect e msg and t :: "'a st"
    using that by (intro after_finally quiet_stop_metrics assms(3)) simp
  with True assms(1,2) show ?thesis by (simp add: with_metrics_def after_obtain)
next
  case False
  with assms show ?thesis by (simp add: with_metrics_def)
qed

lemma after_start [after_intros]:
  assumes "st_calls s = c0" "\<And>m. Q exitRunError None [] m"
    "\<And>r d. NewRunner (mc_runtime M) (Some cfg) (Some (detect_of M en)) (Some health) (Some locker) opts =
       Inr (r, d) \<Longrightarrow> after c0 Q (k d r s)"
  shows "after c0 Q (start_runner M cfg en health locker opts k s)"
  unfolding start_runner_def by (intro after_or_fail) (use assms in auto)

section \<open>One pass\<close>

definition honest_machine :: "'w machine \<Rightarrow> bool" where
  "honest_machine M \<longleftrightarrow> (\<forall>n w. 0 < n \<longrightarrow> 0 \<le> fst (rt_random (mc_runtime M) n w) \<and> fst (rt_random (mc_runtime M) n w) < n)"

text \<open>The code of an outcome is given only after a pass with that outcome.\<close>

definition code_of_last :: "int \<Rightarrow> outcomeSummary option \<Rightarrow> bool" where
  "code_of_last code m \<longleftrightarrow>
     code \<in> {exitOK, exitUsage, exitRunError, exitConfigError, exitDetectorError} \<or>
     (\<exists>out. m = Some (outcome_summary out) \<and> code = exitCodeForOutcome out)"

lemma code_of_last_simps [simp]:
  "code_of_last exitOK m" "code_of_last exitUsage m" "code_of_last exitRunError m"
  "code_of_last exitConfigError m" "code_of_last exitDetectorError m"
  by (simp_all add: code_of_last_def)

lemma RunOnce_code:
  assumes "RunOnce d r s = (out, None, s')"
  shows "code_of_last (exitCodeForOutcome out) (st_lastOutcome s')"
  using RunOnce_remembers [OF assms]
  by (auto simp: code_of_last_def exitCodeForOutcome_def split: option.splits)

text \<open>What a pass called, once its lease is given back.\<close>

lemma ReleaseLock_harmless:
  assumes "honest_random d" "0 < r_maxLockTries r" "RunOnce d r s = (out, err, s1)"
    and "st_calls s2 = st_calls s1" "ReleaseLock d r out s2 = (rel, out', s3)"
  shows "\<exists>cs. st_calls s3 = st_calls s @ cs \<and> harmless cs"
proof -
  from pass_calls [OF assms(1-3)] obtain cs where cs: "st_calls s1 = st_calls s @ cs"
    "list_all (\<lambda>c. \<not> is_execute c \<and> \<not> is_cooldown_start c) cs"
    "granted cs = released cs @ (case lockRelease out of None \<Rightarrow> [] | Some l \<Rightarrow> [l])" by metis
  from ReleaseLock_calls [OF assms(5)] obtain e where
    e: "st_calls s3 = st_calls s2 @ (case lockRelease out of None \<Rightarrow> [] | Some l \<Rightarrow> [Release l e])" by blast
  have "harmless (cs @ (case lockRelease out of None \<Rightarrow> [] | Some l \<Rightarrow> [Release l e]))"
    using cs(2,3) by (auto simp: harmless_def split: option.split)
  with e cs(1) assms(4) show ?thesis by auto
qed

lemma failed_pass_harmless:
  assumes "honest_random d" "0 < r_maxLockTries r" "RunOnce d r s = (out, Some e, s1)"
  shows "\<exists>cs. st_calls s1 = st_calls s @ cs \<and> harmless cs"
proof -
  from pass_calls [OF assms] obtain cs where "st_calls s1 = st_calls s @ cs"
    "list_all (\<lambda>c. \<not> is_execute c \<and> \<not> is_cooldown_start c) cs"
    "granted cs = released cs @ (case lockRelease out of None \<Rightarrow> [] | Some l \<Rightarrow> [l])"
    "(lockRelease out \<noteq> None) = executable out" "executable out \<Longrightarrow> Some e = None" by metis
  then show ?thesis by (auto simp: harmless_def)
qed

definition safe_pass :: "int \<Rightarrow> 'w publisher option \<Rightarrow> call list \<Rightarrow> outcomeSummary option \<Rightarrow> bool" where
  "safe_pass code p cs m \<longleftrightarrow> p = None \<and> harmless cs \<and> code_of_last code m"

text \<open>Both single passes end in the same way.\<close>

lemma after_release:
  assumes "honest_random d" "0 < r_maxLockTries r" "RunOnce d r s = (out, None, s1)" "st_calls s = c0"
    and "st_calls s2 = st_calls s1" "st_lastOutcome s2 = st_lastOutcome s1" "quiet_op f"
  shows "after c0 safe_pass (release_or_fail M d r out (\<lambda>s. stop (exitCodeForOutcome out) (f s)) s2)"
proof -
  obtain rel out' s3 where rl: "ReleaseLock d r out s2 = (rel, out', s3)" by (metis prod_cases3)
  from ReleaseLock_harmless [OF assms(1-3,5) rl] assms(4) obtain cs where
    cs: "st_calls s3 = c0 @ cs" "harmless cs" by blast
  moreover have "code_of_last (exitCodeForOutcome out) (st_lastOutcome s3)"
    using RunOnce_code [OF assms(3)] ReleaseLock_remembers [OF rl] assms(6) by simp
  ultimately show ?thesis
    using rl assms(7)
    by (auto simp: release_or_fail_def after_def stop_def fail_def safe_pass_def quiet_op_def split: option.splits)
qed

lemma after_failed_pass:
  assumes "honest_random d" "0 < r_maxLockTries r" "RunOnce d r s = (out, Some e, s1)" "st_calls s = c0"
    and "code_of_last code None" "code_of_last code (st_lastOutcome s1)"
  shows "after c0 safe_pass (stop code (complain M text s1))"
  using failed_pass_harmless [OF assms(1-3)] assms(4-6) by (auto simp: after_def stop_def safe_pass_def)

lemma after_run_once:
  assumes "honest_random d" "0 < r_maxLockTries r" "st_calls s = c0"
  shows "after c0 safe_pass (run_once M d r s)"
proof -
  obtain out err s1 where pass: "RunOnce d r s = (out, err, s1)" by (metis prod_cases3)
  show ?thesis
  proof (cases err)
    case None
    let ?f = "\<lambda>s. if \<not> out_DryRun out \<and> Status out = Some OutcomeReady
      then say M (line ''ready outcome reached; run without --once to execute the reboot command'') s else s"
    have "quiet_op ?f" by (simp add: quiet_op_def)
    with after_release [OF assms(1,2) pass [unfolded None] assms(3), of "say M (reportOutcome out) s1" ?f M]
    show ?thesis using pass None by (simp add: run_once_def)
  next
    case (Some e)
    note failed = after_failed_pass [OF assms(1,2) pass [unfolded Some] assms(3)]
    show ?thesis using pass Some by (simp add: run_once_def fail_def print_error_def failed)
  qed
qed

lemma after_status_once:
  assumes "honest_random d" "0 < r_maxLockTries r" "st_calls s = c0"
  shows "after c0 safe_pass (status_once M d r s)"
proof -
  obtain out err s1 where pass: "RunOnce d r s = (out, err, s1)" by (metis prod_cases3)
  show ?thesis
  proof (cases err)
    case None
    have "quiet_op (say M (line []))" by (simp add: quiet_op_def)
    with after_release [OF assms(1,2) pass [unfolded None] assms(3), of "say M (reportOutcome out) s1" "say M (line [])" M]
    show ?thesis using pass None by (simp add: status_once_def)
  next
    case (Some e)
    note failed = after_failed_pass [OF assms(1,2) pass [unfolded Some] assms(3)]
    show ?thesis using pass Some by (simp add: status_once_def fail_def failed)
  qed
qed

section \<open>The loop\<close>

definition loop_trace :: "'w deps \<Rightarrow> runner \<Rightarrow> call list \<Rightarrow> bool" where
  "loop_trace d r cs \<longleftrightarrow>
     (\<exists>idle last. cs = idle @ last \<and> harmless idle \<and>
        (harmless last \<or> reboot_calls d r last \<or> failed_start_calls r last))"

lemma harmless_loop_trace: "harmless cs \<Longrightarrow> loop_trace d r cs"
  unfolding loop_trace_def by (rule exI [of _ "[]"]) simp

definition loop_pass :: "'w deps \<Rightarrow> runner \<Rightarrow> int \<Rightarrow> 'w publisher option \<Rightarrow> call list \<Rightarrow> outcomeSummary option \<Rightarrow> bool" where
  "loop_pass d r code p cs m \<longleftrightarrow>
     (\<forall>q. p = Some q \<longrightarrow> hp_deps q = d \<and> hp_runner q = r) \<and> loop_trace d r cs \<and> code_of_last code m"

lemma remembers_last_code:
  "remembers_last q \<Longrightarrow> code_of_last (exitCodeForOutcome (pw_lastOutcome (st_world q))) (st_lastOutcome q)"
  by (auto simp: remembers_last_def code_of_last_def exitCodeForOutcome_def)

lemma after_loop_ended:
  assumes "st_calls q = c0 @ cs" "loop_trace d r cs" "remembers_last q" "nothing_left (Return err) q"
  shows "after c0 (loop_pass d r) (loop_ended M cfg d r err q)"
proof -
  let ?out = "pw_lastOutcome (st_world q)"
  have stopped: "after c0 (loop_pass d r) (stop code s)"
    if "st_calls s = st_calls q" "code_of_last code (st_lastOutcome s)" for code s
    using that assms(1,2) by (simp add: after_def stop_def loop_pass_def)
  note code = remembers_last_code [OF assms(3)]
  show ?thesis
  proof (cases err)
    case (Some e)
    with stopped code show ?thesis by (simp add: loop_ended_def Let_def fail_def)
  next
    case None
    with assms(4) have left: "pw_executed (st_world q) \<or> lockRelease ?out = None" by (simp add: nothing_left_def)
    then have "loop_ended M cfg d r err q = stop (exitCodeForOutcome ?out) s \<Longrightarrow>
        st_calls s = st_calls q \<Longrightarrow> st_lastOutcome s = st_lastOutcome q \<Longrightarrow> ?thesis" for s
      using stopped code by simp
    then show ?thesis
      using None left by (auto simp: loop_ended_def Let_def release_or_fail_def ReleaseLock_def split: if_splits)
  qed
qed

lemma after_run_loop:
  assumes "honest_random d" "0 < r_maxLockTries r" "st_calls s = c0"
  shows "after c0 (loop_pass d r) (run_loop M cfg d r s)"
proof (cases "loop_Run (process_loop M cfg d r) \<lparr>lp_st = to_process s, lp_backoff = 0\<rparr>")
  case None
  then show ?thesis by (simp add: run_loop_def after_def)
next
  case (Some res)
  obtain err y where res: "res = (err, y)" by (metis surj_pair)
  let ?L = "process_loop M cfg d r" and ?x = "\<lparr>lp_st = to_process s, lp_backoff = 0\<rparr>"
  from loop_Run_runs [OF Some] res obtain z where z: "loop_runs ?L ?x z" "loop_iteration ?L z = (Return err, y)" by auto
  have H: "honest_random (le_deps ?L)" "0 < r_maxLockTries (le_runner ?L)" using assms(1,2) by simp_all
  have "remembers_last (lp_st ?x)" by (simp add: remembers_last_def to_process_def empty_outcome_def)
  from iteration_variables [OF assms(1,2) loop_runs_remembers [OF assms(1,2) z(1) this] z(2)]
  have V: "remembers_last (lp_st y)" "nothing_left (Return err) (lp_st y)" by simp_all
  show ?thesis
  proof (rule loop_calls [OF H z])
    fix idle cs
    assume cs: "st_calls (lp_st y) = st_calls (lp_st ?x) @ idle @ cs" "harmless idle"
      "harmless cs \<or> reboot_calls (le_deps ?L) (le_runner ?L) cs \<or> failed_start_calls (le_runner ?L) cs"
    then have "loop_trace d r (idle @ cs)"
      unfolding loop_trace_def by (auto dest: process_reboot_calls)
    with cs(1) V assms(3) Some res show ?thesis
      by (simp add: run_loop_def after_loop_ended [of _ _ "idle @ cs"])
  qed
qed

lemma after_publish_beside:
  assumes "after c0 (loop_pass d r) (k s)" "st_calls s = c0"
  shows "after c0 (loop_pass d r) (publish_beside M cfg d r k s)"
proof (cases "HealthPublishingEnabled r \<and> 0 < sint (HealthPublishInterval cfg)")
  case True
  have quiet: "loop_pass d r exitRunError None [] m" for m
    by (simp add: loop_pass_def harmless_loop_trace)
  have "after c0 (loop_pass d r) (map_option (\<lambda>(code, _, s). (code, Some p, s)) (k s))"
    if "hp_deps p = d" "hp_runner p = r" for p
    using assms(1) that by (auto simp: after_def loop_pass_def)
  then show ?thesis
    using True quiet assms(2)
    by (auto simp: publish_beside_def NewHealthPublisher_def WithHealthPublisherErrorHandler_def or_fail_def
        split: sum.split intro: after_fail)
qed (use assms(1) in \<open>auto simp: publish_beside_def\<close>)

section \<open>The runner of a configuration\<close>

definition configured :: "'w machine \<Rightarrow> config \<Rightarrow> 'w deps \<Rightarrow> runner \<Rightarrow> bool" where
  "configured M cfg d r \<longleftrightarrow>
     r_cfg r = cfg \<and> r_killSwitchPath r = KillSwitchFile cfg \<and> 0 < r_maxLockTries r \<and> r_lockEnabled r \<and>
     r_healthReporting r \<and> r_clusterHealth r \<and> r_cooldownWindow r = RebootCooldownInterval cfg \<and>
     r_cooldown r = (0 < MinRebootIntervalSec cfg) \<and>
     NewEvaluator (win_Allow (Windows cfg)) (win_Deny (Windows cfg)) = Inr (r_windows r) \<and>
     d_random d = rt_random (mc_runtime M)"

lemmas option_defs = WithReporter_def WithCommandEnvironment_def WithCooldownManager_def WithClusterHealthManager_def
  WithClusterHealthReporting_def WithMaxLockAttempts_def WithLockAcquisition_def

lemmas constructor_defs = NewRunner_def build_runner_def build_deps_def default_build_def or_else_def option_defs

lemma run_options_configured:
  assumes "NewRunner (mc_runtime M) (Some cfg) en h lm (run_options M cfg collect env cd hm) = Inr (r, d)"
    and "(cd \<noteq> None) = (0 < MinRebootIntervalSec cfg)"
  shows "configured M cfg d r"
  using assms
  by (cases cd) (auto simp: configured_def run_options_def constructor_defs Let_def split: option.splits if_splits sum.splits)

lemma status_options_runner:
  assumes "NewRunner R (Some cfg) en h lm (status_options M env skipLock cd hm) = Inr (r, d)"
  shows "r_cfg r = cfg \<and> r_maxLockTries r = 1 \<and> r_lockEnabled r = (\<not> skipLock) \<and> \<not> HealthPublishingEnabled r \<and>
    d_random d = rt_random R"
  using assms
  by (cases cd; cases skipLock)
    (auto simp: status_options_def HealthPublishingEnabled_def constructor_defs Let_def split: option.splits if_splits sum.splits)

lemma honest_configured: "honest_machine M \<Longrightarrow> d_random d = rt_random (mc_runtime M) \<Longrightarrow> honest_random d"
  by (simp add: honest_machine_def honest_random_def)

end
