(* ===== verification/ProgramSafety.thy ===== *)
theory ProgramSafety
  imports CommandSafety
begin

text \<open>
  The program as a whole: what any invocation of \<open>clusterrebootd\<close> may do to the cluster, what its exit
  code says, and when it ends.
\<close>

section \<open>What an invocation does\<close>

definition dry :: "(string \<rightharpoonup> string) \<Rightarrow> config \<Rightarrow> config" where
  "dry vals cfg = (if flag_on vals ''dry-run'' then cfg\<lparr>DryRun := True\<rparr> else cfg)"

definition may_reboot :: "'w machine \<Rightarrow> string list \<Rightarrow> 'w \<Rightarrow> call list \<Rightarrow> bool" where
  "may_reboot M args w cs \<longleftrightarrow>
     (\<exists>rest vals cfg d r idle last. args = ''run'' # rest \<and> parse_flags run_flags Map.empty rest = Some vals \<and>
        \<not> flag_on vals ''once'' \<and> \<not> flag_on vals ''dry-run'' \<and>
        Load (mc_yaml M) (mc_open M w) (config_path vals) = Inr cfg \<and> configured M cfg d r \<and>
        cs = idle @ last \<and> harmless idle \<and> (reboot_calls d r last \<or> failed_start_calls r last))"

definition program_ok :: "'w machine \<Rightarrow> string list \<Rightarrow> 'w \<Rightarrow> int \<Rightarrow> 'w publisher option \<Rightarrow> call list
    \<Rightarrow> outcomeSummary option \<Rightarrow> bool" where
  "program_ok M args w code p cs m \<longleftrightarrow> (harmless cs \<or> may_reboot M args w cs) \<and> code_of_last code m"

lemma program_ok_quiet:
  "code \<in> {exitOK, exitUsage, exitRunError, exitConfigError, exitDetectorError} \<Longrightarrow> program_ok M args w code p [] m"
  by (auto simp: program_ok_def)

lemma program_ok_codes [simp]:
  "program_ok M args w exitOK p [] m" "program_ok M args w exitUsage p [] m"
  "program_ok M args w exitRunError p [] m" "program_ok M args w exitConfigError p [] m"
  "program_ok M args w exitDetectorError p [] m"
  by (simp_all add: program_ok_quiet)

lemma after_weaken: "after c0 Q res \<Longrightarrow> (\<And>code p cs m. Q code p cs m \<Longrightarrow> R code p cs m) \<Longrightarrow> after c0 R res"
  unfolding after_def by blast

lemma safe_pass_ok: "safe_pass code p cs m \<Longrightarrow> program_ok M args w code p cs m"
  by (simp add: safe_pass_def program_ok_def)

lemma safe_after_ok: "after c0 safe_pass res \<Longrightarrow> after c0 (program_ok M args w) res"
  by (rule after_weaken, assumption, rule safe_pass_ok)

lemma loop_pass_ok:
  assumes "loop_pass d r code p cs m" "configured M (dry vals cfg) d r"
    and "args = ''run'' # rest" "parse_flags run_flags Map.empty rest = Some vals" "\<not> flag_on vals ''once''"
    and "Load (mc_yaml M) (mc_open M w) (config_path vals) = Inr cfg"
  shows "program_ok M args w code p cs m"
proof -
  from assms(1) obtain idle last where t: "cs = idle @ last" "harmless idle"
    "harmless last \<or> reboot_calls d r last \<or> failed_start_calls r last" and code: "code_of_last code m"
    by (auto simp: loop_pass_def loop_trace_def)
  show ?thesis
  proof (cases "harmless last")
    case True
    with t code show ?thesis by (simp add: program_ok_def harmless_append)
  next
    case False
    with t(3) have "\<not> DryRun (r_cfg r)" by (auto simp: reboot_calls_def failed_start_calls_def)
    moreover have "r_cfg r = dry vals cfg" using assms(2) by (simp add: configured_def)
    ultimately have "\<not> DryRun (dry vals cfg)" by simp
    then have nd: "\<not> flag_on vals ''dry-run''" by (cases "flag_on vals ''dry-run''") (simp_all add: dry_def)
    then have "dry vals cfg = cfg" by (simp add: dry_def)
    with assms(2) have c: "configured M cfg d r" by simp
    from t(3) False have "reboot_calls d r last \<or> failed_start_calls r last" by simp
    then have "may_reboot M args w cs"
      unfolding may_reboot_def using assms(3-6) nd c t(1,2)
      by (intro exI [of _ rest] exI [of _ vals] exI [of _ cfg] exI [of _ d] exI [of _ r] exI [of _ idle] exI [of _ last] conjI)
    with code show ?thesis by (simp add: program_ok_def)
  qed
qed

lemma after_run_configured:
  assumes "honest_machine M" "st_calls s = c0"
    and "\<And>code m. code \<in> {exitRunError, exitConfigError} \<Longrightarrow> Q code None [] m"
    and "\<And>d r s. configured M cfg d r \<Longrightarrow> st_calls s = c0 \<Longrightarrow>
      after c0 Q ((if once then run_once M d r else publish_beside M cfg d r (run_loop M cfg d r)) s)"
  shows "after c0 Q (run_configured M once cfg s)"
proof -
  have leaf: "after c0 Q (start_runner M cfg en health locker (run_options M cfg collect env cd hm)
      (\<lambda>d r s. (if once then run_once M d r else publish_beside M cfg d r (run_loop M cfg d r)) (say M msg s)) t)"
    if t: "st_calls t = c0" "(cd \<noteq> None) = (0 < MinRebootIntervalSec cfg)" for en health locker collect env cd hm msg t
  proof (rule after_start [OF t(1)])
    fix r d
    assume "NewRunner (mc_runtime M) (Some cfg) (Some (detect_of M en)) (Some health) (Some locker)
      (run_options M cfg collect env cd hm) = Inr (r, d)"
    from run_options_configured [OF this t(2)]
    show "after c0 Q ((if once then run_once M d r else publish_beside M cfg d r (run_loop M cfg d r)) (say M msg t))"
      by (rule assms(4)) (simp add: t(1))
  qed (simp add: assms(3))
  show ?thesis
    unfolding run_configured_def
    by (rule after_awaiting, rule after_engine, rule assms(2), simp add: assms(3),
        rule after_tls, rule assms(2), simp add: assms(3),
        rule after_with_lock, rule assms(2), simp add: assms(3),
        rule after_with_cooldown, assumption, simp add: assms(3),
        rule after_with_health, assumption, simp add: assms(3),
        rule after_metrics, assumption, simp add: assms(3),
        rule after_or_fail, assumption, simp add: assms(3), rule leaf)
qed

lemma after_commandRun:
  assumes "honest_machine M"
  shows "after (st_calls s) (program_ok M (''run'' # rest) (st_world s)) (commandRun M rest s)"
  unfolding commandRun_def dry_def [symmetric]
proof (intro after_flags after_config)
  fix vals cfg
  assume args: "parse_flags run_flags Map.empty rest = Some vals"
    "Load (mc_yaml M) (mc_open M (st_world s)) (config_path vals) = Inr cfg"
  show "after (st_calls s) (program_ok M (''run'' # rest) (st_world s)) (run_configured M (flag_on vals ''once'') (dry vals cfg) s)"
  proof (rule after_run_configured [OF assms refl])
    fix d r and t :: "'a st"
    assume c: "configured M (dry vals cfg) d r" and t: "st_calls t = st_calls s"
    then have H: "honest_random d" "0 < r_maxLockTries r"
      using honest_configured [OF assms] by (simp_all add: configured_def)
    show "after (st_calls s) (program_ok M (''run'' # rest) (st_world s))
        ((if flag_on vals ''once'' then run_once M d r
          else publish_beside M (dry vals cfg) d r (run_loop M (dry vals cfg) d r)) t)"
    proof (cases "flag_on vals ''once''")
      case True
      with after_weaken [OF after_run_once [OF H t] safe_pass_ok] show ?thesis by simp
    next
      case False
      have ok: "program_ok M (''run'' # rest) (st_world s) code p cs m" if "loop_pass d r code p cs m" for code p cs m
        using loop_pass_ok [OF that c refl args(1) False args(2)] .
      have "after (st_calls s) (loop_pass d r)
          (publish_beside M (dry vals cfg) d r (run_loop M (dry vals cfg) d r) t)"
        by (rule after_publish_beside, rule after_run_loop [OF H t], rule t)
      from after_weaken [OF this ok] False show ?thesis by simp
    qed
  qed auto
qed simp_all

lemma after_status_health:
  assumes "st_calls s = c0" "\<And>m. Q exitConfigError None [] m" "\<And>h t. st_calls t = c0 \<Longrightarrow> after c0 Q (k h t)"
  shows "after c0 Q (status_health M cfg skipHealth env k s)"
proof (cases skipHealth)
  case True
  have "after c0 Q (k skipHealth_Run (complain M msg s))" for msg using assms(1) by (intro assms(3)) simp
  with True show ?thesis by (simp add: status_health_def)
next
  case False
  then show ?thesis unfolding status_health_def by simp (intro after_or_fail assms)
qed

lemma after_status_managers:
  assumes "st_calls s = c0" "\<And>m. Q exitRunError None [] m" "\<And>l cd hm t. st_calls t = c0 \<Longrightarrow> after c0 Q (k l cd hm t)"
  shows "after c0 Q (status_managers M cfg tls skipLock k s)"
proof (cases skipLock)
  case True
  have "after c0 Q (open_cooldown M cfg tls (\<lambda>cd. close_cooldown cd (k l cd None)) (complain M msg s))" for l msg
    by (rule after_open_cooldown) (simp_all add: assms after_close_cooldown)
  with True show ?thesis by (simp add: status_managers_def)
next
  case False
  then show ?thesis
    unfolding status_managers_def
    by simp (intro after_open_lock after_open_cooldown after_closing after_close_cooldown after_with_health assms)
qed

lemma after_status_configured:
  assumes "st_calls s = c0" "\<And>code m. code \<in> {exitRunError, exitConfigError} \<Longrightarrow> Q code None [] m"
    and "\<And>d r s. r_cfg r = cfg \<Longrightarrow> r_maxLockTries r = 1 \<Longrightarrow> \<not> HealthPublishingEnabled r \<Longrightarrow>
      d_random d = rt_random (mc_runtime M) \<Longrightarrow> st_calls s = c0 \<Longrightarrow> after c0 Q (status_once M d r s)"
  shows "after c0 Q (status_configured M skipHealth skipLock cfg s)"
proof -
  have leaf: "after c0 Q (start_runner M cfg en health locker (status_options M env skipLock cd hm)
      (\<lambda>d r s. status_once M d r (say M msg s)) t)" if "st_calls t = c0" for en health locker env cd hm msg t
  proof (rule after_start [OF that])
    fix r d
    assume "NewRunner (mc_runtime M) (Some cfg) (Some (detect_of M en)) (Some health) (Some locker)
      (status_options M env skipLock cd hm) = Inr (r, d)"
    from status_options_runner [OF this] show "after c0 Q (status_once M d r (say M msg t))"
      by (intro assms(3)) (simp_all add: that)
  qed (simp add: assms(2))
  show ?thesis
    unfolding status_configured_def Let_def
    by (rule after_engine, rule assms(1), simp add: assms(2),
        rule after_status_health, rule assms(1), simp add: assms(2),
        rule after_tls, assumption, simp add: assms(2),
        rule after_status_managers, assumption, simp add: assms(2), rule leaf)
qed

lemma after_commandStatus:
  assumes "honest_machine M"
  shows "after (st_calls s) safe_pass (commandStatus M rest s)"
  unfolding commandStatus_def
  by (intro after_flags after_config after_status_configured after_status_once)
    (auto simp: safe_pass_def intro: honest_configured [OF assms])

lemma after_simulate:
  assumes "st_calls s = c0"
  shows "after c0 safe_pass (simulate_configured M cfg s)"
  unfolding simulate_configured_def
proof (rule after_engine)
  fix en
  obtain req results err t where e: "silent (detect_of M en) s = ((req, results, err), t)" by (metis prod_cases3 surj_pair)
  then have "st_calls t = c0" using silent_rest(1) [of "detect_of M en" s] assms by simp
  then show "after c0 safe_pass
      (let ((req, results, err), s) = silent (detect_of M en) s; s = say M (simulation_text cfg req results) s
       in case err of None \<Rightarrow> stop exitOK (say M (line ''no reboot actions performed in simulation mode'') s)
          | Some e \<Rightarrow> fail M exitDetectorError ''detector evaluation encountered errors'' e s)"
    using e by (auto simp: safe_pass_def Let_def intro!: after_stop after_fail split: option.split)
qed (use assms in \<open>simp_all add: safe_pass_def\<close>)

lemma after_run:
  assumes "honest_machine M"
  shows "after (st_calls s) (program_ok M args (st_world s)) (run M args s)"
proof (cases args)
  case Nil
  then show ?thesis by (auto simp: run_def usage_def intro!: after_stop)
next
  case (Cons name rest)
  have validate: "after (st_calls s) safe_pass (commandValidate M rest s)"
    unfolding commandValidate_def by (intro after_flags after_config after_stop) (simp_all add: safe_pass_def)
  have simulate: "after (st_calls s) safe_pass (commandSimulate M rest s)"
    unfolding commandSimulate_def by (intro after_flags after_config after_simulate) (simp_all add: safe_pass_def)
  note ok = safe_after_ok [of _ _ M args "st_world s"]
  note commands = after_commandRun [OF assms, of s rest] ok [OF validate] ok [OF simulate]
    ok [OF after_commandStatus [OF assms]]
  have unknown: "after (st_calls s) (program_ok M args (st_world s)) (unknown_command M name s)"
    unfolding unknown_command_def usage_def by (rule after_stop) simp_all
  have version: "after (st_calls s) (program_ok M args (st_world s)) (stop exitOK (say M msg s))" for msg
    by (rule after_stop) simp_all
  have choose: "after c0 Q (if P then x else y)" if "P \<Longrightarrow> after c0 Q x" "\<not> P \<Longrightarrow> after c0 Q y" for c0 Q P x
      and y :: "(int \<times> 'a publisher option \<times> 'a st) option"
    using that by simp
  show ?thesis
    unfolding run_def Cons list.case
    by (intro choose) (use commands unknown version in \<open>simp_all add: Cons\<close>)
qed

section \<open>What never ends\<close>

named_theorems endless \<open>when a step of a command does not return\<close>

lemma endless_steps [endless]:
  "stop code s \<noteq> None"
  "fail M code msg e s \<noteq> None"
  "or_fail M code msg x k s = None \<longleftrightarrow> (\<exists>a. x = Inr a \<and> k a s = None)"
  "obtain_or_fail M code msg f k s = None \<longleftrightarrow> (\<exists>a t. silent f s = (Inr a, t) \<and> k a t = None)"
  "finally_do g c s = None \<longleftrightarrow> c s = None"
  "closing h c s = None \<longleftrightarrow> c s = None"
  "awaiting_publisher M c s = None \<longleftrightarrow> c s = None"
  by (auto simp: stop_def fail_def or_fail_def obtain_or_fail_def finally_do_def closing_def awaiting_publisher_def
      split: sum.split prod.split)

lemma endless_managers [endless]:
  "with_flags M kinds args k s = None \<longleftrightarrow> (\<exists>vals. parse_flags kinds Map.empty args = Some vals \<and> k vals s = None)"
  "with_config M msg vals k1 s = None \<longleftrightarrow>
     (\<exists>cfg. Load (mc_yaml M) (mc_open M (st_world s)) (config_path vals) = Inr cfg \<and> k1 cfg s = None)"
  "close_cooldown cd c s = None \<longleftrightarrow> c s = None"
  by (auto simp: with_flags_def with_config_def close_cooldown_def endless_steps split: option.split)

text \<open>A command that always ends.\<close>

definition ends :: "'w command \<Rightarrow> bool" where
  "ends k \<longleftrightarrow> (\<forall>s. k s \<noteq> None)"

lemma ends_basic: "ends (stop code)" "ends (fail M code msg e)"
  by (simp_all only: ends_def endless_steps) simp_all

lemma ends_or_fail: "(\<And>a. ends (k a)) \<Longrightarrow> ends (or_fail M code msg x k)"
  unfolding ends_def endless_steps by blast

lemma ends_obtain: "(\<And>a. ends (k a)) \<Longrightarrow> ends (obtain_or_fail M code msg f k)"
  unfolding ends_def endless_steps by blast

lemma ends_closing: "ends c \<Longrightarrow> ends (closing h c)"
  unfolding ends_def endless_steps .

lemma ends_close_cooldown: "ends c \<Longrightarrow> ends (close_cooldown cd c)"
  unfolding ends_def endless_managers .

lemma ends_flags: "(\<And>vals. ends (k vals)) \<Longrightarrow> ends (with_flags M kinds args k)"
  unfolding ends_def endless_managers by blast

lemma ends_config: "(\<And>cfg. ends (k cfg)) \<Longrightarrow> ends (with_config M msg vals k)"
  unfolding ends_def endless_managers by blast

lemma ends_before: "ends k \<Longrightarrow> ends (\<lambda>s. k (f s))"
  by (simp add: ends_def)

lemma ends_engine: "(\<And>en. ends (k en)) \<Longrightarrow> ends (with_engine M cfg k)"
  unfolding with_engine_def by (intro ends_or_fail)

lemma ends_tls: "(\<And>tls. ends (k tls)) \<Longrightarrow> ends (with_tls M cfg k)"
  unfolding with_tls_def ends_def endless_steps by blast

lemma ends_open_lock: "(\<And>lm. ends (k lm)) \<Longrightarrow> ends (open_lock M cfg tls k)"
  unfolding open_lock_def by (intro ends_obtain)

lemma ends_open_cooldown: "(\<And>cd. ends (k cd)) \<Longrightarrow> ends (open_cooldown M cfg tls k)"
  unfolding open_cooldown_def by (simp add: ends_obtain)

lemma ends_with_health: "(\<And>hm. ends (k hm)) \<Longrightarrow> ends (with_health M cfg tls k)"
  unfolding with_health_def by (intro ends_obtain ends_closing)

lemma ends_start:
  assumes "\<And>r d. NewRunner (mc_runtime M) (Some cfg) (Some (detect_of M en)) (Some health) (Some locker) opts =
    Inr (r, d) \<Longrightarrow> ends (k d r)"
  shows "ends (start_runner M cfg en health locker opts k)"
  using assms unfolding start_runner_def ends_def endless_steps by (auto simp del: not_None_eq)

lemma ends_with_lock: "(\<And>lm. ends (k lm)) \<Longrightarrow> ends (with_lock M cfg tls k)"
  unfolding with_lock_def by (intro ends_open_lock ends_closing)

lemma ends_with_cooldown:
  assumes "\<And>cd. (cd \<noteq> None) = (0 < MinRebootIntervalSec cfg) \<Longrightarrow> ends (k cd)"
  shows "ends (with_cooldown M cfg tls k)"
  using assms unfolding with_cooldown_def open_cooldown_def
  by (auto intro!: ends_obtain ends_close_cooldown)

lemma ends_with_metrics:
  assumes "\<And>collect e. ends (k collect e)"
  shows "ends (with_metrics M cfg env k)"
proof -
  have "finally_do g (k collect e) s \<noteq> None" "k collect e s \<noteq> None" for g collect e s
    using assms unfolding endless_steps ends_def by blast+
  then show ?thesis unfolding ends_def with_metrics_def by (auto simp only: endless_steps split: if_splits)
qed

lemma ends_awaiting: "ends c \<Longrightarrow> ends (awaiting_publisher M c)"
  unfolding ends_def endless_steps .

lemma ends_status_health: "(\<And>h. ends (k h)) \<Longrightarrow> ends (status_health M cfg skip env k)"
  unfolding ends_def status_health_def endless_steps by (simp add: endless_steps del: not_None_eq)

lemma ends_status_managers:
  assumes "\<And>l cd hm. ends (k l cd hm)"
  shows "ends (status_managers M cfg tls skip k)"
proof (cases skip)
  case True
  have "ends (open_cooldown M cfg tls (\<lambda>cd. close_cooldown cd (k l cd None)))" for l
    by (intro ends_open_cooldown ends_close_cooldown assms)
  with True show ?thesis by (simp add: ends_def status_managers_def)
next
  case False
  have "ends (open_lock M cfg tls (\<lambda>lm. open_cooldown M cfg tls (\<lambda>cd. closing (lock_Close lm)
      (close_cooldown cd (with_health M cfg tls (\<lambda>hm. k (lock_client_of lm) cd (Some hm)))))))"
    by (intro ends_open_lock ends_open_cooldown ends_closing ends_close_cooldown ends_with_health assms)
  with False show ?thesis by (simp add: ends_def status_managers_def)
qed

lemma ends_release: "ends k \<Longrightarrow> ends (release_or_fail M d r out k)"
  by (simp add: ends_def release_or_fail_def endless_steps(1,2) del: not_None_eq split: prod.split option.split)

lemma ends_passes: "ends (run_once M d r)" "ends (status_once M d r)"
proof -
  have release: "release_or_fail M d r out (\<lambda>s. stop code (f s)) s \<noteq> None" for out code f s
    using ends_release [OF ends_before [OF ends_basic(1)]] unfolding ends_def by blast
  show "ends (run_once M d r)" "ends (status_once M d r)"
    using release unfolding ends_def run_once_def status_once_def
    by (simp_all add: split_beta endless_steps(1,2) del: not_None_eq split: option.split)
qed

lemma loop_ended_ends: "loop_ended M cfg d r err q \<noteq> None"
proof -
  have "release_or_fail M d r out (stop code) s \<noteq> None" for out code s
    using ends_release [OF ends_basic(1)] unfolding ends_def by blast
  then show ?thesis
    by (simp add: loop_ended_def Let_def endless_steps(1,2) del: not_None_eq split: option.split)
qed

lemma ends_status: "ends (status_configured M skipHealth skipLock cfg)"
  unfolding status_configured_def Let_def
  by (rule ends_engine, rule ends_status_health, rule ends_tls, rule ends_status_managers, rule ends_start,
      rule ends_before, rule ends_passes)

lemma ends_simulate: "ends (simulate_configured M cfg)"
proof -
  have "ends (\<lambda>s. let ((req, results, err), s) = silent (detect_of M en) s; s = say M (simulation_text cfg req results) s
       in case err of Some e \<Rightarrow> fail M exitDetectorError ''detector evaluation encountered errors'' e s
          | None \<Rightarrow> stop exitOK (say M (line ''no reboot actions performed in simulation mode'') s))" for en
    by (simp add: ends_def Let_def endless_steps(1,2) del: not_None_eq split: prod.split option.split)
  then show ?thesis unfolding simulate_configured_def by (rule ends_engine)
qed

lemma ends_run_configured:
  assumes "\<And>d r. configured M cfg d r \<Longrightarrow>
    ends (if once then run_once M d r else publish_beside M cfg d r (run_loop M cfg d r))"
  shows "ends (run_configured M once cfg)"
proof -
  have leaf: "ends (start_runner M cfg en health locker (run_options M cfg collect env cd hm)
      (\<lambda>d r s. (if once then run_once M d r else publish_beside M cfg d r (run_loop M cfg d r)) (say M msg s)))"
    if "(cd \<noteq> None) = (0 < MinRebootIntervalSec cfg)" for en health locker collect env cd hm msg
    by (rule ends_start, rule ends_before, rule assms, erule run_options_configured, rule that)
  show ?thesis
    unfolding run_configured_def
    by (rule ends_awaiting, rule ends_engine, rule ends_tls, rule ends_with_lock, rule ends_with_cooldown,
        rule ends_with_health, rule ends_with_metrics, rule ends_or_fail, rule leaf)
qed

lemma run_endless:
  assumes "run_configured M once cfg s = None"
  shows "\<not> once \<and> (\<exists>d r t. configured M cfg d r \<and>
    loop_Run (process_loop M cfg d r) \<lparr>lp_st = to_process t, lp_backoff = 0\<rparr> = None)"
proof -
  have "\<not> ends (run_configured M once cfg)" using assms unfolding ends_def by blast
  then obtain d r where c: "configured M cfg d r"
    and "\<not> ends (if once then run_once M d r else publish_beside M cfg d r (run_loop M cfg d r))"
    using ends_run_configured by blast
  then have once: "\<not> once" and "\<not> ends (publish_beside M cfg d r (run_loop M cfg d r))"
    using ends_passes(1) by (auto split: if_splits)
  then obtain t where "publish_beside M cfg d r (run_loop M cfg d r) t = None" unfolding ends_def by blast
  then have "run_loop M cfg d r t = None" by (auto simp: publish_beside_def endless_steps split: if_splits)
  then have "loop_Run (process_loop M cfg d r) \<lparr>lp_st = to_process t, lp_backoff = 0\<rparr> = None"
    by (auto simp: run_loop_def loop_ended_ends simp del: not_None_eq split: option.splits)
  with once c show ?thesis by blast
qed

lemma endless_run:
  assumes "run M args s = None"
  shows "\<exists>rest vals cfg d r t. args = ''run'' # rest \<and> parse_flags run_flags Map.empty rest = Some vals \<and>
    \<not> flag_on vals ''once'' \<and> Load (mc_yaml M) (mc_open M (st_world s)) (config_path vals) = Inr cfg \<and>
    configured M (dry vals cfg) d r \<and>
    loop_Run (process_loop M (dry vals cfg) d r) \<lparr>lp_st = to_process t, lp_backoff = 0\<rparr> = None"
proof -
  have others: "ends (commandValidate M rest)" "ends (commandSimulate M rest)" "ends (commandStatus M rest)"
    "ends (unknown_command M name)" for rest name
    unfolding commandValidate_def commandSimulate_def commandStatus_def unknown_command_def
    by (rule ends_flags, rule ends_config, rule ends_before, rule ends_basic)
      (rule ends_flags, rule ends_config, rule ends_simulate,
       rule ends_flags, rule ends_config, rule ends_status, rule ends_before, rule ends_basic)
  note others = others [unfolded ends_def, THEN spec]
  from assms obtain rest where args: "args = ''run'' # rest" and "commandRun M rest s = None"
    by (auto simp: run_def endless_steps others simp del: not_None_eq split: list.splits if_splits)
  then obtain vals cfg where "parse_flags run_flags Map.empty rest = Some vals"
    "Load (mc_yaml M) (mc_open M (st_world s)) (config_path vals) = Inr cfg"
    "run_configured M (flag_on vals ''once'') (dry vals cfg) s = None"
    unfolding commandRun_def dry_def endless_managers by blast
  with args run_endless [OF this(3)] show ?thesis by blast
qed

section \<open>Properties of the program\<close>

text \<open>C1: No invocation of the program reboots unsafely.  Whatever the arguments, the configuration and the
  answers of the machine, what a finished invocation did to the cluster is harmless: no command is
  executed, no cooldown started and every lease given back.  The exception is \<open>run\<close> without \<open>--once\<close>
  and \<open>--dry-run\<close> on a configuration that loads and is no dry run: after harmless passes it may end with
  one pass through every gate of that configuration, whose lease is in hand while the cooldown is
  started and the configured command executed, or released when either fails.\<close>

theorem program_reboots_safely:
  assumes "honest_machine M" "run M args s = Some (code, p, s')"
  shows "\<exists>cs. st_calls s' = st_calls s @ cs \<and> (harmless cs \<or>
    (\<exists>rest vals cfg d r idle last. args = ''run'' # rest \<and> parse_flags run_flags Map.empty rest = Some vals \<and>
       \<not> flag_on vals ''once'' \<and> \<not> flag_on vals ''dry-run'' \<and>
       Load (mc_yaml M) (mc_open M (st_world s)) (config_path vals) = Inr cfg \<and> configured M cfg d r \<and>
       cs = idle @ last \<and> harmless idle \<and> (reboot_calls d r last \<or> failed_start_calls r last)))"
  using after_run [OF assms(1), of s args] assms(2)
  by (auto simp: after_def program_ok_def may_reboot_def)

text \<open>C38: The exit code tells how the last pass ended.  An invocation that ends with a code other than
  those for success, usage, a runtime, a configuration or a detector error ends with the code of the
  outcome of the last pass that completed, which is the one the runner remembers: 5 only after a kill
  switch, 3 only after blocked health, 4 only after the lock could not be had.\<close>

theorem exit_code_of_last_pass:
  assumes "honest_machine M" "run M args s = Some (code, p, s')"
  shows "code \<in> {exitOK, exitUsage, exitRunError, exitConfigError, exitDetectorError} \<or>
    (\<exists>out. st_lastOutcome s' = Some (outcome_summary out) \<and> code = exitCodeForOutcome out)"
  using after_run [OF assms(1), of s args] assms(2)
  by (auto simp: after_def program_ok_def code_of_last_def)


section \<open>\<open>status\<close>\<close>

lemma status_once_silent:
  assumes "\<not> HealthPublishingEnabled r" "st_calls s = c0"
  shows "after c0 (\<lambda>code p cs m. list_all (\<lambda>c. \<not> is_health_report c) cs) (status_once M d r s)"
proof -
  let ?Q = "\<lambda>code p cs m. list_all (\<lambda>c. \<not> is_health_report c) cs"
  obtain out err s1 where pass: "RunOnce d r s = (out, err, s1)" by (metis prod_cases3)
  from silent_pass [OF assms(1) pass] obtain cs where
    cs: "st_calls s1 = c0 @ cs" "list_all (\<lambda>c. \<not> is_health_report c) cs" using assms(2) by auto
  then have quiet: "after c0 ?Q (stop code t)" if "st_calls t = st_calls s1" for code and t :: "'a st"
    using that by (simp add: after_def stop_def)
  obtain rel out' s2 where rl: "ReleaseLock d r out (say M (reportOutcome out) s1) = (rel, out', s2)" by (metis prod_cases3)
  from ReleaseLock_calls [OF rl] obtain e where
    "st_calls s2 = st_calls s1 @ (case lockRelease out of None \<Rightarrow> [] | Some l \<Rightarrow> [Release l e])" by auto
  with cs have released: "after c0 ?Q (stop code t)" if "st_calls t = st_calls s2" for code and t :: "'a st"
    using that by (auto simp: after_def stop_def split: option.splits)
  show ?thesis
    using pass rl by (simp add: status_once_def release_or_fail_def fail_def quiet released split: option.split)
qed

text \<open>C39: \<open>status\<close> only looks.  It executes nothing, starts no cooldown, gives back every lease, and never
  reports the health of the node to the cluster, whatever the flags and the configuration.\<close>

theorem status_only_looks:
  assumes "honest_machine M" "commandStatus M rest s = Some (code, p, s')"
  shows "p = None \<and> (\<exists>cs. st_calls s' = st_calls s @ cs \<and> harmless cs \<and> list_all (\<lambda>c. \<not> is_health_report c) cs)"
proof -
  have "after (st_calls s) (\<lambda>code p cs m. list_all (\<lambda>c. \<not> is_health_report c) cs) (commandStatus M rest s)"
    unfolding commandStatus_def
    by (intro after_flags after_config after_status_configured status_once_silent) simp_all
  with after_commandStatus [OF assms(1), of s rest] assms(2) show ?thesis
    by (auto simp: after_def safe_pass_def)
qed

section \<open>Witnesses\<close>

text \<open>A machine on which everything is in order, with an etcd that nobody else uses.\<close>

definition quiet_client :: "unit etcd" where
  "quiet_client = \<lparr>ec_get = \<lambda>k w. (Inr [], w), ec_list = \<lambda>p w. (Inr [], w), ec_put = \<lambda>k v l w. (None, w),
     ec_delete = \<lambda>k w. (None, w), ec_grant = \<lambda>t w. (Inr 1, w), ec_revoke = \<lambda>l w. (None, w),
     ec_ttl = \<lambda>l w. (Inr 1, w), ec_newSession = \<lambda>t w. (Inr 7, w), ec_sessionLease = int,
     ec_tryLock = \<lambda>s k w. (None, w), ec_unlock = \<lambda>s k w. (None, w), ec_mutexKey = \<lambda>s k. k,
     ec_closeSession = \<lambda>s w. (None, w), ec_close = \<lambda>w. (None, w)\<rparr>"

definition quiet_os :: "unit os" where
  "quiet_os = \<lparr>os_now = \<lambda>w. (zero_time, w), os_ctx_err = \<lambda>w. (None, w),
     os_stat = (\<lambda>p w. (if p = ''/run/reboot'' then None else Some (Sentinel ErrNotExist), w)),
     os_environ = \<lambda>w. ([], w), os_range = \<lambda>m w. ([], w),
     os_run = (\<lambda>t cmd env w. (\<lparr>proc_err = None, proc_ctx_err = None, proc_stdout = [], proc_stderr = []\<rparr>, w))\<rparr>"

definition demo_file :: config where
  "demo_file = minimal_config\<lparr>RebootCommand := [''reboot'']\<rparr>"

definition demo_machine :: "unit machine" where
  "demo_machine = \<lparr>mc_runtime = \<lparr>rt_os = quiet_os, rt_sleep = \<lambda>t w. (None, w), rt_random = \<lambda>n w. (0, w),
       rt_getenv = \<lambda>w k. [], rt_peerOrder = \<lambda>m w. ([], w), rt_unrepresentable = 0\<rparr>,
     mc_stdout = \<lambda>text w. w, mc_stderr = \<lambda>text w. w, mc_flag_message = \<lambda>args. [], mc_yaml = \<lambda>text. Inr demo_file,
     mc_open = \<lambda>w p. Inr [], mc_keypair = \<lambda>c k w. Inr [], mc_pool = Some, mc_dial = \<lambda>c w. (Inr quiet_client, w),
     mc_texts = \<lparr>pt_json = \<lambda>t. t, pt_time = \<lambda>t. t\<rparr>, mc_getpid = 1, mc_marshal_event = \<lambda>e. Inr [],
     mc_listen = \<lambda>a w. (Inr a, w), mc_collect = \<lambda>m w. w, mc_shutdown = \<lambda>w. (None, w), mc_serve = \<lambda>w. (None, w),
     mc_run = \<lambda>c w. (None, w), mc_ctx_err = \<lambda>w. (None, w), mc_loop_sleep = \<lambda>t w. (None, w),
     mc_heartbeats = \<lambda>p w. (Some (Sentinel Canceled), w), mc_build_info = None, mc_version = defaultVersion\<rparr>"

lemma demo_honest: "honest_machine demo_machine"
  by (simp add: honest_machine_def demo_machine_def)

lemma once_flags: "\<exists>vals. parse_flags run_flags Map.empty [''--once''] = Some vals \<and> flag_on vals ''once''"
proof -
  have "map_option (\<lambda>vals. flag_on vals ''once'') (parse_flags run_flags Map.empty [''--once'']) = Some True"
    by code_simp
  then show ?thesis by auto
qed

lemma demo_once_ends: "\<exists>code p s'. run demo_machine [''run'', ''--once''] demo_st = Some (code, p, s')"
  using endless_run [of demo_machine "[''run'', ''--once'']" demo_st] once_flags
  by (cases "run demo_machine [''run'', ''--once''] demo_st") auto

lemma demo_calls: "st_calls demo_st = []"
  by (simp add: demo_st_def)

theorem program_reboots_safely_witness:
  "\<exists>code p s'. run demo_machine [''run'', ''--once''] demo_st = Some (code, p, s') \<and> harmless (st_calls s')"
proof -
  obtain code p s' where r: "run demo_machine [''run'', ''--once''] demo_st = Some (code, p, s')"
    using demo_once_ends by blast
  from program_reboots_safely [OF demo_honest r] r once_flags show ?thesis
    by (auto simp: demo_calls)
qed

lemma exit_code_kill: "exitCodeForOutcome out = exitKillSwitch \<longleftrightarrow> Status out = Some OutcomeKillSwitch"
  by (cases "Status out"; cases "the (Status out)") (auto simp: exitCodeForOutcome_def exit_codes)

theorem exit_code_of_last_pass_witness:
  "\<exists>code p s'. run demo_machine [''run'', ''--once''] demo_st = Some (code, p, s') \<and>
     (code = exitKillSwitch \<longrightarrow> (\<exists>x. st_lastOutcome s' = Some x \<and> os_Status x = Some OutcomeKillSwitch))"
proof -
  obtain code p s' where r: "run demo_machine [''run'', ''--once''] demo_st = Some (code, p, s')"
    using demo_once_ends by blast
  have other: "exitKillSwitch \<notin> {exitOK, exitUsage, exitRunError, exitConfigError, exitDetectorError}"
    by (simp add: exit_codes)
  have "os_Status (outcome_summary out) = Some OutcomeKillSwitch" if "exitKillSwitch = exitCodeForOutcome out" for out
    using that exit_code_kill [of out] by (simp add: outcome_summary_def)
  then have "code = exitKillSwitch \<Longrightarrow> \<exists>x. st_lastOutcome s' = Some x \<and> os_Status x = Some OutcomeKillSwitch"
    using exit_code_of_last_pass [OF demo_honest r] other by auto
  with r show ?thesis by (intro exI [of _ code] exI [of _ p] exI [of _ s'] conjI impI)
qed

theorem status_only_looks_witness:
  "\<exists>code s'. commandStatus demo_machine [''--skip-health''] demo_st = Some (code, None, s') \<and> harmless (st_calls s')"
proof -
  have "ends (commandStatus demo_machine [''--skip-health''])"
    unfolding commandStatus_def by (rule ends_flags, rule ends_config, rule ends_status)
  then have "commandStatus demo_machine [''--skip-health''] demo_st \<noteq> None" unfolding ends_def by blast
  then obtain code p s' where s: "commandStatus demo_machine [''--skip-health''] demo_st = Some (code, p, s')" by auto
  from status_only_looks [OF demo_honest s] s show ?thesis by (auto simp: demo_calls)
qed

end
