(* ===== verification/Startup.thy ===== *)
theory Startup
  imports ProgramSafety
begin

text \<open>
  How far \<open>run\<close> gets with a configuration that loads: the constructors of the detectors, the TLS
  material, the managers and the health script, in the order of \<open>cmd/clusterrebootd/main.go\<close>.
\<close>

section \<open>The codes of the passes\<close>

lemma stop_code: "stop c s = Some (code, p, t) \<Longrightarrow> code = c"
  by (simp add: stop_def)

lemma fail_code: "fail M c msg e s = Some (code, p, t) \<Longrightarrow> code = c"
  by (simp add: fail_def stop_def)

lemma exitCodeForOutcome_not_config: "exitCodeForOutcome out \<noteq> exitConfigError"
  by (simp add: exitCodeForOutcome_def exit_codes split: option.split outcome_status.split)

lemma release_code:
  assumes "release_or_fail M d r out (\<lambda>s. stop c (f s)) s = Some (code, p, t)"
  shows "code = c \<or> code = exitRunError"
  using assms by (auto simp: release_or_fail_def dest: stop_code fail_code split: prod.splits option.splits)

lemma run_once_code: "run_once M d r s = Some (code, p, t) \<Longrightarrow> code \<noteq> exitConfigError"
  using exitCodeForOutcome_not_config
  by (auto simp: run_once_def exit_codes dest!: release_code dest: stop_code fail_code
      split: prod.splits option.splits if_splits)

lemma loop_ended_code:
  assumes "loop_ended M cfg d r err q = Some (code, p, t)"
  shows "code \<noteq> exitConfigError"
proof -
  have "release_or_fail M d r out (stop (exitCodeForOutcome out)) u = Some (code, p, t) \<Longrightarrow> code \<noteq> exitConfigError" for out u
    using release_code [where f = "\<lambda>s. s", of M d r out "exitCodeForOutcome out" u code p t]
      exitCodeForOutcome_not_config [of out] by (auto simp: exit_codes)
  with assms show ?thesis
    by (auto simp: loop_ended_def Let_def exitCodeForOutcome_not_config [unfolded exit_codes] exit_codes
        dest!: stop_code fail_code split: option.splits if_splits)
qed

lemma run_loop_code: "run_loop M cfg d r s = Some (code, p, t) \<Longrightarrow> code \<noteq> exitConfigError"
  by (auto simp: run_loop_def dest: loop_ended_code split: option.splits prod.splits)

lemma publish_code:
  assumes "publish_beside M cfg d r k s = Some (code, p, t)" "\<And>code p t. k s = Some (code, p, t) \<Longrightarrow> code \<noteq> exitConfigError"
  shows "code \<noteq> exitConfigError"
  using assms
  by (auto simp: publish_beside_def or_fail_def exit_codes dest: fail_code split: if_splits sum.splits)

lemma started_code:
  assumes "start_runner M cfg en health locker opts (\<lambda>d r s.
      (if once then run_once M d r else publish_beside M cfg d r (run_loop M cfg d r)) (say M msg s)) s = Some (code, p, t)"
  shows "code \<noteq> exitConfigError"
proof -
  have "(if once then run_once M d r else publish_beside M cfg d r (run_loop M cfg d r)) t' = Some (code, p, t) \<Longrightarrow>
      code \<noteq> exitConfigError" for d r t'
    by (auto dest: run_once_code publish_code [OF _ run_loop_code] split: if_splits)
  then show ?thesis
    using assms by (auto simp: start_runner_def or_fail_def exit_codes dest: fail_code split: sum.splits)
qed

section \<open>Opening the managers\<close>

definition well_connected :: "'w machine \<Rightarrow> bool" where
  "well_connected M \<longleftrightarrow> (\<forall>c w. \<exists>client w'. mc_dial M c w = (Inr client, w')) \<and>
     (\<forall>a w. \<exists>addr w'. mc_listen M a w = (Inr addr, w'))"

lemma blank_TrimSpace: "\<not> blank s \<Longrightarrow> TrimSpace s \<noteq> []"
  by (simp add: blank_def)

lemma opens_lock:
  assumes "well_connected M" "valid_config cfg" "fits_durations cfg"
  shows "\<exists>lm t. with_lock M cfg tls k s = closing (lock_Close lm) (k lm) t"
proof -
  have ttl: "0 < sint (LockTTL cfg)" "0 < LockTTLSec cfg" "LockTTLSec cfg \<le> 9223372036" "LockTTL cfg = seconds (LockTTLSec cfg)"
    using valid_durations [OF assms(2,3)] assms(2,3)
    by (auto simp: valid_config_def fits_durations_def fits_duration_def LockTTL_def)
  have "lock_options_error u (lock_options_of M cfg tls) = None" for u
    using assms(2) ttl
    by (simp add: lock_options_error_def lock_options_of_def valid_config_def blank_TrimSpace ceil_seconds_whole)
  moreover obtain client w' where "mc_dial M \<lparr>di_Endpoints = lo_Endpoints (lock_options_of M cfg tls),
      di_DialTimeout = dial_timeout (lo_DialTimeout (lock_options_of M cfg tls)),
      di_TLS = lo_TLS (lock_options_of M cfg tls)\<rparr> (st_world s) = (Inr client, w')"
    using assms(1) unfolding well_connected_def by blast
  ultimately show ?thesis
    by (auto simp: with_lock_def open_lock_def obtain_or_fail_def or_fail_def silent_def NewLockManager_def)
qed

lemma opens_cooldown:
  assumes "well_connected M" "valid_config cfg"
  shows "\<exists>cd t. with_cooldown M cfg tls k s = close_cooldown cd (k cd) t"
proof (cases "0 < MinRebootIntervalSec cfg")
  case False
  then show ?thesis by (auto simp: with_cooldown_def open_cooldown_def)
next
  case True
  have key: "TrimSpace ''reboot_cooldown'' \<noteq> []" by code_simp
  obtain client w' where "mc_dial M \<lparr>di_Endpoints = co_Endpoints (cooldown_options_of cfg tls),
      di_DialTimeout = dial_timeout (co_DialTimeout (cooldown_options_of cfg tls)),
      di_TLS = co_TLS (cooldown_options_of cfg tls)\<rparr> (st_world s) = (Inr client, w')"
    using assms(1) unfolding well_connected_def by blast
  with True assms(2) key show ?thesis
    by (auto simp: with_cooldown_def open_cooldown_def obtain_or_fail_def or_fail_def silent_def
        NewCooldownManager_def cooldown_options_error_def cooldown_options_of_def valid_config_def blank_TrimSpace)
qed

lemma opens_health:
  assumes "well_connected M" "valid_config cfg"
  shows "\<exists>hm t. with_health M cfg tls k s = closing (health_Close hm) (k hm) t"
proof -
  obtain client w' where "mc_dial M \<lparr>di_Endpoints = ho_Endpoints (health_options_of cfg tls),
      di_DialTimeout = dial_timeout (ho_DialTimeout (health_options_of cfg tls)),
      di_TLS = ho_TLS (health_options_of cfg tls)\<rparr> (st_world s) = (Inr client, w')"
    using assms(1) unfolding well_connected_def by blast
  with assms(2) show ?thesis
    by (auto simp: with_health_def obtain_or_fail_def or_fail_def silent_def NewHealthManager_def Let_def
        health_options_of_def valid_config_def blank_TrimSpace)
qed

lemma opens_metrics:
  assumes "well_connected M"
  shows "\<exists>collect e t f. with_metrics M cfg env k s = finally_do f (k collect e) t"
proof (cases "metrics_Enabled (Metrics cfg)")
  case False
  have "with_metrics M cfg env k s = finally_do (\<lambda>s. s) (k (\<lambda>m w. w) env) s"
    using False by (simp add: with_metrics_def finally_do_def map_option.id split_beta option.map_ident)
  then show ?thesis by blast
next
  case True
  obtain addr w' where "mc_listen M (metrics_Listen (Metrics cfg)) (st_world s) = (Inr addr, w')"
    using assms unfolding well_connected_def by blast
  with True show ?thesis
    by (auto simp: with_metrics_def obtain_or_fail_def or_fail_def silent_def)
qed

section \<open>Which configurations start\<close>

text \<open>What \<open>run\<close> asks of a configuration beyond what \<open>Load\<close> does.\<close>

definition startable :: "'w machine \<Rightarrow> 'w \<Rightarrow> config \<Rightarrow> bool" where
  "startable M w cfg \<longleftrightarrow>
     distinct (map (TrimSpace \<circ> dc_Name) (RebootRequiredDetectors cfg)) \<and>
     (\<exists>tls. buildEtcdTLSConfig M (EtcdTLS cfg) w = Inr tls) \<and> IsAbs (TrimSpace (HealthScript cfg))"

lemma closing_code: "closing f k s = Some (code, p, t) \<Longrightarrow> \<exists>u. k s = Some (code, p, u)"
  by (auto simp: closing_def finally_do_def)

lemma finally_code: "finally_do f k s = Some (code, p, t) \<Longrightarrow> \<exists>u. k s = Some (code, p, u)"
  by (auto simp: finally_do_def)

lemma awaiting_code: "awaiting_publisher M k s = Some (code, p, t) \<Longrightarrow> \<exists>u. k s = Some (code, p, u)"
  by (auto simp: awaiting_publisher_def)

lemma close_cooldown_code: "close_cooldown cd k s = Some (code, p, t) \<Longrightarrow> \<exists>u. k s = Some (code, p, u)"
  by (auto simp: close_cooldown_def dest: closing_code split: option.splits)

text \<open>Once the managers are open, only the path of the health script is left to be refused.\<close>

lemma opened_code:
  assumes "well_connected M" "valid_config cfg" "fits_durations cfg"
    and "with_lock M cfg tls (\<lambda>lm. with_cooldown M cfg tls (\<lambda>cd. with_health M cfg tls (\<lambda>hm.
       with_metrics M cfg env (\<lambda>collect env. or_fail M exitConfigError ''failed to construct health runner''
         (NewScriptRunner (HealthScript cfg) (HealthTimeout cfg) env) (\<lambda>sr. leaf lm cd hm collect env sr))))) s =
       Some (code, p, t)"
    and "\<And>lm cd hm collect env sr s code p t. leaf lm cd hm collect env sr s = Some (code, p, t) \<Longrightarrow> code \<noteq> exitConfigError"
  shows "(code = exitConfigError) = (\<not> IsAbs (TrimSpace (HealthScript cfg)))"
proof -
  let ?k4 = "\<lambda>lm cd hm collect env. or_fail M exitConfigError ''failed to construct health runner''
    (NewScriptRunner (HealthScript cfg) (HealthTimeout cfg) env) (\<lambda>sr. leaf lm cd hm collect env sr)"
  let ?k3 = "\<lambda>lm cd hm. with_metrics M cfg env (?k4 lm cd hm)"
  let ?k2 = "\<lambda>lm cd. with_health M cfg tls (?k3 lm cd)"
  let ?k1 = "\<lambda>lm. with_cooldown M cfg tls (?k2 lm)"
  obtain lm t1 where e1: "with_lock M cfg tls ?k1 s = closing (lock_Close lm) (?k1 lm) t1"
    using opens_lock [OF assms(1-3)] by blast
  obtain u1 where u1: "?k1 lm t1 = Some (code, p, u1)"
    using closing_code [OF trans [OF e1 [symmetric] assms(4)]] by blast
  obtain cd t2 where e2: "?k1 lm t1 = close_cooldown cd (?k2 lm cd) t2" using opens_cooldown [OF assms(1,2)] by blast
  obtain u2 where u2: "?k2 lm cd t2 = Some (code, p, u2)"
    using close_cooldown_code [OF trans [OF e2 [symmetric] u1]] by blast
  obtain hm t3 where e3: "?k2 lm cd t2 = closing (health_Close hm) (?k3 lm cd hm) t3"
    using opens_health [OF assms(1,2)] by blast
  obtain u3 where u3: "?k3 lm cd hm t3 = Some (code, p, u3)"
    using closing_code [OF trans [OF e3 [symmetric] u2]] by blast
  obtain collect e f t4 where e4: "?k3 lm cd hm t3 = finally_do f (?k4 lm cd hm collect e) t4"
    using opens_metrics [OF assms(1)] by blast
  obtain u4 where u4: "?k4 lm cd hm collect e t4 = Some (code, p, u4)"
    using finally_code [OF trans [OF e4 [symmetric] u3]] by blast
  have "TrimSpace (HealthScript cfg) \<noteq> []" using assms(2) by (simp add: valid_config_def blank_TrimSpace)
  with u4 assms(5) show ?thesis
    by (auto simp: or_fail_def NewScriptRunner_def Let_def dest: fail_code split: if_splits)
qed

lemma dry_valid: "valid_config (dry vals cfg) = valid_config cfg" "fits_durations (dry vals cfg) = fits_durations cfg"
  by (cases "flag_on vals ''dry-run''"; simp add: dry_def valid_config_def fits_durations_def)+

lemma run_configured_code:
  assumes "well_connected M" "Load yaml open_file path = Inr cfg" "fits_durations cfg"
    and "run_configured M once (dry vals cfg) s = Some (code, p, t)"
  shows "(code = exitConfigError) = (\<not> startable M (st_world s) cfg)"
proof -
  let ?cfg = "dry vals cfg"
  have fields: "RebootRequiredDetectors ?cfg = RebootRequiredDetectors cfg" "EtcdTLS ?cfg = EtcdTLS cfg"
    "HealthScript ?cfg = HealthScript cfg"
    by (simp_all add: dry_def)
  have "valid_config cfg" using assms(2) by (auto simp: Load_def decode_Inr split: sum.splits)
  then have valid: "valid_config ?cfg" "fits_durations ?cfg"
    using assms(3) by (simp_all add: dry_valid)
  from loaded_detectors [OF assms(2)] obtain ds where
    ds: "NewAll (RebootRequiredDetectors cfg) = Inr ds"
    and engine: "NewEngine ds = (if distinct (map (TrimSpace \<circ> dc_Name) (RebootRequiredDetectors cfg))
      then Inr \<lparr>eng_detectors = ds\<rparr> else Inl (the (engine_names [] ds)))" by blast
  let ?distinct = "distinct (map (TrimSpace \<circ> dc_Name) (RebootRequiredDetectors cfg))"
  obtain u where u: "with_engine M ?cfg (\<lambda>en. with_tls M ?cfg (\<lambda>tls.
       with_lock M ?cfg tls (\<lambda>lm. with_cooldown M ?cfg tls (\<lambda>cd. with_health M ?cfg tls (\<lambda>hm.
       with_metrics M ?cfg (BaseEnvironment ?cfg) (\<lambda>collect env.
       or_fail M exitConfigError ''failed to construct health runner''
         (NewScriptRunner (HealthScript ?cfg) (HealthTimeout ?cfg) env) (\<lambda>sr.
       start_runner M ?cfg en (health_of M sr) (lock_client_of lm) (run_options M ?cfg collect env cd hm) (\<lambda>d r s.
         (if once then run_once M d r else publish_beside M ?cfg d r (run_loop M ?cfg d r))
           (say M (line (''starting orchestration for node '' @ NodeName ?cfg @ '' (dry-run='' @
              FormatBool (DryRun ?cfg) @ '')'')) s))))))))) s = Some (code, p, u)"
    using awaiting_code [OF assms(4) [unfolded run_configured_def]] by blast
  show ?thesis
  proof (cases "?distinct \<and> (\<exists>tls. buildEtcdTLSConfig M (EtcdTLS cfg) (st_world s) = Inr tls)")
    case False
    then have "code = exitConfigError"
      using u ds engine
      by (auto simp: with_engine_def with_tls_def or_fail_def fields dest: fail_code split: sum.splits if_splits)
    with False show ?thesis by (auto simp: startable_def)
  next
    case True
    then obtain tls where tls: "buildEtcdTLSConfig M (EtcdTLS cfg) (st_world s) = Inr tls" by blast
    from u ds engine True tls have "(code = exitConfigError) = (\<not> IsAbs (TrimSpace (HealthScript ?cfg)))"
      by (intro opened_code [OF assms(1) valid _ started_code])
        (simp add: with_engine_def with_tls_def or_fail_def fields)
    with True show ?thesis by (simp add: startable_def fields)
  qed
qed

lemma run_command: "run M (''run'' # rest) = commandRun M rest"
  by (simp add: run_def fun_eq_iff)

lemma validate_command: "run M (''validate-config'' # rest) = commandValidate M rest"
  by (simp add: run_def fun_eq_iff)

lemma commandRun_code:
  assumes "well_connected M" "parse_flags run_flags Map.empty rest = Some vals"
    and "commandRun M rest s = Some (code, p, t)"
    and "case Load (mc_yaml M) (mc_open M (st_world s)) (config_path vals) of Inl e \<Rightarrow> True | Inr cfg \<Rightarrow> fits_durations cfg"
  shows "(code = exitConfigError) =
    (case Load (mc_yaml M) (mc_open M (st_world s)) (config_path vals) of
       Inl e \<Rightarrow> True | Inr cfg \<Rightarrow> \<not> startable M (st_world s) cfg)"
proof (cases "Load (mc_yaml M) (mc_open M (st_world s)) (config_path vals)")
  case (Inl e)
  with assms(2,3) show ?thesis by (auto simp: commandRun_def with_flags_def with_config_def or_fail_def dest: fail_code)
next
  case (Inr cfg)
  with assms(2,3) have "run_configured M (flag_on vals ''once'') (dry vals cfg) s = Some (code, p, t)"
    by (simp add: commandRun_def with_flags_def with_config_def or_fail_def dry_def)
  with run_configured_code [OF assms(1) Inr] assms(4) Inr show ?thesis by simp
qed

lemma commandValidate_code:
  assumes "parse_flags config_flags Map.empty rest = Some vals"
  shows "\<exists>u. commandValidate M rest s =
    Some (case Load (mc_yaml M) (mc_open M (st_world s)) (config_path vals) of
            Inl e \<Rightarrow> exitConfigError | Inr cfg \<Rightarrow> exitOK, None, u)"
  using assms by (simp add: commandValidate_def with_flags_def with_config_def or_fail_def fail_def stop_def split: sum.split)

section \<open>Properties\<close>

text \<open>C13: What the configuration exit code means.  With reachable etcd and metrics addresses and durations
  that fit, \<open>run\<close> ends with the code for a configuration error exactly when the file does not load, or
  when it does but two detectors have the same name, the TLS material cannot be built, or the health
  script is not an absolute path; nothing that happens later is reported with that code.
  \<open>validate-config\<close> on the same file reports only the first of these.\<close>

theorem config_error_of_run:
  assumes "well_connected M" "parse_flags run_flags Map.empty rest = Some vals"
    and "run M (''run'' # rest) s = Some (code, p, t)"
    and "case Load (mc_yaml M) (mc_open M (st_world s)) (config_path vals) of Inl e \<Rightarrow> True | Inr cfg \<Rightarrow> fits_durations cfg"
    and "parse_flags config_flags Map.empty rest' = Some vals'" "config_path vals' = config_path vals"
  shows "(code = exitConfigError) =
      (case Load (mc_yaml M) (mc_open M (st_world s)) (config_path vals) of
         Inl e \<Rightarrow> True
       | Inr cfg \<Rightarrow> \<not> distinct (map (TrimSpace \<circ> dc_Name) (RebootRequiredDetectors cfg)) \<or>
           (\<forall>tls. buildEtcdTLSConfig M (EtcdTLS cfg) (st_world s) \<noteq> Inr tls) \<or>
           \<not> IsAbs (TrimSpace (HealthScript cfg))) \<and>
    (\<exists>u. run M (''validate-config'' # rest') s =
      Some (case Load (mc_yaml M) (mc_open M (st_world s)) (config_path vals) of
              Inl e \<Rightarrow> exitConfigError | Inr cfg \<Rightarrow> exitOK, None, u))"
  using commandRun_code [OF assms(1,2) assms(3) [unfolded run_command] assms(4)]
    commandValidate_code [OF assms(5), of M s, folded validate_command] assms(6)
  by (auto simp: startable_def split: sum.splits)

section \<open>Witness\<close>

text \<open>A configuration that loads although its health script is a relative path.\<close>

definition relative_machine :: "unit machine" where
  "relative_machine = demo_machine\<lparr>mc_yaml := \<lambda>text. Inr (demo_file\<lparr>HealthScript := ''check.sh''\<rparr>)\<rparr>"

lemma relative_loads:
  "Load (mc_yaml relative_machine) (mc_open relative_machine w) path =
     Inr (applyDefaults (demo_file\<lparr>HealthScript := ''check.sh''\<rparr>))"
proof -
  have "Validate (applyDefaults (demo_file\<lparr>HealthScript := ''check.sh''\<rparr>)) = None" by code_simp
  then show ?thesis by (simp add: relative_machine_def demo_machine_def Load_def decode_def)
qed

theorem config_error_of_run_witness:
  "(\<exists>p t. run relative_machine [''run'', ''--once''] demo_st = Some (exitConfigError, p, t)) \<and>
   (\<exists>u. run relative_machine [''validate-config''] demo_st = Some (exitOK, None, u))"
proof -
  let ?M = relative_machine and ?cfg = "applyDefaults (demo_file\<lparr>HealthScript := ''check.sh''\<rparr>)"
  obtain vals where vals: "parse_flags run_flags Map.empty [''--once''] = Some vals" "flag_on vals ''once''"
    using once_flags by blast
  have path: "map_option config_path (parse_flags run_flags Map.empty [''--once'']) =
      map_option config_path (parse_flags config_flags Map.empty [])" by code_simp
  have noflags: "parse_flags config_flags Map.empty [] = Some Map.empty" by simp
  have connected: "well_connected ?M" by (auto simp: well_connected_def relative_machine_def demo_machine_def)
  obtain code p t where r: "run ?M [''run'', ''--once''] demo_st = Some (code, p, t)"
    using endless_run [of ?M "[''run'', ''--once'']" demo_st] vals
    by (cases "run ?M [''run'', ''--once''] demo_st") auto
  have fits: "fits_durations ?cfg" "\<not> IsAbs (TrimSpace (HealthScript ?cfg))" by code_simp+
  note result = config_error_of_run [OF connected vals(1) r _ noflags, unfolded relative_loads sum.case]
  have "config_path Map.empty = config_path vals" using path vals(1) noflags by simp
  with result fits r show ?thesis by simp
qed

end
