(* ===== verification/LockHolding.thy ===== *)
theory LockHolding
  imports LoopSafety PassInvariant
begin

text \<open>
  The runner and its managers together: a pass that is ready to reboot really owns the mutex in etcd,
  the loop starts the cooldown while it does, and the reboot command runs only then.  What the managers
  grant is their contract; that nothing else takes the lock away in between is an assumption about the
  calls of the pass (the sessions of a live node do not expire), stated once as a locale.
\<close>

section \<open>What the other calls leave alone\<close>

text \<open>A property of the world that no call of the runner changes but those of the lock.\<close>

locale undisturbed =
  fixes d :: "'w deps" and P :: "'w \<Rightarrow> bool"
  assumes by_time: "P w \<Longrightarrow> P (snd (d_time d w))"
    and by_now: "P w \<Longrightarrow> P (snd (d_now d w))"
    and by_kill: "P w \<Longrightarrow> P (snd (d_checkKill d path w))"
    and by_evaluate: "P w \<Longrightarrow> P (snd (d_evaluate d w))"
    and by_health: "P w \<Longrightarrow> P (snd (d_health d env w))"
    and by_status: "P w \<Longrightarrow> P (snd (d_clusterStatus d w))"
    and by_healthy: "P w \<Longrightarrow> P (snd (d_reportHealthy d w))"
    and by_unhealthy: "P w \<Longrightarrow> P (snd (d_reportUnhealthy d rep w))"
    and by_cooldown: "P w \<Longrightarrow> P (snd (d_cooldownStatus d w))"
    and by_random: "P w \<Longrightarrow> P (snd (d_random d n w))"
    and by_order: "P w \<Longrightarrow> P (snd (d_peerOrder d m w))"
    and by_report: "P w \<Longrightarrow> P (d_report d x w)"
begin

lemma kept_silent: "(\<And>w. P w \<Longrightarrow> P (snd (f w))) \<Longrightarrow> P (st_world s) \<Longrightarrow> P (st_world (snd (silent f s)))"
  by (simp add: silent_def split_beta)

lemma kept_invoke: "(\<And>w. P w \<Longrightarrow> P (snd (f w))) \<Longrightarrow> P (st_world s) \<Longrightarrow> P (st_world (snd (invoke f c s)))"
  by (simp add: invoke_def split_beta)

lemma passes: "pass_invariant d r (\<lambda>s. P (st_world s))"
  by unfold_locales
    (auto intro!: kept_silent kept_invoke simp: report_def split_beta intro: by_time by_now by_kill by_evaluate
      by_health by_status by_healthy by_unhealthy by_cooldown by_random by_order by_report)

end

sublocale undisturbed \<subseteq> pass: pass_invariant d r "\<lambda>s. P (st_world s)" for r
  by (rule passes)

context undisturbed
begin

lemma kept_recordOutcome: "P (st_world s) \<Longrightarrow> P (st_world (recordOutcome d r out s))"
  by (simp add: recordOutcome_def Let_def pass.kept_emit split: option.split)

end

section \<open>A granted lease is held\<close>

locale lock_holder =
  fixes d :: "'w deps" and holds :: "lease \<Rightarrow> 'w \<Rightarrow> bool"
  assumes grants: "d_acquire d w = (Inr l, w') \<Longrightarrow> holds l w'"
    and keeps: "undisturbed d (holds l)"
    and start_keeps: "holds l w \<Longrightarrow> holds l (snd (d_cooldownStart d t w))"
begin

lemma acquire_once_holds:
  assumes "acquire_once d s = (Inr l, t, s')"
  shows "holds l (st_world s')"
proof -
  let ?s0 = "snd (silent (d_time d) s)"
  have "holds l (snd (d_acquire d (st_world ?s0)))"
    using grants assms by (auto simp: acquire_once_def invoke_def Let_def split_beta prod_eq_iff)
  with assms show ?thesis
    using undisturbed.by_time [OF keeps]
    by (auto simp: acquire_once_def since_def silent_def invoke_def Let_def split_beta prod_eq_iff)
qed

lemmas lease_kept_record = pass_invariant.kept_record [OF undisturbed.passes [OF keeps]]
lemmas lease_kept_since = pass_invariant.kept_since [OF undisturbed.passes [OF keeps]]

lemma acquire_loop_holds:
  assumes "acquire_loop d r start mn mx delay n s = ((Some l, ok, tries, err), s')"
  shows "holds l (st_world s')"
  using assms
proof (induction "nat (r_maxLockTries r) - n" arbitrary: n delay s)
  case 0
  then have "\<not> int n < r_maxLockTries r" by simp
  with 0 show ?case by (subst (asm) acquire_loop.simps) simp
next
  case (Suc k)
  then have more: "int n < r_maxLockTries r" by simp
  obtain res t s1 where once: "acquire_once d s = (res, t, s1)" by (metis prod_cases3)
  show ?case
  proof (cases res)
    case (Inr l')
    let ?s2 = "recordLockAttempt d r (int n) t ''success'' None s1"
    have "acquire_loop d r start mn mx delay n s = ((Some l', True, int n + 1, None),
        recordLockAcquired d r (int n) (fst (since d start ?s2)) (snd (since d start ?s2)))"
      by (subst acquire_loop.simps) (simp add: more once Inr Let_def split_beta)
    with Suc.prems acquire_once_holds [of s l' t s1] once Inr show ?thesis
      by (auto simp: lease_kept_record lease_kept_since)
  next
    case (Inl e)
    from Suc.prems obtain delay' s2 where
      "acquire_loop d r start mn mx delay' (Suc n) s2 = ((Some l, ok, tries, err), s')"
      by (subst (asm) acquire_loop.simps)
        (simp add: more once Inl Let_def split_beta split: if_splits option.splits)
    from Suc.hyps(1) [OF _ this] Suc.hyps(2) show ?thesis by simp
  qed
qed

lemma take_lock_holds:
  assumes "take_lock d r out s = (Inr (out', l, n), s')"
  shows "holds l (st_world s')"
  using assms acquire_loop_holds
  by (auto simp: take_lock_def acquireLock_def stop_with_def Let_def split_beta prod_eq_iff split: option.splits)

lemma under_lock_holds:
  "holds l (st_world s) \<Longrightarrow> holds l (st_world (snd (under_lock_stages d r n out s)))"
  by (rule pass_invariant.kept_under_lock [OF undisturbed.passes [OF keeps]])

lemma startCooldown_holds:
  assumes "holds l (st_world s)"
  shows "holds l (st_world (snd (snd (startCooldown d r out s))))"
proof -
  note kept = undisturbed.kept_invoke [OF keeps start_keeps assms]
  show ?thesis
    using assms by (auto simp: startCooldown_def Let_def split_beta lease_kept_record kept split: option.split)
qed

text \<open>A pass hands over the lease it holds.\<close>

lemma run_under_lock_holds:
  assumes "pending out" "holds l (st_world s)" "run_under_lock d r (out, l, n) s = (out', err, s')" "lockRelease out' = Some l'"
  shows "l' = l \<and> holds l (st_world s')"
proof -
  obtain x s1 where x: "under_lock_stages d r n out s = (x, s1)" by (metis surj_pair)
  from under_lock_holds [OF assms(2), of r n out] x have h: "holds l (st_world s1)" by simp
  from stage_specD [OF under_lock_stages_spec [OF assms(1)] x] have
    st: "\<And>out err. x = Inl (out, err) \<Longrightarrow> stopped out" "\<And>o2. x = Inr o2 \<Longrightarrow> pending o2" by blast+
  have none: "lockRelease o1 = None \<Longrightarrow> deferred_release d r l o1 e s1 = (out', err, s') \<Longrightarrow> lockRelease out' = None" for o1 e
    by (auto simp: deferred_release_def split: prod.splits)
  show ?thesis
  proof (cases x)
    case (Inl y)
    with st(1) have "lockRelease (fst y) = None" by (metis carries_nothing_def prod.collapse stopped_def)
    with none [of "fst y" "snd y"] assms(3,4) x Inl show ?thesis by (simp add: run_under_lock_def split_beta)
  next
    case (Inr o2)
    let ?o = "ready_outcome d r l s1 o2"
    have run: "deferred_release d r l ?o None s1 = (out', err, s')"
      using assms(3) x Inr by (simp add: run_under_lock_def)
    with none assms(4) have "lockRelease ?o \<noteq> None" by (metis option.distinct(1))
    with run assms(4) h ready_outcome_facts(4) [OF st(2) [OF Inr], of d r l s1] show ?thesis
      by (auto simp: deferred_release_kept split: if_splits)
  qed
qed

lemma RunOnce_holds:
  assumes "RunOnce d r s = (out, err, s')" "lockRelease out = Some l"
  shows "holds l (st_world s')"
proof -
  obtain s1 where run: "run_stages d r s = (out, err, s1)"
    and s': "s' = (if err = None \<and> Status out \<noteq> None then recordOutcome d r out s1 else s1)"
    using assms(1) by (auto simp: RunOnce_def split_beta prod_eq_iff)
  obtain x s2 where pre: "pre_lock_stages d r s = (x, s2)" by (metis surj_pair)
  have st: "\<And>o3 e. x = Inl (o3, e) \<Longrightarrow> stopped o3" "\<And>a. x = Inr a \<Longrightarrow> pending a"
    using stage_specD [OF pre_lock_stages_spec pre] by blast+
  have free: "lockRelease o1 = None" if "stopped o1" for o1 using that by (simp add: stopped_def carries_nothing_def)
  obtain o1 where o1: "x = Inr o1"
    using st(1) [THEN free] run pre assms(2) by (cases x) (auto simp: run_stages_def stage_then_def)
  obtain y s3 where take: "take_lock d r o1 s2 = (y, s3)" by (metis surj_pair)
  obtain z where y: "y = Inr z"
    using run pre o1 take assms(2) st(2) [OF o1]
    by (cases y) (auto simp: run_stages_def stage_then_def take_lock_def stop_with_def pending_def carries_nothing_def
        split_beta split: option.splits)
  obtain o2 l2 n where z: "z = (o2, l2, n)" by (cases z)
  have "pending o2" using take y z st(2) [OF o1] by (auto simp: take_lock_def stop_with_def split_beta split: option.splits)
  moreover have "run_under_lock d r (o2, l2, n) s3 = (out, err, s1)"
    using run pre o1 take y z by (simp add: run_stages_def stage_then_def)
  ultimately have "holds l (st_world s1)"
    using run_under_lock_holds [OF _ take_lock_holds] take y z assms(2) by blast
  with s' show ?thesis by (simp add: undisturbed.kept_recordOutcome [OF keeps])
qed

end

section \<open>The loop executes as the holder\<close>

text \<open>A function that does something else where a condition fails.\<close>

definition only_when :: "('w \<Rightarrow> bool) \<Rightarrow> ('a \<Rightarrow> 'w \<Rightarrow> 'b) \<Rightarrow> ('a \<Rightarrow> 'w \<Rightarrow> 'b) \<Rightarrow> 'a \<Rightarrow> 'w \<Rightarrow> 'b" where
  "only_when G f other c w = (if G w then f c w else other c w)"

definition with_executor :: "'w loop_env \<Rightarrow> (string list \<Rightarrow> 'w \<Rightarrow> go_error option \<times> 'w) \<Rightarrow> 'w loop_env" where
  "with_executor L f = L\<lparr>le_loop := (le_loop L)\<lparr>ld_execute := f\<rparr>\<rparr>"

lemma with_executor_simps [simp]:
  "le_deps (with_executor L f) = le_deps L" "le_runner (with_executor L f) = le_runner L"
  "le_cfg (with_executor L f) = le_cfg L" "ld_ctx_err (le_loop (with_executor L f)) = ld_ctx_err (le_loop L)"
  "ld_hook (le_loop (with_executor L f)) = ld_hook (le_loop L)"
  "ld_errorHandler (le_loop (with_executor L f)) = ld_errorHandler (le_loop L)"
  "ld_sleep (le_loop (with_executor L f)) = ld_sleep (le_loop L)"
  "ld_random (le_loop (with_executor L f)) = ld_random (le_loop L)"
  "ld_execute (le_loop (with_executor L f)) = f"
  by (simp_all add: with_executor_def)

lemma with_executor_waits [simp]:
  "loop_sleep (with_executor L f) = loop_sleep L" "nextErrorDelay (with_executor L f) = nextErrorDelay L"
  "after_error (with_executor L f) = after_error L" "after_other (with_executor L f) = after_other L"
proof -
  show sleep: "loop_sleep (with_executor L f) = loop_sleep L" by (simp add: loop_sleep_def fun_eq_iff)
  show delay: "nextErrorDelay (with_executor L f) = nextErrorDelay L" by (simp add: nextErrorDelay_def fun_eq_iff Let_def)
  show "after_error (with_executor L f) = after_error L" by (simp add: after_error_def fun_eq_iff sleep delay Let_def split_beta)
  show "after_other (with_executor L f) = after_other L" by (simp add: after_other_def fun_eq_iff sleep Let_def split_beta split: option.split)
qed

text \<open>Loops with the same iterations end alike.\<close>

lemma same_iterations_half:
  assumes "\<And>x. loop_iteration L' x = loop_iteration L x" "loop_Run L x = Some res"
  shows "loop_Run L' x = Some res"
proof -
  from loop_Run_runs [OF assms(2)] obtain y where
    y: "loop_runs L x y" "loop_iteration L y = (Return (fst res), snd res)" by blast
  have "loop_runs L' x y" using y(1) by induction (auto intro: loop_runs.intros simp: assms(1))
  then have "loop_Run L' x = loop_Run L' y" by (rule loop_runs_Run)
  with y(2) show ?thesis by (simp add: loop_Run.simps [of L' y] assms(1))
qed

lemma same_iterations:
  assumes "\<And>x. loop_iteration L' x = loop_iteration L x"
  shows "loop_Run L' x = loop_Run L x"
proof (cases "loop_Run L x")
  case None
  with same_iterations_half [of L L' x] assms show ?thesis by (cases "loop_Run L' x") auto
next
  case (Some res)
  with same_iterations_half [of L' L x res] assms show ?thesis by simp
qed

text \<open>The node holds the lock, and the cooldown is active if there is to be one.\<close>

definition may_execute :: "(lease \<Rightarrow> 'w \<Rightarrow> bool) \<Rightarrow> ('w \<Rightarrow> bool) \<Rightarrow> runner \<Rightarrow> 'w \<Rightarrow> bool" where
  "may_execute holds active r w \<longleftrightarrow> (\<exists>l. holds l w) \<and> (cooldown_interval r \<noteq> None \<longrightarrow> active w)"

locale reboot_guard = lock_holder "le_deps L" holds for L :: "'w loop_env" and holds +
  fixes active :: "'w \<Rightarrow> bool"
  assumes hook_keeps: "holds l w \<Longrightarrow> holds l (ld_hook (le_loop L) out w)"
    and cooldown_begins: "d_cooldownStart (le_deps L) t w = (None, w') \<Longrightarrow> 0 < sint t \<Longrightarrow> active w'"
    and cooldown_lasts: "active w \<Longrightarrow> active (d_report (le_deps L) x w)"
    and fair: "honest_random (le_deps L)" "0 < r_maxLockTries (le_runner L)"
begin

lemma active_reported: "active (st_world s) \<Longrightarrow> active (st_world (report (le_deps L) x s))"
  by (simp add: report_def cooldown_lasts)

lemma active_after_start:
  assumes "startCooldown (le_deps L) (le_runner L) out s = (None, out', s')"
    and "cooldownStart out = cooldown_interval (le_runner L)" "cooldown_interval (le_runner L) \<noteq> None"
  shows "active (st_world s')"
proof -
  obtain t where t: "cooldown_interval (le_runner L) = Some t" "0 < sint t"
    using assms(3) by (auto simp: cooldown_interval_def split: if_splits)
  let ?c = "invoke (d_cooldownStart (le_deps L) t) (CooldownStart t) s"
  have c: "fst ?c = None" "s' = recordCooldownActivation (le_deps L) (le_runner L) t None (snd ?c)"
    using assms(1,2) t by (auto simp: startCooldown_def Let_def split_beta split: option.splits)
  then have "active (st_world (snd ?c))"
    using cooldown_begins [OF _ t(2)] by (simp add: invoke_def split_beta prod_eq_iff)
  with c(2) show ?thesis by (simp add: recordCooldownActivation_def count_metric_def emit_metric_def emit_event_def active_reported Let_def)
qed

lemma after_ready_guarded:
  assumes "Status out = Some OutcomeReady"
    "executable out \<Longrightarrow> cooldownStart out = cooldown_interval (le_runner L) \<and> (\<exists>l. holds l (st_world (lp_st x)))"
  shows "after_ready (with_executor L (only_when (may_execute holds active (le_runner L)) (ld_execute (le_loop L)) f)) out x =
    after_ready L out x"
proof (cases "out_DryRun out \<or> Command out = []")
  case True
  then show ?thesis by (auto simp: after_ready_def)
next
  case False
  let ?G = "may_execute holds active (le_runner L)"
  obtain cd o1 s1 where st: "startCooldown (le_deps L) (le_runner L) out (lp_st x) = (cd, o1, s1)" by (metis prod_cases3)
  show ?thesis
  proof (cases cd)
    case (Some e)
    with False st show ?thesis by (simp add: after_ready_def)
  next
    case None
    from False assms obtain l where h: "holds l (st_world (lp_st x))" and
      c: "cooldownStart out = cooldown_interval (le_runner L)"
      by (auto simp: executable_def)
    from startCooldown_holds [OF h, of "le_runner L" out] st have "holds l (st_world s1)" by simp
    with active_after_start [OF st [unfolded None] c] have "?G (st_world s1)" by (auto simp: may_execute_def)
    then have "invoke (only_when ?G (ld_execute (le_loop L)) f c) k s1 = invoke (ld_execute (le_loop L) c) k s1" for c k
      by (simp add: invoke_def only_when_def)
    with False st None show ?thesis by (simp add: after_ready_def Let_def)
  qed
qed

lemma iteration_guarded:
  "loop_iteration (with_executor L (only_when (may_execute holds active (le_runner L)) (ld_execute (le_loop L)) f)) x =
    loop_iteration L x"
proof -
  let ?L = "with_executor L (only_when (may_execute holds active (le_runner L)) (ld_execute (le_loop L)) f)"
  obtain c s where c: "silent (ld_ctx_err (le_loop L)) (lp_st x) = (c, s)" by (metis surj_pair)
  obtain out err s1 where pass: "RunOnce (le_deps L) (le_runner L) s = (out, err, s1)" by (metis prod_cases3)
  let ?y = "x\<lparr>lp_st := tell (ld_hook (le_loop L) out) s1, lp_backoff := 0\<rparr>"
  have ready: "after_ready ?L out ?y = after_ready L out ?y" if r: "Status out = Some OutcomeReady"
  proof (rule after_ready_guarded [OF r])
    assume ex: "executable out"
    from pass_calls [OF fair pass] ex obtain l where l: "lockRelease out = Some l"
      and start: "cooldownStart out = cooldown_interval (le_runner L)" by blast
    from RunOnce_holds [OF pass l] have "holds l (st_world (lp_st ?y))" by (simp add: tell_def hook_keeps)
    with start show "cooldownStart out = cooldown_interval (le_runner L) \<and> (\<exists>l. holds l (st_world (lp_st ?y)))" by blast
  qed
  show ?thesis
    using c pass ready by (simp add: loop_iteration_def Let_def split: option.split)
qed

lemma loop_guarded:
  "loop_Run (with_executor L (only_when (may_execute holds active (le_runner L)) (ld_execute (le_loop L)) f)) x = loop_Run L x"
  by (rule same_iterations) (rule iteration_guarded)

end

end
