(* ===== verification/OwnerReboots.thy ===== *)
theory OwnerReboots
  imports LockHolding ClusterLock CooldownManager ProcessLoop
begin

text \<open>
  The loop of \<open>run\<close> with the managers of etcd: the reboot command is run by the owner of the mutex,
  with the cooldown in the store; and while a cooldown is in the store no pass gets to the lock.
\<close>

section \<open>The managers of etcd\<close>

lemma etcd_holder:
  assumes "d_acquire d = lock_Acquire lm" "etcd_mutex (lm_client lm) owner" "clock_keeps owner lm"
    and "\<And>l. undisturbed d (\<lambda>w. owner w (lm_key lm) = Some l)"
    and "\<And>t w. owner (snd (d_cooldownStart d t w)) (lm_key lm) = owner w (lm_key lm)"
  shows "lock_holder d (\<lambda>l w. owner w (lm_key lm) = Some l)"
proof (rule lock_holder.intro)
  show "owner w' (lm_key lm) = Some l" if "d_acquire d w = (Inr l, w')" for w l w'
    using lock_Acquire_holder [OF assms(2,3), of w "Inr l" w'] that assms(1) by simp
qed (simp_all add: assms(4,5))

section \<open>In the world of the process\<close>

lemma process_undisturbed:
  assumes "undisturbed d P"
  shows "undisturbed (process_deps d) (\<lambda>p. P (pw_world p))"
  using assms
  by (simp add: undisturbed_def process_deps_def in_world_def write_world_def split_beta)

lemma process_holder:
  assumes "lock_holder d holds"
  shows "lock_holder (process_deps d) (\<lambda>l p. holds l (pw_world p))"
proof (rule lock_holder.intro)
  show "holds l (pw_world p')" if "d_acquire (process_deps d) p = (Inr l, p')" for p l p'
    using that lock_holder.grants [OF assms, of "pw_world p" l "snd (d_acquire d (pw_world p))"]
    by (auto simp: process_deps_def in_world_def split_beta prod_eq_iff)
  show "undisturbed (process_deps d) (\<lambda>p. holds l (pw_world p))" for l
    by (rule process_undisturbed [OF lock_holder.keeps [OF assms]])
  show "holds l (pw_world (snd (d_cooldownStart (process_deps d) t p)))" if "holds l (pw_world p)" for l p t
    using lock_holder.start_keeps [OF assms that] by (simp add: process_deps_def in_world_def split_beta)
qed

lemma guarded_machine:
  "process_loop (M\<lparr>mc_run := only_when G (mc_run M) other\<rparr>) cfg d r =
   with_executor (process_loop M cfg d r)
     (only_when (\<lambda>p. G (pw_world p)) (ld_execute (le_loop (process_loop M cfg d r)))
        (tracking_Execute (M\<lparr>mc_run := other\<rparr>)))"
proof -
  have "tracking_Execute (M\<lparr>mc_run := only_when G (mc_run M) other\<rparr>) c p =
      only_when (\<lambda>p. G (pw_world p)) (tracking_Execute M) (tracking_Execute (M\<lparr>mc_run := other\<rparr>)) c p" for c p
    by (simp add: tracking_Execute_def in_world_def Execute_command_def only_when_def)
  then show ?thesis
    by (simp add: process_loop_def with_executor_def fun_eq_iff iteration_hook_def iteration_error_def)
qed

lemma loop_ended_runs_nothing: "loop_ended (M\<lparr>mc_run := f\<rparr>) cfg d r = loop_ended M cfg d r"
proof -
  have "release_or_fail (M\<lparr>mc_run := f\<rparr>) d r = release_or_fail M d r"
    by (simp add: release_or_fail_def fail_def complain_def fun_eq_iff Let_def split_beta split: option.split)
  note release = this
  have steps: "fail (M\<lparr>mc_run := f\<rparr>) = fail M" "say (M\<lparr>mc_run := f\<rparr>) = say M"
    by (simp_all add: fail_def say_def complain_def fun_eq_iff)
  show ?thesis by (intro ext) (simp only: loop_ended_def release steps)
qed

text \<open>The managers in the loop of the process.\<close>

lemma etcd_guard:
  assumes "d_acquire d = lock_Acquire lm" "etcd_mutex (lm_client lm) owner" "clock_keeps owner lm"
    and "\<And>l. undisturbed d (\<lambda>w. owner w (lm_key lm) = Some l)"
    and "\<And>t w. owner (snd (d_cooldownStart d t w)) (lm_key lm) = owner w (lm_key lm)"
    and "\<And>text w. owner (mc_stdout M text w) = owner w"
    and "d_cooldownStart d = cooldown_Start u cm" "keeps_values (cm_client cm) view ttl" "quiet_clock view ttl (cm_now cm)"
    and "\<And>x w. view (d_report d x w) = view w \<and> ttl (d_report d x w) = ttl w"
    and "honest_random d" "0 < r_maxLockTries r"
  shows "reboot_guard (process_loop M cfg d r) (\<lambda>l p. owner (pw_world p) (lm_key lm) = Some l)
    (\<lambda>p. cooldown_active view ttl (cm_key cm) (pw_world p))"
proof -
  have parts: "le_deps (process_loop M cfg d r) = process_deps d" "le_runner (process_loop M cfg d r) = r"
    "ld_hook (le_loop (process_loop M cfg d r)) = iteration_hook M"
    by (simp_all add: process_loop_def)
  note holder = process_holder [OF etcd_holder [OF assms(1-5)]]
  show ?thesis
  proof (intro reboot_guard.intro reboot_guard_axioms.intro, unfold parts)
    show "lock_holder (process_deps d) (\<lambda>l p. owner (pw_world p) (lm_key lm) = Some l)" by (rule holder)
    show "owner (pw_world (iteration_hook M out p)) (lm_key lm) = Some l"
      if "owner (pw_world p) (lm_key lm) = Some l" for l p out
      using that by (simp add: iteration_hook_def Let_def assms(6))
    show "cooldown_active view ttl (cm_key cm) (pw_world p')"
      if "d_cooldownStart (process_deps d) t p = (None, p')" "0 < sint t" for t p p'
      using cooldown_service.started [OF etcd_cooldown_service [OF assms(8,9), of u], of t "pw_world p"] that
      by (auto simp: process_deps_def in_world_def assms(7) split_beta prod_eq_iff)
    show "cooldown_active view ttl (cm_key cm) (pw_world (d_report (process_deps d) x p))"
      if "cooldown_active view ttl (cm_key cm) (pw_world p)" for x p
      using that assms(10) by (simp add: process_deps_def write_world_def cooldown_active_def split: option.splits prod.splits)
  qed (simp_all add: assms(11,12))
qed

section \<open>The owner reboots\<close>


section \<open>A cooldown keeps every pass from the lock\<close>

lemma pass_stops_before_lock:
  assumes "undisturbed d active" "active (st_world s)"
    and "\<And>out s. active (st_world s) \<Longrightarrow> \<exists>x. fst (check_cooldown d r out s) = Inl x"
  shows "\<exists>x. fst (pre_lock_stages d r s) = Inl x"
proof -
  note P = undisturbed.passes [OF assms(1), of r]
  have stop: "\<exists>x. fst (stage_then m k s) = Inl x"
    if "active (st_world s)" "\<And>s. active (st_world s) \<Longrightarrow> active (st_world (snd (m s)))"
      "\<And>a s. active (st_world s) \<Longrightarrow> \<exists>x. fst (k a s) = Inl x"
    for s and m :: "('a, 'c) stage" and k :: "'c \<Rightarrow> ('a, 'e) stage"
    using that(3) [OF that(2) [OF that(1)]]
    by (cases "m s") (auto simp: stage_then_def split: sum.split)
  have last: "\<exists>x. fst (stage_then (check_cooldown d r out) k s) = Inl x" if "active (st_world s)" for out k s
    using assms(3) [OF that, of out] by (auto simp: stage_then_def split_beta split: sum.split)
  show ?thesis
    unfolding pre_lock_stages_def
    by (intro stop last assms(2) pass_invariant.kept_kill_switch [OF P] pass_invariant.kept_windows [OF P]
        pass_invariant.kept_check_detectors [OF P] pass_invariant.kept_check_cluster [OF P]
        pass_invariant.kept_check_health [OF P])
qed


section \<open>On the etcd in memory\<close>

definition mem_deps :: "string \<Rightarrow> mem deps" where
  "mem_deps n = \<lparr>d_time = \<lambda>w. (m_time w, w), d_now = \<lambda>w. (m_time w, w),
     d_checkKill = \<lambda>p w. ((False, None), w), d_evaluate = \<lambda>w. ((True, [], None), w),
     d_health = \<lambda>env w. ((\<lparr>hr_ExitCode = 0, hr_Stdout = [], hr_Stderr = [], hr_Duration = 0\<rparr>, None), w),
     d_clusterStatus = \<lambda>w. (([], None), w), d_reportHealthy = \<lambda>w. (None, w), d_reportUnhealthy = \<lambda>h w. (None, w),
     d_cooldownStatus = cooldown_Status mem_texts (\<lambda>w. (m_time w, w)) (mem_cooldown_manager n),
     d_cooldownStart = cooldown_Start 0 (mem_cooldown_manager n),
     d_acquire = lock_Acquire (mem_lock_manager n), d_release = lease_Release (mem_lock_manager n),
     d_sleep = \<lambda>t w. (None, w), d_random = \<lambda>k w. (0, w), d_getenv = \<lambda>w k. [], d_peerOrder = \<lambda>m w. ([], w),
     d_report = \<lambda>x w. w, d_unrepresentable = 0\<rparr>"

definition mem_os :: "mem os" where
  "mem_os = \<lparr>os_now = \<lambda>w. (m_time w, w), os_ctx_err = \<lambda>w. (None, w), os_stat = \<lambda>p w. (None, w), os_environ = \<lambda>w. ([], w),
     os_range = \<lambda>m w. ([], w),
     os_run = (\<lambda>t cmd env w. (\<lparr>proc_err = None, proc_ctx_err = None, proc_stdout = [], proc_stderr = []\<rparr>, w))\<rparr>"

definition mem_machine :: "mem machine" where
  "mem_machine = \<lparr>mc_runtime = \<lparr>rt_os = mem_os, rt_sleep = \<lambda>t w. (None, w), rt_random = \<lambda>n w. (0, w),
       rt_getenv = \<lambda>w k. [], rt_peerOrder = \<lambda>m w. ([], w), rt_unrepresentable = 0\<rparr>,
     mc_stdout = \<lambda>t w. w, mc_stderr = \<lambda>t w. w, mc_flag_message = \<lambda>args. [], mc_yaml = \<lambda>t. Inr minimal_config,
     mc_open = \<lambda>w p. Inr [], mc_keypair = \<lambda>c k w. Inr [], mc_pool = Some, mc_dial = \<lambda>c w. (Inr mem_etcd, w),
     mc_texts = mem_texts, mc_getpid = 1, mc_marshal_event = \<lambda>e. Inr [], mc_listen = \<lambda>a w. (Inr a, w),
     mc_collect = \<lambda>m w. w, mc_shutdown = \<lambda>w. (None, w), mc_serve = \<lambda>w. (None, w), mc_run = \<lambda>c w. (None, w),
     mc_ctx_err = \<lambda>w. (None, w), mc_loop_sleep = \<lambda>t w. (None, w), mc_heartbeats = \<lambda>p w. (None, w),
     mc_build_info = None, mc_version = defaultVersion\<rparr>"

definition mem_st :: "mem \<Rightarrow> mem st" where
  "mem_st w = \<lparr>st_world = w, st_calls = [], st_reports = [], st_lastOutcome = None, st_summaries = Map.empty,
     st_peers = Map.empty\<rparr>"

lemma mem_Status_world: "snd (cooldown_Status T (\<lambda>w. (m_time w, w)) (mem_cooldown_manager n) w) = w"
  by (simp add: cooldown_Status_def mem_etcd_def clock_status_def Let_def split_beta split: option.splits sum.splits list.splits)

lemma mem_Start_locks: "m_locks (snd (cooldown_Start u (mem_cooldown_manager n) t w)) = m_locks w"
  by (simp add: cooldown_Start_def mem_etcd_def mem_put_def json_Marshal_def Let_def del: json_print.simps)

lemma mem_undisturbed: "undisturbed (mem_deps n) P"
  by unfold_locales (simp_all add: mem_deps_def mem_Status_world)

lemmas mem_guard = etcd_guard [of "mem_deps n" "mem_lock_manager n" "\<lambda>w. map_of (m_locks w)" mem_machine 0
  "mem_cooldown_manager n" mem_view mem_ttl demo_r cfg for n cfg]

lemma mem_facts:
  "d_acquire (mem_deps n) = lock_Acquire (mem_lock_manager n)"
  "d_cooldownStart (mem_deps n) = cooldown_Start 0 (mem_cooldown_manager n)"
  "etcd_mutex (lm_client (mem_lock_manager n)) (\<lambda>w. map_of (m_locks w))"
  "keeps_values (cm_client (mem_cooldown_manager n)) mem_view mem_ttl"
  "map_of (m_locks (snd (d_cooldownStart (mem_deps n) t w))) k = map_of (m_locks w) k"
  "mc_stdout mem_machine text w = w" "d_report (mem_deps n) x w = w"
  "honest_random (mem_deps n)" "0 < r_maxLockTries demo_r"
  using mem_mutex mem_values
  by (simp_all add: mem_deps_def mem_lock_manager_def mem_machine_def mem_Start_locks honest_random_def demo_r_def)

interpretation mem_reboots: reboot_guard "process_loop mem_machine cfg (mem_deps n) demo_r"
  "\<lambda>l p. map_of (m_locks (pw_world p)) (lm_key (mem_lock_manager n)) = Some l"
  "\<lambda>p. cooldown_active mem_view mem_ttl (cm_key (mem_cooldown_manager n)) (pw_world p)" for cfg n
  by (rule mem_guard; (rule mem_facts mem_clock mem_undisturbed mem_quiet)?) (simp_all add: mem_facts)



end
